(* ===== verification/Paykit_Prelude.thy ===== *)
theory Paykit_Prelude
  imports Main "HOL-Library.Word"
begin

text \<open>
  The prelude of the development.  It holds the result type that stands for Rust's
  \<open>Result\<close> with its bind, the names of the machine integers, the fixed-width checked
  arithmetic, and the decimal text functions of the standard library
  (\<open>str::parse::<u64>\<close>, \<open>to_string\<close> and zero-padded formatting) with the lemmas that
  the components share.  A Rust string is its UTF-8 byte sequence, an Isabelle
  \<open>string\<close>: \<open>len()\<close> is \<^const>\<open>length\<close> and \<open>bytes()\<close> is the list itself.
\<close>

named_theorems result_simps \<open>evaluation of the result combinators\<close>
named_theorems decimal_simps \<open>facts on decimal text\<close>

section \<open>Results\<close>

type_synonym ('e, 'a) res = "'e + 'a"

definition bindr :: "('e, 'a) res \<Rightarrow> ('a \<Rightarrow> ('e, 'b) res) \<Rightarrow> ('e, 'b) res" where
  "bindr m f = (case m of Inl e \<Rightarrow> Inl e | Inr x \<Rightarrow> f x)"

definition ok_or :: "'a option \<Rightarrow> 'e \<Rightarrow> ('e, 'a) res" where
  "ok_or m e = (case m of None \<Rightarrow> Inl e | Some x \<Rightarrow> Inr x)"

definition map_err :: "('e \<Rightarrow> 'f) \<Rightarrow> ('e, 'a) res \<Rightarrow> ('f, 'a) res" where
  "map_err f m = (case m of Inl e \<Rightarrow> Inl (f e) | Inr x \<Rightarrow> Inr x)"

definition guardr :: "bool \<Rightarrow> 'e \<Rightarrow> ('e, unit) res" where
  "guardr b e = (if b then Inl e else Inr ())"

definition okr :: "('e, 'a) res \<Rightarrow> 'a option" where
  "okr m = (case m of Inl e \<Rightarrow> None | Inr x \<Rightarrow> Some x)"

definition is_err :: "('e, 'a) res \<Rightarrow> bool" where
  "is_err m = (case m of Inl e \<Rightarrow> True | Inr x \<Rightarrow> False)"

lemma bindr_simps [simp, result_simps]:
  "bindr (Inl e) f = Inl e" "bindr (Inr x) f = f x"
  by (simp_all add: bindr_def)

lemma ok_or_simps [simp, result_simps]:
  "ok_or None e = Inl e" "ok_or (Some x) e = Inr x"
  by (simp_all add: ok_or_def)

lemma map_err_simps [simp, result_simps]:
  "map_err f (Inl e) = Inl (f e)" "map_err f (Inr x) = Inr x"
  by (simp_all add: map_err_def)

lemma okr_simps [simp, result_simps]:
  "okr (Inl e) = None" "okr (Inr x) = Some x"
  by (simp_all add: okr_def)

lemma is_err_simps [simp, result_simps]:
  "is_err (Inl e)" "\<not> is_err (Inr x)"
  by (simp_all add: is_err_def)

lemma guardr_simps [simp, result_simps]:
  "guardr True e = Inl e" "guardr False e = Inr ()"
  by (simp_all add: guardr_def)

lemma bindr_eq_Inr [simp]: "bindr m f = Inr y \<longleftrightarrow> (\<exists>x. m = Inr x \<and> f x = Inr y)"
  by (cases m) simp_all

lemma bindr_eq_Inl: "bindr m f = Inl e \<longleftrightarrow> m = Inl e \<or> (\<exists>x. m = Inr x \<and> f x = Inl e)"
  by (cases m) auto

lemma ok_or_eq_Inr [simp]: "ok_or m e = Inr x \<longleftrightarrow> m = Some x"
  by (cases m) simp_all

lemma ok_or_eq_Inl [simp]: "ok_or m e = Inl e' \<longleftrightarrow> m = None \<and> e' = e"
  by (cases m) auto

lemma map_err_eq_Inr [simp]: "map_err f m = Inr x \<longleftrightarrow> m = Inr x"
  by (cases m) simp_all

lemma map_err_eq_Inl: "map_err f m = Inl e \<longleftrightarrow> (\<exists>e'. m = Inl e' \<and> e = f e')"
  by (cases m) auto

lemma guardr_eq_Inr [simp]: "guardr b e = Inr u \<longleftrightarrow> \<not> b"
  by (cases b) simp_all

lemma guardr_eq_Inl [simp]: "guardr b e = Inl e' \<longleftrightarrow> b \<and> e' = e"
  by (cases b) auto

lemma okr_eq_Some [simp]: "okr m = Some x \<longleftrightarrow> m = Inr x"
  by (cases m) simp_all

lemma is_err_iff: "is_err m \<longleftrightarrow> (\<exists>e. m = Inl e)"
  by (cases m) simp_all

lemma not_is_err_iff: "\<not> is_err m \<longleftrightarrow> (\<exists>x. m = Inr x)"
  by (cases m) simp_all

lemma bindr_assoc: "bindr (bindr m f) g = bindr m (\<lambda>x. bindr (f x) g)"
  by (cases m) simp_all

text \<open>\<open>collect::<Result<Vec<_>, _>>()\<close>: the first error of the sequence, or all the values.\<close>

fun mapr :: "('a \<Rightarrow> ('e, 'b) res) \<Rightarrow> 'a list \<Rightarrow> ('e, 'b list) res" where
  "mapr f [] = Inr []"
| "mapr f (x # xs) = bindr (f x) (\<lambda>y. bindr (mapr f xs) (\<lambda>ys. Inr (y # ys)))"

lemma mapr_Inr_length: "mapr f xs = Inr ys \<Longrightarrow> length ys = length xs"
  by (induction xs arbitrary: ys) auto

lemma mapr_Inr_iff: "mapr f xs = Inr ys \<longleftrightarrow> list_all2 (\<lambda>x y. f x = Inr y) xs ys"
proof (induction xs arbitrary: ys)
  case Nil
  then show ?case by auto
next
  case (Cons x xs)
  then show ?case by (cases ys) auto
qed

lemma mapr_cong_Inr: "(\<And>x. x \<in> set xs \<Longrightarrow> f x = Inr (g x)) \<Longrightarrow> mapr f xs = Inr (map g xs)"
  by (induction xs) auto

text \<open>A loop with early return: left fold in the result type.\<close>

fun foldr_res :: "('s \<Rightarrow> 'a \<Rightarrow> ('e, 's) res) \<Rightarrow> 's \<Rightarrow> 'a list \<Rightarrow> ('e, 's) res" where
  "foldr_res f s [] = Inr s"
| "foldr_res f s (x # xs) = bindr (f s x) (\<lambda>s'. foldr_res f s' xs)"

lemma foldr_res_append:
  "foldr_res f s (xs @ ys) = bindr (foldr_res f s xs) (\<lambda>s'. foldr_res f s' ys)"
  by (induction xs arbitrary: s) (simp_all add: bindr_assoc)

lemma foldr_res_invariant:
  assumes "foldr_res f s xs = Inr t" and "P s"
    and "\<And>s x s'. x \<in> set xs \<Longrightarrow> P s \<Longrightarrow> f s x = Inr s' \<Longrightarrow> P s'"
  shows "P t"
  using assms
proof (induction xs arbitrary: s)
  case Nil
  then show ?case by simp
next
  case (Cons x xs)
  from Cons.prems(1) obtain s' where s': "f s x = Inr s'" and rest: "foldr_res f s' xs = Inr t"
    by auto
  have "P s'" by (rule Cons.prems(3) [OF _ Cons.prems(2) s']) simp
  with rest show ?case using Cons.IH Cons.prems(3) by (metis list.set_intros(2))
qed

section \<open>Machine integers\<close>

type_synonym u8 = "8 word"
type_synonym u32 = "32 word"
type_synonym u64 = "64 word"
type_synonym u256 = "256 word"

text \<open>Checked arithmetic: \<open>None\<close> where the exact result does not fit the width.\<close>

definition checked_add :: "'a::len word \<Rightarrow> 'a word \<Rightarrow> 'a word option" where
  "checked_add a b = (if unat a + unat b < 2 ^ LENGTH('a) then Some (a + b) else None)"

definition checked_mul :: "'a::len word \<Rightarrow> 'a word \<Rightarrow> 'a word option" where
  "checked_mul a b = (if unat a * unat b < 2 ^ LENGTH('a) then Some (a * b) else None)"

lemma checked_add_Some:
  "checked_add a b = Some c \<longleftrightarrow> unat a + unat b < 2 ^ LENGTH('a) \<and> unat c = unat a + unat b"
  for a b c :: "'a::len word"
proof
  assume "checked_add a b = Some c"
  then show "unat a + unat b < 2 ^ LENGTH('a) \<and> unat c = unat a + unat b"
    by (auto simp: checked_add_def unat_word_ariths split: if_splits)
next
  assume h: "unat a + unat b < 2 ^ LENGTH('a) \<and> unat c = unat a + unat b"
  then have "unat (a + b) = unat c" by (simp add: unat_word_ariths)
  then have "a + b = c" by (rule unsigned_word_eqI)
  with h show "checked_add a b = Some c" by (simp add: checked_add_def)
qed

lemma checked_mul_Some:
  "checked_mul a b = Some c \<longleftrightarrow> unat a * unat b < 2 ^ LENGTH('a) \<and> unat c = unat a * unat b"
  for a b c :: "'a::len word"
proof
  assume "checked_mul a b = Some c"
  then show "unat a * unat b < 2 ^ LENGTH('a) \<and> unat c = unat a * unat b"
    by (auto simp: checked_mul_def unat_word_ariths split: if_splits)
next
  assume h: "unat a * unat b < 2 ^ LENGTH('a) \<and> unat c = unat a * unat b"
  then have "unat (a * b) = unat c" by (simp add: unat_word_ariths)
  then have "a * b = c" by (rule unsigned_word_eqI)
  with h show "checked_mul a b = Some c" by (simp add: checked_mul_def)
qed

lemma checked_add_None: "checked_add a b = None \<longleftrightarrow> 2 ^ LENGTH('a) \<le> unat a + unat b"
  for a b :: "'a::len word"
  by (auto simp: checked_add_def not_less)

lemma checked_mul_None: "checked_mul a b = None \<longleftrightarrow> 2 ^ LENGTH('a) \<le> unat a * unat b"
  for a b :: "'a::len word"
  by (auto simp: checked_mul_def not_less)

text \<open>Signed 64-bit values are integers in range; \<open>i64::try_from\<close> on an unsigned value.\<close>

definition i64_max :: int where "i64_max = 2 ^ 63 - 1"

definition i64_try_from :: "u64 \<Rightarrow> int option" where
  "i64_try_from w = (if uint w \<le> i64_max then Some (uint w) else None)"

lemma i64_try_from_Some [simp]:
  "i64_try_from w = Some i \<longleftrightarrow> i = uint w \<and> uint w \<le> i64_max"
  by (auto simp: i64_try_from_def)

end
