(* ===== verification/Decimal_Text.thy ===== *)
theory Decimal_Text
  imports Paykit_Prelude
begin

text \<open>
  The decimal text functions of the Rust standard library that the program uses:
  ASCII classification and case of bytes, \<open>str::parse\<close> for unsigned integers,
  \<open>to_string\<close> and zero-padded formatting of unsigned integers, \<open>split_once\<close> and
  \<open>trim_end_matches\<close> on one character.  The lemmas relate text to value: printing and
  reading back is the identity, and the length of a decimal text bounds its value.
\<close>

section \<open>Bytes\<close>

abbreviation code_of :: "char \<Rightarrow> nat" where
  "code_of c \<equiv> of_char c"

definition is_ascii_digit :: "char \<Rightarrow> bool" where
  "is_ascii_digit c \<longleftrightarrow> 48 \<le> code_of c \<and> code_of c \<le> 57"

definition is_lower_hex :: "char \<Rightarrow> bool" where
  "is_lower_hex c \<longleftrightarrow> 97 \<le> code_of c \<and> code_of c \<le> 102"

definition is_ascii_hexdigit :: "char \<Rightarrow> bool" where
  "is_ascii_hexdigit c \<longleftrightarrow>
     is_ascii_digit c \<or> is_lower_hex c \<or> (65 \<le> code_of c \<and> code_of c \<le> 70)"

definition to_ascii_lowercase :: "char \<Rightarrow> char" where
  "to_ascii_lowercase c =
     (if 65 \<le> code_of c \<and> code_of c \<le> 90 then char_of (code_of c + 32) else c)"

definition to_ascii_uppercase :: "char \<Rightarrow> char" where
  "to_ascii_uppercase c =
     (if 97 \<le> code_of c \<and> code_of c \<le> 122 then char_of (code_of c - 32) else c)"

abbreviation lowercase :: "string \<Rightarrow> string" where
  "lowercase s \<equiv> map to_ascii_lowercase s"

abbreviation uppercase :: "string \<Rightarrow> string" where
  "uppercase s \<equiv> map to_ascii_uppercase s"

lemma code_of_char_of [simp]: "n < 256 \<Longrightarrow> code_of (char_of n) = n"
  by simp

lemma code_of_lowercase:
  "code_of (to_ascii_lowercase c) =
     (if 65 \<le> code_of c \<and> code_of c \<le> 90 then code_of c + 32 else code_of c)"
  by (simp add: to_ascii_lowercase_def)

lemma to_ascii_lowercase_idem [simp]:
  "to_ascii_lowercase (to_ascii_lowercase c) = to_ascii_lowercase c"
  by (simp add: to_ascii_lowercase_def)

lemma lowercase_hexdigit:
  "is_ascii_hexdigit c \<Longrightarrow>
     is_ascii_digit (to_ascii_lowercase c) \<or> is_lower_hex (to_ascii_lowercase c)"
  by (auto simp: is_ascii_hexdigit_def is_ascii_digit_def is_lower_hex_def code_of_lowercase)

lemma lowercase_lower [simp]:
  "is_ascii_digit c \<Longrightarrow> to_ascii_lowercase c = c" "is_lower_hex c \<Longrightarrow> to_ascii_lowercase c = c"
  by (auto simp: is_ascii_digit_def is_lower_hex_def to_ascii_lowercase_def)

section \<open>Value of a decimal text\<close>

definition digit_value :: "char \<Rightarrow> nat" where
  "digit_value c = code_of c - 48"

definition digit_char :: "nat \<Rightarrow> char" where
  "digit_char d = char_of (48 + d)"

fun dec_acc :: "nat \<Rightarrow> string \<Rightarrow> nat" where
  "dec_acc n [] = n"
| "dec_acc n (c # cs) = dec_acc (10 * n + digit_value c) cs"

definition dec_value :: "string \<Rightarrow> nat" where
  "dec_value s = dec_acc 0 s"

definition all_digits :: "string \<Rightarrow> bool" where
  "all_digits s \<longleftrightarrow> list_all is_ascii_digit s"

lemma digit_char_simps [simp]:
  "d < 10 \<Longrightarrow> digit_value (digit_char d) = d" "d < 10 \<Longrightarrow> is_ascii_digit (digit_char d)"
  by (simp_all add: digit_value_def digit_char_def is_ascii_digit_def)

lemma digit_char_eval [simp]:
  "digit_char 0 = CHR ''0''" "digit_char 1 = CHR ''1''" "digit_char (Suc 0) = CHR ''1''"
  "digit_char 2 = CHR ''2''" "digit_char 3 = CHR ''3''" "digit_char 4 = CHR ''4''"
  "digit_char 5 = CHR ''5''" "digit_char 6 = CHR ''6''" "digit_char 7 = CHR ''7''"
  "digit_char 8 = CHR ''8''" "digit_char 9 = CHR ''9''"
  by code_simp+

lemma replicate_numeral_eval: "replicate (numeral k) x = x # replicate (pred_numeral k) x"
  by (simp add: numeral_eq_Suc)

lemma digit_value_bound: "is_ascii_digit c \<Longrightarrow> digit_value c < 10"
  by (auto simp: digit_value_def is_ascii_digit_def)

lemma digit_char_value: "is_ascii_digit c \<Longrightarrow> digit_char (digit_value c) = c"
  by (auto simp: digit_char_def digit_value_def is_ascii_digit_def)

lemma digit_not_dot: "is_ascii_digit c \<Longrightarrow> c \<noteq> CHR ''.''"
  by (auto simp: is_ascii_digit_def)

lemma digit_not_plus: "is_ascii_digit c \<Longrightarrow> c \<noteq> CHR ''+''"
  by (auto simp: is_ascii_digit_def)

lemma all_digits_simps [simp]:
  "all_digits []" "all_digits (c # s) \<longleftrightarrow> is_ascii_digit c \<and> all_digits s"
  "all_digits (s @ t) \<longleftrightarrow> all_digits s \<and> all_digits t"
  by (simp_all add: all_digits_def)

lemma dec_acc_eq: "dec_acc n s = n * 10 ^ length s + dec_acc 0 s"
proof (induction s arbitrary: n)
  case Nil
  then show ?case by simp
next
  case (Cons c s)
  have "dec_acc n (c # s) = (10 * n + digit_value c) * 10 ^ length s + dec_acc 0 s"
    using Cons.IH [of "10 * n + digit_value c"] by simp
  also have "\<dots> = n * 10 ^ length (c # s) + (digit_value c * 10 ^ length s + dec_acc 0 s)"
    by (simp add: algebra_simps)
  also have "digit_value c * 10 ^ length s + dec_acc 0 s = dec_acc 0 (c # s)"
    using Cons.IH [of "digit_value c"] by simp
  finally show ?case .
qed

lemma dec_value_Nil [simp]: "dec_value [] = 0"
  by (simp add: dec_value_def)

lemma dec_acc_append: "dec_acc n (s @ t) = dec_acc (dec_acc n s) t"
  by (induction s arbitrary: n) simp_all

lemma dec_value_append: "dec_value (s @ t) = dec_value s * 10 ^ length t + dec_value t"
  using dec_acc_eq [of "dec_acc 0 s" t] by (simp add: dec_value_def dec_acc_append)

lemma dec_value_Cons: "dec_value (c # s) = digit_value c * 10 ^ length s + dec_value s"
  using dec_value_append [of "[c]" s] by (simp add: dec_value_def)

lemma dec_value_bound: "all_digits s \<Longrightarrow> dec_value s < 10 ^ length s"
proof (induction s)
  case Nil
  then show ?case by simp
next
  case (Cons c s)
  then have "digit_value c \<le> 9" and "dec_value s < 10 ^ length s"
    using digit_value_bound [of c] by auto
  then have "digit_value c * 10 ^ length s + dec_value s < 9 * 10 ^ length s + 10 ^ length s"
    by (intro add_le_less_mono) auto
  then show ?case by (simp add: dec_value_Cons)
qed

lemma dec_value_replicate_zero [simp]: "dec_value (replicate n (CHR ''0'') @ s) = dec_value s"
proof -
  have "dec_value (replicate n (CHR ''0'')) = 0"
    by (induction n) (simp_all add: dec_value_Cons digit_value_def)
  then show ?thesis by (simp add: dec_value_append)
qed

lemma all_digits_replicate_zero [simp]: "all_digits (replicate n (CHR ''0''))"
  by (induction n) (simp_all add: is_ascii_digit_def)

lemma dec_value_zero_suffix: "dec_value (s @ replicate n (CHR ''0'')) = dec_value s * 10 ^ n"
  using dec_value_replicate_zero [of n "[]"] by (simp add: dec_value_append)

section \<open>Printing\<close>

fun dec_show :: "nat \<Rightarrow> string" where
  "dec_show n = (if n < 10 then [digit_char n] else dec_show (n div 10) @ [digit_char (n mod 10)])"

declare dec_show.simps [simp del]

definition dec_pad :: "nat \<Rightarrow> nat \<Rightarrow> string" where
  "dec_pad w n = (let s = dec_show n in replicate (w - length s) (CHR ''0'') @ s)"

lemma dec_show_nonempty [simp]: "dec_show n \<noteq> []"
  by (subst dec_show.simps) simp

lemma all_digits_dec_show [simp]: "all_digits (dec_show n)"
proof (induction n rule: dec_show.induct)
  case (1 n)
  then show ?case by (subst dec_show.simps) simp
qed

lemma dec_value_dec_show [simp]: "dec_value (dec_show n) = n"
proof (induction n rule: dec_show.induct)
  case (1 n)
  show ?case
  proof (cases "n < 10")
    case True
    then show ?thesis by (subst dec_show.simps) (simp add: dec_value_Cons)
  next
    case False
    with 1 show ?thesis
      by (subst dec_show.simps) (simp add: dec_value_append dec_value_Cons)
  qed
qed

lemma length_dec_show: "n < 10 ^ k \<Longrightarrow> 0 < k \<Longrightarrow> length (dec_show n) \<le> k"
proof (induction k arbitrary: n)
  case 0
  then show ?case by simp
next
  case (Suc k)
  show ?case
  proof (cases "n < 10")
    case True
    then show ?thesis by (subst dec_show.simps) simp
  next
    case False
    with Suc.prems have "0 < k" by (cases k) auto
    moreover from Suc.prems have "n div 10 < 10 ^ k" by (simp add: less_mult_imp_div_less mult.commute)
    ultimately have "length (dec_show (n div 10)) \<le> k" by (rule Suc.IH [rotated])
    with False show ?thesis by (subst dec_show.simps) simp
  qed
qed

lemma dec_pad_value [simp]: "dec_value (dec_pad w n) = n"
  by (simp add: dec_pad_def Let_def)

lemma dec_pad_digits [simp]: "all_digits (dec_pad w n)"
  by (simp add: dec_pad_def Let_def)

lemma dec_pad_length [simp]: "n < 10 ^ w \<Longrightarrow> 0 < w \<Longrightarrow> length (dec_pad w n) = w"
  using length_dec_show [of n w] by (simp add: dec_pad_def Let_def)

lemma dec_show_inject [simp]: "dec_show m = dec_show n \<longleftrightarrow> m = n"
  by (metis dec_value_dec_show)

section \<open>Parsing\<close>

text \<open>
  \<open>str::parse::<u64>()\<close>: an optional \<open>+\<close>, then at least one digit, and a value that fits
  the width.  Unsigned types reject a leading \<open>-\<close>.
\<close>

definition strip_plus :: "string \<Rightarrow> string" where
  "strip_plus s = (case s of c # cs \<Rightarrow> if c = CHR ''+'' then cs else s | [] \<Rightarrow> s)"

definition parse_uint :: "string \<Rightarrow> 'a::len word option" where
  "parse_uint s =
     (let d = strip_plus s in
      if d = [] \<or> \<not> all_digits d then None
      else if dec_value d < 2 ^ LENGTH('a) then Some (of_nat (dec_value d)) else None)"

lemma strip_plus_digits: "all_digits s \<Longrightarrow> strip_plus s = s"
  by (auto simp: strip_plus_def dest: digit_not_plus split: list.splits)

lemma parse_uint_digits:
  "s \<noteq> [] \<Longrightarrow> all_digits s \<Longrightarrow>
     (parse_uint s :: 'a::len word option) =
       (if dec_value s < 2 ^ LENGTH('a) then Some (of_nat (dec_value s)) else None)"
  by (simp add: parse_uint_def Let_def strip_plus_digits)

lemma parse_uint_show: "parse_uint (dec_show (unat w)) = Some w"
  by (simp add: parse_uint_digits)

section \<open>Splitting and trimming\<close>

definition split_once :: "char \<Rightarrow> string \<Rightarrow> (string \<times> string) option" where
  "split_once c s = (if c \<in> set s
     then Some (takeWhile (\<lambda>x. x \<noteq> c) s, tl (dropWhile (\<lambda>x. x \<noteq> c) s)) else None)"

definition trim_end :: "char \<Rightarrow> string \<Rightarrow> string" where
  "trim_end c s = rev (dropWhile (\<lambda>x. x = c) (rev s))"

lemma split_once_append:
  "c \<notin> set s \<Longrightarrow> split_once c (s @ c # t) = Some (s, t)"
  by (simp add: split_once_def takeWhile_append dropWhile_append)

lemma split_once_None [simp]: "split_once c s = None \<longleftrightarrow> c \<notin> set s"
  by (simp add: split_once_def)

lemma split_once_Some:
  "split_once c s = Some (a, b) \<longleftrightarrow> s = a @ c # b \<and> c \<notin> set a"
proof
  assume h: "split_once c s = Some (a, b)"
  then have mem: "c \<in> set s" and a: "a = takeWhile (\<lambda>x. x \<noteq> c) s"
    and b: "b = tl (dropWhile (\<lambda>x. x \<noteq> c) s)"
    by (auto simp: split_once_def split: if_splits)
  from mem have ne: "dropWhile (\<lambda>x. x \<noteq> c) s \<noteq> []" by (auto simp: dropWhile_eq_Nil_conv)
  then have "hd (dropWhile (\<lambda>x. x \<noteq> c) s) = c" using hd_dropWhile by blast
  with ne b have "dropWhile (\<lambda>x. x \<noteq> c) s = c # b" by (metis list.collapse)
  with a have "s = a @ c # b" by (metis takeWhile_dropWhile_id)
  moreover from a have "c \<notin> set a" by (auto dest: set_takeWhileD)
  ultimately show "s = a @ c # b \<and> c \<notin> set a" ..
next
  assume "s = a @ c # b \<and> c \<notin> set a"
  then show "split_once c s = Some (a, b)" by (simp add: split_once_append)
qed

lemma trim_end_decomp: "\<exists>n. s = trim_end c s @ replicate n c"
proof -
  have "rev s = takeWhile (\<lambda>x. x = c) (rev s) @ dropWhile (\<lambda>x. x = c) (rev s)" by simp
  moreover have "takeWhile (\<lambda>x. x = c) (rev s) =
      replicate (length (takeWhile (\<lambda>x. x = c) (rev s))) c"
    by (rule replicate_length_same [symmetric]) (auto dest: set_takeWhileD)
  ultimately have "rev s = replicate (length (takeWhile (\<lambda>x. x = c) (rev s))) c
      @ dropWhile (\<lambda>x. x = c) (rev s)" by simp
  then have "rev (rev s) = rev (dropWhile (\<lambda>x. x = c) (rev s))
      @ rev (replicate (length (takeWhile (\<lambda>x. x = c) (rev s))) c)"
    by (metis rev_append)
  then have "s = trim_end c s @ replicate (length (takeWhile (\<lambda>x. x = c) (rev s))) c"
    by (simp add: trim_end_def)
  then show ?thesis by blast
qed

lemma trim_end_last: "trim_end c s \<noteq> [] \<Longrightarrow> last (trim_end c s) \<noteq> c"
  using hd_dropWhile [of "\<lambda>x. x = c" "rev s"] by (simp add: trim_end_def last_rev)

lemmas text_value_simps [decimal_simps] =
  dec_value_append dec_value_Cons dec_value_dec_show dec_pad_value dec_value_replicate_zero

end
