(* ===== verification/Domain_Values.thy ===== *)
theory Domain_Values
  imports Decimal_Text
begin

text \<open>
  The value types of \<open>paykit-server/src/domain\<close>: criterion denominations, amounts and
  payment windows with the invoice identity (\<open>invoice.rs\<close>), canonical Locks identifiers
  (\<open>locks.rs\<close>) and receiving details (\<open>receiving.rs\<close>).  The identifier grammar belongs
  to the \<open>locks-core\<close> package and enters as the arguments \<open>from_str\<close>, \<open>to_str\<close> and
  \<open>raw_creator\<close>.  A JSON object is its key-sorted association list, the iteration order
  of the map type behind \<open>serde_json::Value\<close>; the JSON reader is an argument wherever
  the program reads JSON text.
\<close>

section \<open>JSON values\<close>

datatype json =
    JNull
  | JBool bool
  | JPosInt u64
  | JNegInt int
  | JFloat string
  | JString string
  | JArray "json list"
  | JObject "(string \<times> json) list"

definition json_get :: "json \<Rightarrow> string \<Rightarrow> json option" where
  "json_get v k = (case v of JObject kvs \<Rightarrow> map_of kvs k | _ \<Rightarrow> None)"

definition json_as_str :: "json \<Rightarrow> string option" where
  "json_as_str v = (case v of JString s \<Rightarrow> Some s | _ \<Rightarrow> None)"

definition json_as_u64 :: "json \<Rightarrow> u64 option" where
  "json_as_u64 v = (case v of JPosInt n \<Rightarrow> Some n | _ \<Rightarrow> None)"

section \<open>Criterion assets\<close>

datatype criterion_asset = Btc | Usd | Usdt

datatype criterion_asset_error = UnsupportedAsset

definition criterion_asset_parse :: "string \<Rightarrow> (criterion_asset_error, criterion_asset) res" where
  "criterion_asset_parse value =
     (if value = ''BTC'' then Inr Btc
      else if value = ''USD'' then Inr Usd
      else if value = ''USDT'' then Inr Usdt
      else Inl UnsupportedAsset)"

primrec criterion_asset_str :: "criterion_asset \<Rightarrow> string" where
  "criterion_asset_str Btc = ''BTC''"
| "criterion_asset_str Usd = ''USD''"
| "criterion_asset_str Usdt = ''USDT''"

primrec decimals :: "criterion_asset \<Rightarrow> nat" where
  "decimals Btc = 8"
| "decimals Usd = 2"
| "decimals Usdt = 6"

fun decimal_amount :: "criterion_asset \<Rightarrow> u64 \<Rightarrow> string" where
  "decimal_amount Usd units =
     dec_show (unat (units div 100)) @ ''.'' @ dec_pad 2 (unat (units mod 100))"
| "decimal_amount Btc units =
     dec_show (unat (units div 100000000)) @ ''.'' @ dec_pad 8 (unat (units mod 100000000))"
| "decimal_amount Usdt units =
     dec_show (unat (units div 1000000)) @ ''.'' @ dec_pad 6 (unat (units mod 1000000))"

lemma criterion_asset_parse_str [simp]: "criterion_asset_parse (criterion_asset_str a) = Inr a"
  by (cases a) (simp_all add: criterion_asset_parse_def)

lemma criterion_asset_str_parse:
  "criterion_asset_parse s = Inr a \<longleftrightarrow> s = criterion_asset_str a"
  by (cases a) (auto simp: criterion_asset_parse_def split: if_splits)

lemma asset_char_lowercase [simp]:
  "to_ascii_lowercase (CHR ''B'') = CHR ''b''" "to_ascii_lowercase (CHR ''T'') = CHR ''t''"
  "to_ascii_lowercase (CHR ''C'') = CHR ''c''" "to_ascii_lowercase (CHR ''U'') = CHR ''u''"
  "to_ascii_lowercase (CHR ''S'') = CHR ''s''" "to_ascii_lowercase (CHR ''D'') = CHR ''d''"
  by code_simp+

lemma asset_char_uppercase [simp]:
  "to_ascii_uppercase (CHR ''b'') = CHR ''B''" "to_ascii_uppercase (CHR ''t'') = CHR ''T''"
  "to_ascii_uppercase (CHR ''c'') = CHR ''C''" "to_ascii_uppercase (CHR ''u'') = CHR ''U''"
  "to_ascii_uppercase (CHR ''s'') = CHR ''S''" "to_ascii_uppercase (CHR ''d'') = CHR ''D''"
  by code_simp+

lemma asset_lower_upper [simp]:
  "uppercase (lowercase (criterion_asset_str a)) = criterion_asset_str a"
  by (cases a) simp_all

lemma lower_asset_inject [simp]:
  "lowercase (criterion_asset_str a) = lowercase (criterion_asset_str b) \<longleftrightarrow> a = b"
  by (metis asset_lower_upper criterion_asset_parse_str sum.inject(2))

text \<open>The three renderings of \<open>decimal_amount\<close> are one: base units over a power of ten.\<close>

lemma decimal_amount_eq:
  "decimal_amount a units =
     dec_show (unat units div 10 ^ decimals a) @ ''.'' @
     dec_pad (decimals a) (unat units mod 10 ^ decimals a)"
  by (cases a) (simp_all add: unat_div unat_mod)

section \<open>Criterion amounts\<close>

datatype criterion_amount = CriterionAmount (amount_units: u64)

datatype criterion_amount_error = NotUnsignedDecimalInteger | Zero | OutOfRange

definition criterion_amount_parse ::
  "string \<Rightarrow> (criterion_amount_error, criterion_amount) res" where
  "criterion_amount_parse value =
     (if value = [] \<or> \<not> list_all is_ascii_digit value then Inl NotUnsignedDecimalInteger
      else case parse_uint value of
             None \<Rightarrow> Inl OutOfRange
           | Some u \<Rightarrow> if u = 0 then Inl Zero else Inr (CriterionAmount u))"

definition criterion_amount_display :: "criterion_amount \<Rightarrow> string" where
  "criterion_amount_display a = dec_show (unat (amount_units a))"

lemma criterion_amount_parse_Inr:
  "criterion_amount_parse s = Inr a \<longleftrightarrow>
     s \<noteq> [] \<and> all_digits s \<and> dec_value s < 2 ^ 64 \<and> 0 < dec_value s \<and>
     unat (amount_units a) = dec_value s"
proof (cases "s = [] \<or> \<not> all_digits s")
  case True
  then show ?thesis by (auto simp: criterion_amount_parse_def all_digits_def)
next
  case False
  then have p: "(parse_uint s :: u64 option) =
      (if dec_value s < 2 ^ 64 then Some (of_nat (dec_value s)) else None)"
    by (simp add: parse_uint_digits)
  show ?thesis
  proof (cases "dec_value s < 2 ^ 64")
    case small: True
    then have u: "unat (of_nat (dec_value s) :: u64) = dec_value s"
      by (simp add: unat_of_nat)
    have z: "(of_nat (dec_value s) :: u64) = 0 \<longleftrightarrow> dec_value s = 0"
      using u by (metis unat_eq_zero)
    show ?thesis
    proof (cases a)
      case (CriterionAmount w)
      have "(of_nat (dec_value s) :: u64) = w \<longleftrightarrow> unat w = dec_value s"
        using u by (metis unsigned_word_eqI)
      with False p small z CriterionAmount show ?thesis
        by (auto simp: criterion_amount_parse_def all_digits_def)
    qed
  next
    case big: False
    with False p show ?thesis by (auto simp: criterion_amount_parse_def)
  qed
qed

lemma criterion_amount_parse_display:
  "amount_units a \<noteq> 0 \<Longrightarrow> criterion_amount_parse (criterion_amount_display a) = Inr a"
  by (simp add: criterion_amount_parse_Inr criterion_amount_display_def unat_gt_0
      unsigned_less [where ?'a = nat and ?'b = 64, simplified])

section \<open>Payment windows\<close>

definition default_payment_window_hours :: u64 where
  "default_payment_window_hours = 24"

datatype criterion_payment_window_hours = CriterionPaymentWindowHours (window_get: u64)

datatype criterion_payment_window_hours_error = MissingWindow | InvalidWindow

definition window_hours_new ::
  "u64 \<Rightarrow> (criterion_payment_window_hours_error, criterion_payment_window_hours) res" where
  "window_hours_new hours =
     (if hours = 0 then Inl InvalidWindow else Inr (CriterionPaymentWindowHours hours))"

definition window_hours_parse ::
  "json \<Rightarrow> (criterion_payment_window_hours_error, criterion_payment_window_hours) res" where
  "window_hours_parse value = bindr (ok_or (json_as_u64 value) InvalidWindow) window_hours_new"

definition window_hours_parse_optional ::
  "json option \<Rightarrow> (criterion_payment_window_hours_error, criterion_payment_window_hours) res" where
  "window_hours_parse_optional value = bindr (ok_or value MissingWindow) window_hours_parse"

lemma window_hours_parse_optional_Inr:
  "window_hours_parse_optional v = Inr w \<longleftrightarrow> v = Some (JPosInt (window_get w)) \<and> window_get w \<noteq> 0"
proof (cases v)
  case None
  then show ?thesis by (simp add: window_hours_parse_optional_def)
next
  case (Some j)
  then show ?thesis
    by (cases j; cases w)
      (auto simp: window_hours_parse_optional_def window_hours_parse_def window_hours_new_def
        json_as_u64_def)
qed

section \<open>Canonical Locks identifiers\<close>

datatype locks_identifier_parse_error = Invalid string | NonCanonical string

definition parse_canonical ::
  "(string \<Rightarrow> 'r option) \<Rightarrow> ('r \<Rightarrow> string) \<Rightarrow> string \<Rightarrow> string
     \<Rightarrow> (locks_identifier_parse_error, 'r) res" where
  "parse_canonical from_str to_str kind value =
     bindr (ok_or (from_str value) (Invalid kind)) (\<lambda>parsed.
       if to_str parsed \<noteq> value then Inl (NonCanonical kind) else Inr parsed)"

datatype 'r creator_pubky = CreatorPubky (creator_raw: 'r)
datatype 'r reader_pubky = ReaderPubky (reader_raw: 'r)
datatype 'b bundle_id = BundleId (bundle_raw: 'b)

record ('l, 'r) pubky_lock_resource =
  lock_raw :: 'l
  lock_creator :: "'r creator_pubky"

definition parse_creator ::
  "(string \<Rightarrow> 'r option) \<Rightarrow> ('r \<Rightarrow> string) \<Rightarrow> string
     \<Rightarrow> (locks_identifier_parse_error, 'r creator_pubky) res" where
  "parse_creator from_str to_str value =
     bindr (parse_canonical from_str to_str ''creator'' value) (\<lambda>r. Inr (CreatorPubky r))"

definition parse_reader ::
  "(string \<Rightarrow> 'r option) \<Rightarrow> ('r \<Rightarrow> string) \<Rightarrow> string
     \<Rightarrow> (locks_identifier_parse_error, 'r reader_pubky) res" where
  "parse_reader from_str to_str value =
     bindr (parse_canonical from_str to_str ''reader'' value) (\<lambda>r. Inr (ReaderPubky r))"

definition parse_bundle_id ::
  "(string \<Rightarrow> 'b option) \<Rightarrow> ('b \<Rightarrow> string) \<Rightarrow> string
     \<Rightarrow> (locks_identifier_parse_error, 'b bundle_id) res" where
  "parse_bundle_id from_str to_str value =
     bindr (parse_canonical from_str to_str ''bundle'' value) (\<lambda>r. Inr (BundleId r))"

definition parse_addressed_lock_resource ::
  "(string \<Rightarrow> 'l option) \<Rightarrow> ('l \<Rightarrow> string) \<Rightarrow> ('l \<Rightarrow> 'r) \<Rightarrow> string
     \<Rightarrow> (locks_identifier_parse_error, ('l, 'r) pubky_lock_resource) res" where
  "parse_addressed_lock_resource from_str to_str raw_creator value =
     bindr (parse_canonical from_str to_str ''addressed lock resource'' value) (\<lambda>raw.
       Inr \<lparr>lock_raw = raw, lock_creator = CreatorPubky (raw_creator raw)\<rparr>)"

lemma parse_canonical_Inr:
  "parse_canonical from_str to_str kind s = Inr r \<longleftrightarrow> from_str s = Some r \<and> to_str r = s"
  by (auto simp: parse_canonical_def split: if_splits)

lemma parse_canonical_inject:
  "parse_canonical from_str to_str k s = Inr r \<Longrightarrow> parse_canonical from_str to_str k' t = Inr r
     \<Longrightarrow> s = t"
  by (auto simp: parse_canonical_Inr)

lemma parse_addressed_lock_resource_Inr:
  "parse_addressed_lock_resource from_str to_str raw_creator s = Inr l \<Longrightarrow>
     to_str (lock_raw l) = s \<and> lock_creator l = CreatorPubky (raw_creator (lock_raw l))"
  by (auto simp: parse_addressed_lock_resource_def parse_canonical_Inr)

text \<open>An invoice identity takes its creator from the addressed lock resource.\<close>

record ('r, 'b) invoice_identity =
  identity_creator :: "'r creator_pubky"
  identity_bundle :: "'b bundle_id"

definition invoice_identity_new ::
  "('l, 'r) pubky_lock_resource \<Rightarrow> 'b bundle_id \<Rightarrow> ('r, 'b) invoice_identity" where
  "invoice_identity_new lock bundle =
     \<lparr>identity_creator = lock_creator lock, identity_bundle = bundle\<rparr>"

section \<open>Receiving details\<close>

definition usdt_chain_id :: string where "usdt_chain_id = ''42161''"
definition usdt_token :: string where
  "usdt_token = ''0xfd086bc7cd5c481dcc9c85ebe478a1c0b69fcbb9''"
definition usdt_endpoint_id :: string where "usdt_endpoint_id = ''usdt-arbitrum-address''"

record bitcoin_account =
  xpub :: string
  account_index :: u32

datatype usdt_address = UsdtAddress (usdt_str: string)

datatype invalid_usdt_address = InvalidUsdtAddress

definition usdt_try_from :: "string \<Rightarrow> (invalid_usdt_address, usdt_address) res" where
  "usdt_try_from value =
     (if length value \<noteq> 42
         \<or> take 2 value \<noteq> ''0x''
         \<or> \<not> list_all is_ascii_hexdigit (drop 2 value)
         \<or> list_all (\<lambda>byte. byte = CHR ''0'') (drop 2 value)
      then Inl InvalidUsdtAddress
      else Inr (UsdtAddress (lowercase value)))"

definition usdt_endpoint :: "usdt_address \<Rightarrow> json" where
  "usdt_endpoint a = JObject
     [(''chain_id'', JString usdt_chain_id), (''token'', JString usdt_token),
      (''value'', JString (usdt_str a))]"

lemma lowercase_0x [simp]: "to_ascii_lowercase (CHR ''0'') = CHR ''0''"
  "to_ascii_lowercase (CHR ''x'') = CHR ''x''"
  by (simp_all add: to_ascii_lowercase_def)

lemma to_ascii_lowercase_zero: "is_ascii_hexdigit c \<Longrightarrow> to_ascii_lowercase c = CHR ''0'' \<Longrightarrow> c = CHR ''0''"
  by (auto simp: to_ascii_lowercase_def is_ascii_hexdigit_def is_ascii_digit_def is_lower_hex_def
      split: if_splits dest: arg_cong [where f = code_of])

lemma lower_hexdigit [simp]: "is_ascii_hexdigit c \<Longrightarrow> is_ascii_hexdigit (to_ascii_lowercase c)"
  using lowercase_hexdigit [of c] by (auto simp: is_ascii_hexdigit_def)

lemma usdt_try_from_Inr:
  "usdt_try_from s = Inr a \<Longrightarrow>
     length (usdt_str a) = 42 \<and> take 2 (usdt_str a) = ''0x'' \<and>
     list_all (\<lambda>c. is_ascii_digit c \<or> is_lower_hex c) (drop 2 (usdt_str a)) \<and>
     (\<exists>c \<in> set (drop 2 (usdt_str a)). c \<noteq> CHR ''0'')"
proof -
  assume "usdt_try_from s = Inr a"
  then have len: "length s = 42" and pre: "take 2 s = ''0x''"
    and hex: "list_all is_ascii_hexdigit (drop 2 s)"
    and nz: "\<not> list_all (\<lambda>byte. byte = CHR ''0'') (drop 2 s)"
    and a: "a = UsdtAddress (lowercase s)"
    by (auto simp: usdt_try_from_def split: if_splits)
  have "take 2 (lowercase s) = ''0x''" using pre by (simp add: take_map)
  moreover have "list_all (\<lambda>c. is_ascii_digit c \<or> is_lower_hex c) (drop 2 (lowercase s))"
    using hex lowercase_hexdigit by (auto simp: drop_map list_all_iff)
  moreover from nz obtain c where "c \<in> set (drop 2 s)" "c \<noteq> CHR ''0''" by (auto simp: list_all_iff)
  then have "\<exists>c \<in> set (drop 2 (lowercase s)). c \<noteq> CHR ''0''"
    using hex to_ascii_lowercase_zero by (auto simp: drop_map list_all_iff)
  ultimately show ?thesis using len a by simp
qed

lemma usdt_try_from_canonical:
  assumes "usdt_try_from s = Inr a"
  shows "usdt_try_from (usdt_str a) = Inr a"
proof -
  have low: "lowercase (usdt_str a) = usdt_str a"
    using assms by (auto simp: usdt_try_from_def split: if_splits)
  have hex: "list_all is_ascii_hexdigit (drop 2 (usdt_str a))"
    using usdt_try_from_Inr [OF assms] by (auto simp: list_all_iff is_ascii_hexdigit_def)
  have nz: "\<not> list_all (\<lambda>byte. byte = CHR ''0'') (drop 2 (usdt_str a))"
    using usdt_try_from_Inr [OF assms] by (auto simp: list_all_iff)
  show ?thesis
    using usdt_try_from_Inr [OF assms] low hex nz by (cases a) (simp add: usdt_try_from_def)
qed

end
