(* ===== verification/Invoice_Pricing.thy ===== *)
theory Invoice_Pricing
  imports Domain_Values
begin

text \<open>
  \<open>paykit-server/src/application/invoice_pricing.rs\<close>: the exchange-rate feed check, the
  fixed conversion rates of a request and the exact payable amount in the base units of
  the payment asset.  \<open>U256\<close> is the 256-bit unsigned integer type: its \<open>+\<close>, \<open>*\<close> and
  \<open>pow\<close> wrap and its checked operations do not, as \<open>256 word\<close> and the prelude's
  checked operations have it.  A point of time is its count of nanoseconds since the
  Unix epoch.  The HTTP request behind \<open>BlocktankRates\<close> is not modelled: the decoded
  feed is the argument of \<open>feed_usd_per_btc\<close>.
\<close>

section \<open>Errors of the invoice service\<close>

datatype create_invoice_error =
    InvalidRequest
  | CreatorSessionInvalid
  | CreatorSessionUnavailable
  | LockNotFound
  | LockUnavailable
  | Conflict
  | ReaderSetupPending
  | ReaderNotPayable
  | ReaderRegistryUnavailable
  | ReaderRegistryMalformed
  | DeadlineExceeded
  | Unavailable

section \<open>Decimal amounts as scaled integers\<close>

definition rate_scale :: u256 where "rate_scale = 1000000000000000000"
definition max_rate_age_seconds :: int where "max_rate_age_seconds = 600"

text \<open>\<open>U256::from_str_radix(text, 10)\<close> on a non-empty digit text: the value, unless it overflows.\<close>

definition u256_from_decimal :: "string \<Rightarrow> u256 option" where
  "u256_from_decimal s =
     (if dec_value s < 2 ^ 256 then Some (of_nat (dec_value s)) else None)"

definition split_decimal :: "string \<Rightarrow> string \<times> string" where
  "split_decimal value = (case split_once (CHR ''.'') value of
     None \<Rightarrow> (value, []) | Some parts \<Rightarrow> parts)"

definition decimal_units :: "string \<Rightarrow> nat \<Rightarrow> (create_invoice_error, u256) res" where
  "decimal_units value decs =
     (let (whole, fraction) = split_decimal value in
      if length value > 80
         \<or> whole = []
         \<or> \<not> all_digits whole
         \<or> \<not> all_digits fraction
         \<or> length fraction > decs
      then Inl InvalidRequest
      else
        bindr (ok_or (u256_from_decimal whole) InvalidRequest) (\<lambda>whole_units.
        bindr (if fraction = [] then Inr 0
               else bindr (ok_or (u256_from_decimal fraction) InvalidRequest) (\<lambda>f.
                      Inr (f * 10 ^ (decs - length fraction)))) (\<lambda>fraction_units.
        bindr (ok_or (Option.bind (checked_mul whole_units (10 ^ decs))
                 (\<lambda>v. checked_add v fraction_units)) InvalidRequest) (\<lambda>units.
        if units = 0 then Inl InvalidRequest else Inr units))))"

definition format_rate :: "u256 \<Rightarrow> string" where
  "format_rate value =
     (let fraction = trim_end (CHR ''0'') (dec_pad 18 (unat (value mod rate_scale))) in
      if fraction = [] then dec_show (unat (value div rate_scale))
      else dec_show (unat (value div rate_scale)) @ ''.'' @ fraction)"

section \<open>The exchange-rate feed\<close>

record ticker =
  base :: string
  quote :: string
  last_price :: string
  last_updated_at :: int

definition quot_trunc :: "int \<Rightarrow> int \<Rightarrow> int" where
  "quot_trunc a b = sgn a * sgn b * (\<bar>a\<bar> div \<bar>b\<bar>)"

definition feed_usd_per_btc :: "ticker list \<Rightarrow> int \<Rightarrow> (create_invoice_error, string) res" where
  "feed_usd_per_btc tickers now_nanos =
     (case filter (\<lambda>t. base t = ''BTC'' \<and> quote t = ''USD'') tickers of
        [] \<Rightarrow> Inl Unavailable
      | rate # rest \<Rightarrow>
          let age = quot_trunc now_nanos 1000000 - last_updated_at rate in
          if rest \<noteq> []
             \<or> age < 0
             \<or> age > max_rate_age_seconds * 1000
             \<or> length (filter (\<lambda>b. b \<noteq> CHR ''.'') (last_price rate)) > 18
             \<or> is_err (decimal_units (last_price rate) 18)
          then Inl Unavailable
          else Inr (last_price rate))"

section \<open>Conversion rates\<close>

record conversion_rate =
  rate_asset :: string
  rate_value :: string

definition half_even_reciprocal :: "u256 \<Rightarrow> u256" where
  "half_even_reciprocal price =
     (let numerator = rate_scale * rate_scale;
          quotient = numerator div price;
          remainder = numerator mod price
      in quotient + (if remainder * 2 > price \<or> (remainder * 2 = price \<and> quotient mod 2 \<noteq> 0)
                     then 1 else 0))"

definition conversion_value ::
  "criterion_asset \<Rightarrow> criterion_asset \<Rightarrow> string option \<Rightarrow> (create_invoice_error, string) res" where
  "conversion_value requested asset usd_per_btc =
     (if (requested = Btc) \<noteq> (asset = Btc) then
        bindr (bindr (ok_or usd_per_btc Unavailable) (\<lambda>p. decimal_units p 18)) (\<lambda>price.
        let multiplier = (if requested = Btc then price else half_even_reciprocal price) in
        if multiplier = 0 then Inl Unavailable else Inr (format_rate multiplier))
      else Inr ''1'')"

definition conversion_rates ::
  "criterion_asset \<Rightarrow> bool \<Rightarrow> bool \<Rightarrow> string option
     \<Rightarrow> (create_invoice_error, conversion_rate list) res" where
  "conversion_rates requested bitcoin usdt usd_per_btc =
     foldr_res (\<lambda>rates (asset, enabled).
       if \<not> enabled \<or> asset = requested then Inr rates
       else bindr (conversion_value requested asset usd_per_btc) (\<lambda>value.
         Inr (rates @ [\<lparr>rate_asset = lowercase (criterion_asset_str asset),
                        rate_value = value\<rparr>])))
       [] [(Btc, bitcoin), (Usdt, usdt)]"

section \<open>Payable units\<close>

definition u64_try_from :: "u256 \<Rightarrow> u64 option" where
  "u64_try_from v = (if unat v < 2 ^ 64 then Some (of_nat (unat v)) else None)"

definition rate_multiplier ::
  "criterion_asset \<Rightarrow> criterion_asset \<Rightarrow> conversion_rate list \<Rightarrow> (create_invoice_error, u256) res" where
  "rate_multiplier requested payment rates =
     (if requested = payment then Inr rate_scale
      else bindr (ok_or (find (\<lambda>rate. rate_asset rate = lowercase (criterion_asset_str payment)) rates)
                    InvalidRequest) (\<lambda>rate. decimal_units (rate_value rate) 18))"

definition payment_units ::
  "string \<Rightarrow> criterion_asset \<Rightarrow> criterion_asset \<Rightarrow> conversion_rate list
     \<Rightarrow> (create_invoice_error, u64) res" where
  "payment_units amount requested payment rates =
     bindr (decimal_units amount (decimals requested)) (\<lambda>units.
     bindr (rate_multiplier requested payment rates) (\<lambda>multiplier.
     bindr (ok_or (Option.bind (checked_mul units multiplier)
              (\<lambda>v. checked_mul v (10 ^ decimals payment))) InvalidRequest) (\<lambda>numerator.
     let denominator = rate_scale * 10 ^ decimals requested;
         result = numerator div denominator + (if numerator mod denominator \<noteq> 0 then 1 else 0)
     in ok_or (u64_try_from result) InvalidRequest)))"

section \<open>Decimal amounts: the reference value\<close>

definition decimal_value :: "string \<Rightarrow> nat \<Rightarrow> nat" where
  "decimal_value value decs =
     (let (whole, fraction) = split_decimal value in
      dec_value whole * 10 ^ decs + dec_value fraction * 10 ^ (decs - length fraction))"

definition decimal_ok :: "string \<Rightarrow> nat \<Rightarrow> bool" where
  "decimal_ok value decs =
     (let (whole, fraction) = split_decimal value in
      length value \<le> 80 \<and> whole \<noteq> [] \<and> all_digits whole \<and> all_digits fraction \<and>
      length fraction \<le> decs)"

lemma u256_of_nat_unat [simp]: "n < 2 ^ 256 \<Longrightarrow> unat (of_nat n :: u256) = n"
  by (simp add: unat_of_nat)

lemma ten_pow_less: "n \<le> 77 \<Longrightarrow> (10::nat) ^ n < 2 ^ 256"
proof -
  assume "n \<le> 77"
  then have "(10::nat) ^ n \<le> 10 ^ 77" by (rule power_increasing) simp
  also have "\<dots> < 2 ^ 256" by simp
  finally show ?thesis .
qed

lemma unat_ten_pow: "n \<le> 77 \<Longrightarrow> unat ((10 :: u256) ^ n) = 10 ^ n"
  using u256_of_nat_unat [OF ten_pow_less, of n] by simp

lemma fraction_value_less:
  "all_digits f \<Longrightarrow> length f \<le> d \<Longrightarrow> dec_value f * 10 ^ (d - length f) < 10 ^ d"
proof -
  assume f: "all_digits f" and len: "length f \<le> d"
  have "dec_value f * 10 ^ (d - length f) < 10 ^ length f * 10 ^ (d - length f)"
    using dec_value_bound [OF f] by simp
  also have "\<dots> = 10 ^ d" using len by (simp flip: power_add)
  finally show ?thesis .
qed

lemma fraction_units:
  assumes "all_digits f" and "length f \<le> d" and "d \<le> 77"
  shows "(if f = [] then Inr 0
          else bindr (ok_or (u256_from_decimal f) InvalidRequest) (\<lambda>v.
                 Inr (v * 10 ^ (d - length f)))) =
         (Inr (of_nat (dec_value f * 10 ^ (d - length f))) :: (create_invoice_error, u256) res)"
proof -
  have "dec_value f < 10 ^ length f" using assms(1) by (rule dec_value_bound)
  also have "\<dots> < 2 ^ 256" using assms(2,3) by (intro ten_pow_less) simp
  finally show ?thesis by (simp add: u256_from_decimal_def)
qed

lemma decimal_units_eq:
  assumes d: "d \<le> 77"
  shows "decimal_units value d =
    (if decimal_ok value d \<and> 0 < decimal_value value d \<and> decimal_value value d < 2 ^ 256
     then Inr (of_nat (decimal_value value d)) else Inl InvalidRequest)"
proof (cases "decimal_ok value d")
  case False
  then show ?thesis
    by (auto simp: decimal_ok_def decimal_units_def Let_def not_le split: prod.splits)
next
  case True
  obtain w f where wf: "split_decimal value = (w, f)" by force
  let ?f = "dec_value f * 10 ^ (d - length f)"
  from True wf have ok: "length value \<le> 80" "w \<noteq> []" "all_digits w" "all_digits f" "length f \<le> d"
    by (simp_all add: decimal_ok_def)
  have f: "?f < 2 ^ 256" using fraction_value_less [OF ok(4,5)] ten_pow_less [OF d] by linarith
  have val: "decimal_value value d = dec_value w * 10 ^ d + ?f" by (simp add: decimal_value_def wf)
  have units: "decimal_units value d =
      bindr (ok_or (u256_from_decimal w) InvalidRequest) (\<lambda>wu.
      bindr (ok_or (Option.bind (checked_mul wu (10 ^ d)) (\<lambda>v. checked_add v (of_nat ?f)))
               InvalidRequest) (\<lambda>u. if u = 0 then Inl InvalidRequest else Inr u))"
    using ok fraction_units [OF ok(4,5) d] wf by (simp add: decimal_units_def Let_def)
  have big: "dec_value w * 10 ^ d \<le> decimal_value value d" by (simp add: val)
  show ?thesis
  proof (cases "dec_value w * 10 ^ d < 2 ^ 256")
    case False
    with units big d True show ?thesis
      by (auto simp: u256_from_decimal_def checked_mul_def unat_ten_pow split: if_splits)
  next
    case wd: True
    have "dec_value w \<le> dec_value w * 10 ^ d" by simp
    with wd have w: "dec_value w < 2 ^ 256" by linarith
    have mul: "checked_mul (of_nat (dec_value w) :: u256) (10 ^ d) = Some (of_nat (dec_value w * 10 ^ d))"
      using w wd d by (simp add: checked_mul_def unat_ten_pow)
    have "checked_add (of_nat (dec_value w * 10 ^ d) :: u256) (of_nat ?f) =
        (if decimal_value value d < 2 ^ 256 then Some (of_nat (decimal_value value d)) else None)"
      using wd f by (simp add: checked_add_def val del: of_nat_mult)
    moreover have "decimal_value value d < 2 ^ 256 \<Longrightarrow>
        (of_nat (decimal_value value d) :: u256) = 0 \<longleftrightarrow> decimal_value value d = 0"
      by (metis u256_of_nat_unat unat_eq_zero)
    ultimately show ?thesis using units mul w True
      by (auto simp: u256_from_decimal_def simp del: of_nat_mult)
  qed
qed

section \<open>Payable units: ceiling division\<close>

definition ceil_div :: "nat \<Rightarrow> nat \<Rightarrow> nat" where
  "ceil_div n d = n div d + (if n mod d \<noteq> 0 then 1 else 0)"

lemma ceil_div_least:
  assumes "0 < d"
  shows "ceil_div n d \<le> k \<longleftrightarrow> n \<le> k * d"
proof
  assume h: "ceil_div n d \<le> k"
  show "n \<le> k * d"
  proof (cases "n mod d = 0")
    case True
    then have "n = n div d * d" by (metis add_0_right div_mult_mod_eq)
    also have "\<dots> \<le> k * d" using h True by (simp add: ceil_div_def)
    finally show ?thesis .
  next
    case False
    have "n = n div d * d + n mod d" by simp
    also have "\<dots> \<le> n div d * d + d"
      using assms by (intro add_left_mono less_imp_le mod_less_divisor)
    also have "\<dots> = (n div d + 1) * d" by simp
    also have "\<dots> \<le> k * d" using h False by (intro mult_le_mono1) (simp add: ceil_div_def)
    finally show ?thesis .
  qed
next
  assume h: "n \<le> k * d"
  show "ceil_div n d \<le> k"
  proof (cases "n mod d = 0")
    case True
    then show ?thesis using h assms by (simp add: ceil_div_def div_le_mono2 less_mult_imp_div_less)
        (metis div_le_mono div_mult_self_is_m h mult.commute)
  next
    case False
    have "n div d * d < n" using False by (metis div_mult_mod_eq less_add_same_cancel1 gr0I)
    with h have "n div d * d < k * d" by linarith
    then have "n div d < k" by simp
    then show ?thesis by (simp add: ceil_div_def)
  qed
qed

lemma ceil_div_exact [simp]: "0 < d \<Longrightarrow> ceil_div (k * d) d = k"
  by (simp add: ceil_div_def)

lemma ceil_div_mono: "m \<le> n \<Longrightarrow> 0 < d \<Longrightarrow> ceil_div m d \<le> ceil_div n d"
  by (metis ceil_div_least le_refl le_trans)

lemma unat_rate_scale [simp]: "unat rate_scale = 10 ^ 18"
  by (simp add: rate_scale_def)

lemma decimals_le: "decimals a \<le> 8"
  by (cases a) simp_all

lemma denominator_unat:
  "unat (rate_scale * 10 ^ decimals a :: u256) = 10 ^ 18 * 10 ^ decimals a"
proof -
  have "rate_scale * 10 ^ decimals a = (10 :: u256) ^ (18 + decimals a)"
    by (simp add: power_add rate_scale_def)
  then show ?thesis
    using unat_ten_pow [of "18 + decimals a"] decimals_le [of a] by (simp add: power_add)
qed

definition payable :: "u256 \<Rightarrow> u256 \<Rightarrow> criterion_asset \<Rightarrow> criterion_asset \<Rightarrow> nat" where
  "payable units multiplier requested payment =
     ceil_div (unat units * unat multiplier * 10 ^ decimals payment) (10 ^ 18 * 10 ^ decimals requested)"

lemma checked_numerator:
  "Option.bind (checked_mul u m) (\<lambda>v. checked_mul v (10 ^ decimals p :: u256)) =
     (if unat u * unat m * 10 ^ decimals p < 2 ^ 256
      then Some (of_nat (unat u * unat m * 10 ^ decimals p)) else None)"
proof (cases "unat u * unat m < 2 ^ 256")
  case True
  then show ?thesis
    using decimals_le [of p] by (simp add: checked_mul_def unat_ten_pow unat_word_ariths)
next
  case False
  moreover have "unat u * unat m \<le> unat u * unat m * 10 ^ decimals p" by simp
  ultimately have "\<not> unat u * unat m * 10 ^ decimals p < 2 ^ 256" by linarith
  with False show ?thesis by (simp add: checked_mul_def)
qed

lemma unat_plus_one_small: "unat x + 1 < 2 ^ 256 \<Longrightarrow> unat (x + 1) = unat x + 1" for x :: u256
  by (simp add: unat_word_ariths)

lemma payment_units_eq:
  "payment_units amount requested payment rates =
     bindr (decimal_units amount (decimals requested)) (\<lambda>u.
     bindr (rate_multiplier requested payment rates) (\<lambda>m.
     if unat u * unat m * 10 ^ decimals payment < 2 ^ 256
        \<and> payable u m requested payment < 2 ^ 64
     then Inr (of_nat (payable u m requested payment)) else Inl InvalidRequest))"
proof -
  have step: "(let d = rate_scale * 10 ^ decimals requested;
         r = n div d + (if n mod d \<noteq> 0 then 1 else 0)
     in ok_or (u64_try_from r) InvalidRequest) =
     (if ceil_div (unat n) (10 ^ 18 * 10 ^ decimals requested) < 2 ^ 64
      then Inr (of_nat (ceil_div (unat n) (10 ^ 18 * 10 ^ decimals requested)))
      else Inl InvalidRequest)" (is "?l n = ?r n") for n :: u256
  proof -
    let ?d = "rate_scale * 10 ^ decimals requested :: u256"
    have "unat (n div ?d) \<le> unat n div 10 ^ 18"
      by (simp only: unat_div denominator_unat div_mult2_eq div_le_dividend)
    moreover have "unat n div 10 ^ 18 < 2 ^ 255"
      by (rule less_mult_imp_div_less)
        (rule less_le_trans [OF unsigned_less [of n, where ?'a = nat]], simp)
    ultimately have small: "unat (n div ?d) + 1 < 2 ^ 256" by simp
    have m0: "n mod ?d = 0 \<longleftrightarrow> unat n mod unat ?d = 0"
      by (metis unat_eq_zero unat_mod)
    have "unat (n div ?d + (if n mod ?d \<noteq> 0 then 1 else 0)) = ceil_div (unat n) (unat ?d)"
    proof (cases "n mod ?d = 0")
      case True
      with m0 show ?thesis by (simp add: ceil_div_def unat_div)
    next
      case False
      have "unat (n div ?d + 1) = unat (n div ?d) + 1" by (rule unat_plus_one_small [OF small])
      with False m0 show ?thesis by (simp only: ceil_div_def if_True not_False_eq_True unat_div)
    qed
    then show ?thesis by (simp only: Let_def u64_try_from_def denominator_unat) (simp split: if_splits)
  qed
  show ?thesis
    unfolding payment_units_def step checked_numerator
    by (rule arg_cong [where f = "bindr _"], rule ext, rule arg_cong [where f = "bindr _"], rule ext)
      (simp add: payable_def del: of_nat_mult of_nat_power)
qed

section \<open>Printing and reading back\<close>

lemma no_dot: "all_digits w \<Longrightarrow> CHR ''.'' \<notin> set w"
  by (induction w) (auto dest: digit_not_dot)

lemma split_decimal_simps:
  "all_digits w \<Longrightarrow> split_decimal (w @ CHR ''.'' # f) = (w, f)"
  "all_digits w \<Longrightarrow> split_decimal w = (w, [])"
  by (simp_all add: split_decimal_def no_dot split_once_append split_once_None [THEN iffD2])

lemma decimal_units_text:
  assumes "all_digits w" "w \<noteq> []" "all_digits f" "length f \<le> d" "d \<le> 77"
    and "length (w @ ''.'' @ f) \<le> 80"
    and n: "dec_value w * 10 ^ d + dec_value f * 10 ^ (d - length f) = n" "0 < n" "n < 2 ^ 256"
  shows "decimal_units (w @ ''.'' @ f) d = Inr (of_nat n)"
    and "f = [] \<Longrightarrow> decimal_units w d = Inr (of_nat n)"
  using assms by (simp_all add: decimal_units_eq decimal_ok_def decimal_value_def split_decimal_simps)

lemma length_dec_show_le: "n < 10 ^ k \<Longrightarrow> 0 < k \<Longrightarrow> k \<le> l \<Longrightarrow> length (dec_show n) \<le> l"
  using length_dec_show [of n k] by simp

lemma decimal_units_decimal_amount:
  assumes "u \<noteq> 0"
  shows "decimal_units (decimal_amount a u) (decimals a) = Inr (of_nat (unat u))"
proof -
  let ?d = "decimals a" and ?n = "unat u"
  have d: "0 < ?d" by (cases a) simp_all
  have u: "?n < 2 ^ 64" using unsigned_less [of u, where ?'a = nat] by simp
  have len: "length (dec_pad ?d (?n mod 10 ^ ?d)) = ?d" using d by simp
  have "?n div 10 ^ ?d < 10 ^ 20" by (rule le_less_trans [OF div_le_dividend]) (use u in simp)
  then have w: "length (dec_show (?n div 10 ^ ?d)) \<le> 20" by (rule length_dec_show) simp
  have "?n < 2 ^ 256" using u by simp
  moreover have "0 < ?n" using assms by (simp add: unat_gt_0)
  ultimately show ?thesis
    unfolding decimal_amount_eq
    using len w decimals_le [of a] by (intro decimal_units_text(1)) (simp_all add: div_mult_mod_eq)
qed

lemma trim_pad_value:
  assumes "n < 10 ^ 18" and "t = trim_end (CHR ''0'') (dec_pad 18 n)"
  shows "dec_value t * 10 ^ (18 - length t) = n" "length t \<le> 18" "all_digits t"
proof -
  obtain k where k: "dec_pad 18 n = t @ replicate k (CHR ''0'')"
    using trim_end_decomp assms(2) by blast
  have len: "length t + k = 18"
    using arg_cong [OF k, of length] dec_pad_length [of n 18] assms(1) by simp
  then show "length t \<le> 18" by simp
  have "n = dec_value t * 10 ^ k"
    using arg_cong [OF k, of dec_value] by (simp add: dec_value_zero_suffix)
  moreover have "k = 18 - length t" using len by simp
  ultimately show "dec_value t * 10 ^ (18 - length t) = n" by simp
  have "all_digits (dec_pad 18 n)" by simp
  then show "all_digits t" unfolding k by simp
qed

lemma decimal_units_format_rate:
  assumes "v \<noteq> 0"
  shows "decimal_units (format_rate v) 18 = Inr v"
proof -
  let ?n = "unat v"
  define t where "t = trim_end (CHR ''0'') (dec_pad 18 (?n mod 10 ^ 18))"
  define w where "w = dec_show (?n div 10 ^ 18)"
  have fmt: "format_rate v = (if t = [] then w else w @ ''.'' @ t)"
    by (simp add: format_rate_def t_def w_def unat_div unat_mod Let_def del: power_numeral)
  have t: "dec_value t * 10 ^ (18 - length t) = ?n mod 10 ^ 18" "length t \<le> 18" "all_digits t"
    by (rule trim_pad_value [OF _ t_def], simp)+
  have n: "?n < 2 ^ 256" using unsigned_less [of v, where ?'a = nat] by simp
  then have "?n div 10 ^ 18 < 10 ^ 60" by (intro less_mult_imp_div_less) simp
  then have len: "length w \<le> 60" unfolding w_def by (rule length_dec_show) simp
  have val: "dec_value w * 10 ^ 18 + dec_value t * 10 ^ (18 - length t) = ?n"
    unfolding t(1) w_def dec_value_dec_show by (rule div_mult_mod_eq)
  have pos: "0 < ?n" using assms by (simp add: unat_gt_0)
  have "decimal_units (format_rate v) 18 = Inr (of_nat ?n)"
    unfolding fmt
    using decimal_units_text [OF _ _ t(3,2) _ _ val pos n] len t(2) by (auto simp: w_def)
  then show ?thesis by simp
qed

section \<open>Rates\<close>

lemma decimal_units_one: "decimal_units ''1'' 18 = Inr rate_scale"
  by (simp add: decimal_units_eq decimal_ok_def decimal_value_def split_decimal_def split_once_def
      is_ascii_digit_def dec_value_def digit_value_def rate_scale_def)

text \<open>The multiplier a quote stands for: payment-asset units per requested unit, scaled by \<open>10 ^ 18\<close>.\<close>

definition exact_multiplier :: "criterion_asset \<Rightarrow> criterion_asset \<Rightarrow> u256 \<Rightarrow> u256" where
  "exact_multiplier requested payment price =
     (if (requested = Btc) = (payment = Btc) then rate_scale
      else if requested = Btc then price else half_even_reciprocal price)"

lemma conversion_value_Inr:
  assumes "conversion_value requested asset usd_per_btc = Inr v"
  shows "\<exists>m. decimal_units v 18 = Inr m \<and>
    (\<forall>p price. usd_per_btc = Some p \<longrightarrow> decimal_units p 18 = Inr price \<longrightarrow>
       m = exact_multiplier requested asset price)"
proof (cases "(requested = Btc) = (asset = Btc)")
  case True
  with assms show ?thesis
    by (intro exI [of _ rate_scale]) (auto simp: conversion_value_def exact_multiplier_def decimal_units_one)
next
  case False
  with assms obtain p price where p: "usd_per_btc = Some p" "decimal_units p 18 = Inr price"
      and nz: "exact_multiplier requested asset price \<noteq> 0"
      and v: "v = format_rate (exact_multiplier requested asset price)"
    by (auto simp: conversion_value_def exact_multiplier_def Let_def split: if_splits)
  show ?thesis
    using p decimal_units_format_rate [OF nz] by (intro exI [of _ "exact_multiplier requested asset price"])
      (auto simp: v)
qed

lemma conversion_rates_Inr:
  assumes "conversion_rates requested bitcoin usdt price = Inr rates"
  shows "map rate_asset rates =
      map (\<lambda>a. lowercase (criterion_asset_str a))
        (filter (\<lambda>a. a \<noteq> requested \<and> (if a = Btc then bitcoin else usdt)) [Btc, Usdt])"
    and "\<forall>a \<in> {Btc, Usdt}. a \<noteq> requested \<longrightarrow> (if a = Btc then bitcoin else usdt) \<longrightarrow>
      (\<exists>v. conversion_value requested a price = Inr v \<and>
         find (\<lambda>r. rate_asset r = lowercase (criterion_asset_str a)) rates =
           Some \<lparr>rate_asset = lowercase (criterion_asset_str a), rate_value = v\<rparr>)"
  using assms
  by (auto simp: conversion_rates_def split: if_splits)

lemma rate_multiplier_conversion:
  assumes "conversion_rates requested bitcoin usdt (Some p) = Inr rates"
    and "decimal_units p 18 = Inr price"
    and "payment = Btc \<and> bitcoin \<or> payment = Usdt \<and> usdt"
  shows "rate_multiplier requested payment rates = Inr (exact_multiplier requested payment price)"
proof (cases "requested = payment")
  case True
  then show ?thesis by (simp add: rate_multiplier_def exact_multiplier_def)
next
  case False
  with assms(3) conversion_rates_Inr(2) [OF assms(1)] obtain v
    where cv: "conversion_value requested payment (Some p) = Inr v"
      and f: "find (\<lambda>r. rate_asset r = lowercase (criterion_asset_str payment)) rates =
        Some \<lparr>rate_asset = lowercase (criterion_asset_str payment), rate_value = v\<rparr>"
    by (metis criterion_asset.distinct(3) insert_iff)
  from conversion_value_Inr [OF cv] assms(2)
  have "decimal_units v 18 = Inr (exact_multiplier requested payment price)" by auto
  with False f show ?thesis by (simp add: rate_multiplier_def)
qed

lemma u256_small_double: "unat x \<le> 10 ^ 36 \<Longrightarrow> unat (x * 2) = unat x * 2" for x :: u256
  by (simp add: unat_word_ariths)

lemma u256_small_succ: "unat x \<le> 10 ^ 36 \<Longrightarrow> unat (x + 1) = unat x + 1" for x :: u256
  by (simp add: unat_word_ariths)

lemma nearest_quotient:
  assumes "0 < p"
  shows "p \<le> n mod p * 2 \<Longrightarrow> 2 * \<bar>int (n div p + 1) * int p - int n\<bar> \<le> int p"
    and "n mod p * 2 \<le> p \<Longrightarrow> 2 * \<bar>int (n div p) * int p - int n\<bar> \<le> int p"
proof -
  have n: "int n = int (n div p) * int p + int (n mod p)"
    by (metis div_mult_mod_eq of_nat_add of_nat_mult)
  have "n mod p < p" using assms by simp
  then show "p \<le> n mod p * 2 \<Longrightarrow> 2 * \<bar>int (n div p + 1) * int p - int n\<bar> \<le> int p"
    using n by (simp add: algebra_simps)
  show "n mod p * 2 \<le> p \<Longrightarrow> 2 * \<bar>int (n div p) * int p - int n\<bar> \<le> int p"
    using n by simp
qed

lemma half_even_reciprocal_nearest:
  assumes "price \<noteq> 0"
  shows "2 * \<bar>int (unat (half_even_reciprocal price)) * int (unat price) - 10 ^ 36\<bar> \<le> int (unat price)"
proof -
  define s :: u256 where "s = rate_scale * rate_scale"
  have s: "unat s = 10 ^ 36" by (simp add: s_def rate_scale_def)
  have sI: "int (unat s) = 10 ^ 36" by (simp add: s)
  have q: "unat (s div price) = unat s div unat price" and r: "unat (s mod price) = unat s mod unat price"
    by (simp_all only: unat_div unat_mod)
  have p: "0 < unat price" using assms by (simp add: unat_gt_0)
  have r2: "unat (s mod price * 2) = unat s mod unat price * 2"
    using u256_small_double [of "s mod price"] mod_less_eq_dividend [of "unat s" "unat price"] unfolding r
    by (simp only: s)
  have up: "unat (s div price + 1) = unat s div unat price + 1"
    using u256_small_succ [of "s div price"] div_le_dividend [of "unat s" "unat price"] unfolding q
    by (simp only: s)
  have rec: "half_even_reciprocal price = s div price +
      (if s mod price * 2 > price \<or> (s mod price * 2 = price \<and> s div price mod 2 \<noteq> 0) then 1 else 0)"
    by (simp only: half_even_reciprocal_def Let_def s_def)
  show ?thesis
  proof (cases "s mod price * 2 > price \<or> (s mod price * 2 = price \<and> s div price mod 2 \<noteq> 0)")
    case True
    then have "unat price \<le> unat s mod unat price * 2" unfolding r2 [symmetric]
      by (auto simp: word_less_nat_alt)
    moreover have "unat (half_even_reciprocal price) = unat s div unat price + 1"
      using True up by (simp only: rec if_True)
    ultimately show ?thesis using nearest_quotient(1) [OF p, of "unat s"] by (simp only: sI)
  next
    case False
    then have "unat s mod unat price * 2 \<le> unat price" unfolding r2 [symmetric]
      by (auto simp: word_less_nat_alt)
    moreover have "unat (half_even_reciprocal price) = unat s div unat price"
      using False q by (simp only: rec if_False add_0_right)
    ultimately show ?thesis using nearest_quotient(2) [OF p, of "unat s"] by (simp only: sI)
  qed
qed

section \<open>Properties\<close>

lemmas decimal_eval = decimal_ok_def decimal_value_def split_decimal_def split_once_def
  is_ascii_digit_def dec_value_def digit_value_def

lemmas format_eval = format_rate_def rate_scale_def dec_pad_def dec_show.simps trim_end_def
  replicate_numeral_eval Let_def

lemma unat_ucast_u256 [simp]: "unat (ucast (u :: u64) :: u256) = unat u"
proof -
  have "unat u < 2 ^ 256" using unsigned_less [of u, where ?'a = nat] by simp
  then have "unat (of_nat (unat u) :: u256) = unat u" by (rule u256_of_nat_unat)
  then show ?thesis by simp
qed

lemma decimal_units_amount_ucast:
  "u \<noteq> 0 \<Longrightarrow> decimal_units (decimal_amount a u) (decimals a) = Inr (ucast u)"
  using decimal_units_decimal_amount [of u a] by simp

text \<open>A quote used by the witnesses: 81000 USD per BTC, five dollars requested.\<close>

lemma example_reciprocal: "half_even_reciprocal 81000000000000000000000 = 12345679012346"
  by (simp add: half_even_reciprocal_def rate_scale_def Let_def)

lemma example_price: "decimal_units ''81000'' 18 = Inr 81000000000000000000000"
  by (simp add: decimal_units_eq decimal_eval)

lemma example_rates:
  "conversion_rates Usd True True (Some ''81000'') =
     Inr [\<lparr>rate_asset = ''btc'', rate_value = ''0.000012345679012346''\<rparr>,
          \<lparr>rate_asset = ''usdt'', rate_value = ''1''\<rparr>]"
proof -
  have "format_rate 12345679012346 = ''0.000012345679012346''" by (simp add: format_eval)
  then show ?thesis
    by (simp add: conversion_rates_def conversion_value_def example_price example_reciprocal)
qed

lemma example_payment:
  "payment_units (decimal_amount Usd 500) Usd Btc
     [\<lparr>rate_asset = ''btc'', rate_value = ''0.000012345679012346''\<rparr>,
      \<lparr>rate_asset = ''usdt'', rate_value = ''1''\<rparr>] = Inr 6173"
proof -
  have u: "decimal_units (decimal_amount Usd 500) (decimals Usd) = Inr 500"
    using decimal_units_decimal_amount [of 500 Usd] by simp
  have m: "decimal_units ''0.000012345679012346'' 18 = Inr 12345679012346"
    by (simp add: decimal_units_eq decimal_eval)
  show ?thesis
    unfolding payment_units_eq u by (simp add: rate_multiplier_def m payable_def ceil_div_def)
qed

text \<open>C1: The amount charged in an offered asset is the least whole number of that asset's base
  units that covers the requested amount at exactly the published rate, where the rate is
  the feed price, its reciprocal rounded half-even to 18 decimals, or one.\<close>

theorem quoted_payment_least:
  assumes "conversion_rates requested bitcoin usdt (Some p) = Inr rates"
    and "decimal_units p 18 = Inr price"
    and "payment = Btc \<and> bitcoin \<or> payment = Usdt \<and> usdt"
    and "requested_units \<noteq> 0"
    and "payment_units (decimal_amount requested requested_units) requested payment rates = Inr r"
  shows "unat r \<le> k \<longleftrightarrow>
    unat requested_units * unat (exact_multiplier requested payment price) * 10 ^ decimals payment
      \<le> k * (10 ^ 18 * 10 ^ decimals requested)"
proof -
  let ?u = "ucast requested_units :: u256" and ?m = "exact_multiplier requested payment price"
  from assms(5) have "payable ?u ?m requested payment < 2 ^ 64"
    and "r = of_nat (payable ?u ?m requested payment)"
    unfolding payment_units_eq decimal_units_amount_ucast [OF assms(4)]
      rate_multiplier_conversion [OF assms(1,2,3)]
    by (auto split: if_splits)
  then have "unat r = payable ?u ?m requested payment" by (simp add: unat_of_nat)
  then show ?thesis by (simp add: payable_def ceil_div_least)
qed

theorem quoted_payment_least_witness:
  "unat (6173 :: u64) \<le> 6173 \<longleftrightarrow>
     unat (500 :: u64) * unat (exact_multiplier Usd Btc 81000000000000000000000) * 10 ^ decimals Btc
       \<le> 6173 * (10 ^ 18 * 10 ^ decimals Usd)"
  by (rule quoted_payment_least [OF example_rates example_price _ _ example_payment]) simp_all

text \<open>The reciprocal quote is the nearest 18-decimal number: times the price it differs from
  one by at most half a unit in the last place of the price.\<close>

theorem reciprocal_quote_nearest:
  assumes "price \<noteq> 0"
  shows "2 * \<bar>int (unat (half_even_reciprocal price)) * int (unat price) - 10 ^ 36\<bar>
    \<le> int (unat price)"
  using assms by (rule half_even_reciprocal_nearest)

theorem reciprocal_quote_nearest_witness:
  "(81000000000000000000000 :: u256) \<noteq> 0 \<and>
   2 * \<bar>int (unat (half_even_reciprocal 81000000000000000000000)) *
        int (unat (81000000000000000000000 :: u256)) - 10 ^ 36\<bar>
     \<le> int (unat (81000000000000000000000 :: u256))"
proof -
  have nz: "(81000000000000000000000 :: u256) \<noteq> 0" by simp
  show ?thesis using nz reciprocal_quote_nearest [OF nz] by blast
qed

text \<open>C2: A published rate reads back as the exact multiplier it was printed from.\<close>

theorem format_rate_roundtrip:
  assumes "multiplier \<noteq> 0"
  shows "decimal_units (format_rate multiplier) 18 = Inr multiplier"
  using assms by (rule decimal_units_format_rate)

theorem format_rate_roundtrip_witness:
  "decimal_units (format_rate 12345679012346) 18 = Inr 12345679012346"
  by (rule format_rate_roundtrip) simp

lemma payment_units_own_asset:
  assumes "requested_units \<noteq> 0"
  shows "payment_units (decimal_amount asset requested_units) asset asset rates = Inr requested_units"
proof -
  let ?u = "ucast requested_units :: u256"
  have lt: "unat requested_units < 2 ^ 64"
    using unsigned_less [of requested_units, where ?'a = nat] by simp
  have "payable ?u rate_scale asset asset = unat requested_units"
    unfolding payable_def unat_ucast_u256 unat_rate_scale
    by (metis ceil_div_exact mult.assoc mult_pos_pos zero_less_numeral zero_less_power)
  moreover have "unat requested_units * 10 ^ 18 * 10 ^ decimals asset < 2 ^ 256"
  proof -
    have "(10 :: nat) ^ decimals asset \<le> 10 ^ 8" using decimals_le by (intro power_increasing) simp_all
    then have "unat requested_units * 10 ^ 18 * 10 ^ decimals asset \<le> 2 ^ 64 * 10 ^ 18 * 10 ^ 8"
      using lt by (intro mult_mono) simp_all
    then show ?thesis by simp
  qed
  ultimately show ?thesis
    unfolding payment_units_eq decimal_units_amount_ucast [OF assms]
    using lt by (simp add: rate_multiplier_def)
qed

text \<open>C3: The decimal text put in a request reads back as the criterion's base units, and paying
  in the requested asset itself costs exactly those units.\<close>

theorem decimal_amount_roundtrip:
  assumes "requested_units \<noteq> 0"
  shows "decimal_units (decimal_amount asset requested_units) (decimals asset) = Inr (ucast requested_units)
    \<and> payment_units (decimal_amount asset requested_units) asset asset rates = Inr requested_units"
  using assms by (simp only: decimal_units_amount_ucast payment_units_own_asset simp_thms)

theorem decimal_amount_roundtrip_witness:
  "decimal_units (decimal_amount Btc 50000) (decimals Btc) = Inr (ucast (50000 :: u64))
    \<and> payment_units (decimal_amount Btc 50000) Btc Btc [] = Inr 50000"
  by (rule decimal_amount_roundtrip) simp

text \<open>Reading a decimal text never wraps: it returns the exact scaled value when the text is
  well formed, positive and fits 256 bits, and the error otherwise.\<close>

theorem decimal_units_exact:
  assumes "d \<le> 77"
  shows "decimal_units value d =
    (if decimal_ok value d \<and> 0 < decimal_value value d \<and> decimal_value value d < 2 ^ 256
     then Inr (of_nat (decimal_value value d)) else Inl InvalidRequest)"
  using assms by (rule decimal_units_eq)

theorem decimal_units_exact_witness:
  "decimal_units ''5.00'' 2 = Inr 500 \<and> decimal_units ''5.001'' 2 = Inl InvalidRequest"
  by (simp add: decimal_units_exact decimal_eval)

text \<open>A dollar-denominated request pays one to one in USDT: a cent is ten thousand millionths,
  and the charge is refused exactly when it does not fit 64 bits.\<close>

theorem usd_usdt_parity:
  assumes "conversion_rates Usd bitcoin True price = Inr rates"
    and "requested_units \<noteq> 0"
  shows "payment_units (decimal_amount Usd requested_units) Usd Usdt rates =
    (if unat requested_units * 10000 < 2 ^ 64 then Inr (requested_units * 10000) else Inl InvalidRequest)"
proof -
  have m: "rate_multiplier Usd Usdt rates = Inr rate_scale"
    using conversion_rates_Inr(2) [OF assms(1)]
    by (auto simp: rate_multiplier_def conversion_value_def decimal_units_one)
  have "payable (ucast requested_units) rate_scale Usd Usdt = unat requested_units * 10000"
    using ceil_div_exact [of "10 ^ 20" "unat requested_units * 10000"] by (simp add: payable_def)
  moreover have "unat requested_units < 2 ^ 64"
    using unsigned_less [of requested_units, where ?'a = nat] by simp
  ultimately show ?thesis
    unfolding payment_units_eq decimal_units_amount_ucast [OF assms(2)] m by simp
qed

theorem usd_usdt_parity_witness:
  "payment_units (decimal_amount Usd 500) Usd Usdt
     [\<lparr>rate_asset = ''btc'', rate_value = ''0.000012345679012346''\<rparr>,
      \<lparr>rate_asset = ''usdt'', rate_value = ''1''\<rparr>] = Inr 5000000"
  using usd_usdt_parity [OF example_rates, of 500] by simp

text \<open>The feed answers only with the price of the single BTC/USD ticker, at most ten minutes
  old and not from the future, whose text reads as a positive 18-decimal number.\<close>

theorem feed_usd_per_btc_fresh:
  assumes "feed_usd_per_btc tickers now_nanos = Inr p"
  shows "\<exists>t. filter (\<lambda>t. base t = ''BTC'' \<and> quote t = ''USD'') tickers = [t]
    \<and> p = last_price t
    \<and> 0 \<le> quot_trunc now_nanos 1000000 - last_updated_at t
    \<and> quot_trunc now_nanos 1000000 - last_updated_at t \<le> 600000
    \<and> (\<exists>price. decimal_units p 18 = Inr price \<and> price \<noteq> 0)"
proof -
  from assms obtain t where t: "filter (\<lambda>t. base t = ''BTC'' \<and> quote t = ''USD'') tickers = [t]"
    "p = last_price t" "0 \<le> quot_trunc now_nanos 1000000 - last_updated_at t"
    "quot_trunc now_nanos 1000000 - last_updated_at t \<le> 600000" "\<not> is_err (decimal_units p 18)"
    by (auto simp: feed_usd_per_btc_def max_rate_age_seconds_def Let_def split: list.splits if_splits)
  from t(5) obtain price where price: "decimal_units p 18 = Inr price" by (auto simp: not_is_err_iff)
  then have "price \<noteq> 0"
    by (auto simp: decimal_units_def Let_def split: prod.splits if_splits)
  with t price show ?thesis by blast
qed

lemma example_feed:
  "feed_usd_per_btc [\<lparr>base = ''BTC'', quote = ''USD'', last_price = ''81000'',
      last_updated_at = 1699999400000\<rparr>] 1700000000000000000 = Inr ''81000''"
  by (simp add: feed_usd_per_btc_def quot_trunc_def max_rate_age_seconds_def example_price)

theorem feed_usd_per_btc_fresh_witness:
  "\<exists>t. filter (\<lambda>t. base t = ''BTC'' \<and> quote t = ''USD'')
       [\<lparr>base = ''BTC'', quote = ''USD'', last_price = ''81000'', last_updated_at = 1699999400000\<rparr>] = [t]
    \<and> ''81000'' = last_price t
    \<and> 0 \<le> quot_trunc 1700000000000000000 1000000 - last_updated_at t
    \<and> quot_trunc 1700000000000000000 1000000 - last_updated_at t \<le> 600000
    \<and> (\<exists>price. decimal_units ''81000'' 18 = Inr price \<and> price \<noteq> 0)"
  by (rule feed_usd_per_btc_fresh [OF example_feed])

end
