(* ===== verification/Payment_Domain.thy ===== *)
theory Payment_Domain
  imports Invoice_Pricing
begin

text \<open>
  The payment values of \<open>paykit-server/src/domain/payment.rs\<close>, \<open>domain/provider_v2.rs\<close> and
  \<open>bitcoin.rs\<close>: transaction outputs, the domain's payment binding, the binding kept in the store
  with its decision on an incoming observation, and provider-v2 samples.  The locale
  \<open>binding_contract\<close> states what a binding promises; both bindings interpret it.
\<close>

section \<open>Transaction outputs\<close>

record bitcoin_outpoint =
  txid :: string
  vout :: u32

datatype bitcoin_outpoint_error = InvalidTxid

definition bitcoin_outpoint_new :: "string \<Rightarrow> u32 \<Rightarrow> (bitcoin_outpoint_error, bitcoin_outpoint) res" where
  "bitcoin_outpoint_new t v =
     (if length t \<noteq> 64 \<or> \<not> list_all (\<lambda>byte. is_ascii_digit byte \<or> is_lower_hex byte) t
      then Inl InvalidTxid
      else Inr \<lparr>txid = t, vout = v\<rparr>)"

definition canonical_text :: "bitcoin_outpoint \<Rightarrow> string" where
  "canonical_text out = txid out @ '':'' @ dec_show (unat (vout out))"

definition outpoint_ok :: "bitcoin_outpoint \<Rightarrow> bool" where
  "outpoint_ok out \<longleftrightarrow> length (txid out) = 64
     \<and> list_all (\<lambda>byte. is_ascii_digit byte \<or> is_lower_hex byte) (txid out)"

lemma bitcoin_outpoint_new_Inr:
  "bitcoin_outpoint_new t v = Inr p \<longleftrightarrow> outpoint_ok p \<and> txid p = t \<and> vout p = v"
  by (cases p) (auto simp: bitcoin_outpoint_new_def outpoint_ok_def)

lemma hex_not_colon: "is_ascii_digit c \<or> is_lower_hex c \<Longrightarrow> c \<noteq> CHR '':''"
  by (auto simp: is_ascii_digit_def is_lower_hex_def)

lemma outpoint_ok_no_colon: "outpoint_ok p \<Longrightarrow> CHR '':'' \<notin> set (txid p)"
  using hex_not_colon by (auto simp: outpoint_ok_def list_all_iff)

text \<open>The text of an output is its transaction up to the first colon, then its index.\<close>

lemma split_canonical_text:
  "outpoint_ok p \<Longrightarrow> split_once (CHR '':'') (canonical_text p) = Some (txid p, dec_show (unat (vout p)))"
  using split_once_append [of "CHR '':''" "txid p"] outpoint_ok_no_colon
  by (simp add: canonical_text_def)

lemma canonical_text_inject:
  assumes "outpoint_ok p" "outpoint_ok q" "canonical_text p = canonical_text q"
  shows "p = q"
proof -
  have "txid p = txid q \<and> dec_show (unat (vout p)) = dec_show (unat (vout q))"
    using assms split_canonical_text [of p] split_canonical_text [of q] by simp
  then have "txid p = txid q" "vout p = vout q" by (auto intro: unsigned_word_eqI [where ?'a = nat])
  then show ?thesis by simp
qed

section \<open>Payment observations\<close>

datatype payment_status = Undetected | Detected | Confirmed

record payment_observation =
  obs_status :: payment_status
  obs_confirmations :: u32
  obs_amount_matched :: bool

definition observation_undetected :: payment_observation where
  "observation_undetected =
     \<lparr>obs_status = Undetected, obs_confirmations = 0, obs_amount_matched = False\<rparr>"

definition observation_observed :: "u32 \<Rightarrow> bool \<Rightarrow> payment_observation" where
  "observation_observed confs matched =
     \<lparr>obs_status = (if confs = 0 then Detected else Confirmed),
      obs_confirmations = confs, obs_amount_matched = matched\<rparr>"

record payment_binding =
  invoice_sats :: u64
  observed_sats :: "u64 option"
  binding_confirmations :: u32

definition binding_undetected :: "criterion_amount \<Rightarrow> payment_binding" where
  "binding_undetected invoice_amount =
     \<lparr>invoice_sats = amount_units invoice_amount, observed_sats = None, binding_confirmations = 0\<rparr>"

definition binding_observed :: "criterion_amount \<Rightarrow> u64 \<Rightarrow> u32 \<Rightarrow> payment_binding" where
  "binding_observed invoice_amount sats confs =
     (let amount_matched = amount_units invoice_amount \<le> sats in
      \<lparr>invoice_sats = amount_units invoice_amount, observed_sats = Some sats,
       binding_confirmations = (if amount_matched then min confs 6 else confs)\<rparr>)"

definition binding_observation :: "payment_binding \<Rightarrow> payment_observation" where
  "binding_observation b =
     (case observed_sats b of
        Some sats \<Rightarrow> observation_observed (binding_confirmations b) (invoice_sats b \<le> sats)
      | None \<Rightarrow> observation_undetected)"

definition binding_is_final :: "payment_binding \<Rightarrow> bool" where
  "binding_is_final b \<longleftrightarrow>
     (case observed_sats b of Some sats \<Rightarrow> invoice_sats b \<le> sats | None \<Rightarrow> False)
     \<and> binding_confirmations b = 6"

definition binding_is_replaceable :: "payment_binding \<Rightarrow> bool" where
  "binding_is_replaceable b =
     (case observed_sats b of
        None \<Rightarrow> True
      | Some sats \<Rightarrow>
          if sats < invoice_sats b then True
          else \<not> binding_is_final b \<and> binding_confirmations b < 1)"

definition regress_to_unseen :: "payment_binding \<Rightarrow> payment_binding" where
  "regress_to_unseen b =
     (if binding_is_final b then b
      else \<lparr>invoice_sats = invoice_sats b, observed_sats = None, binding_confirmations = 0\<rparr>)"

lemmas binding_defs = binding_undetected_def binding_observed_def binding_observation_def
  binding_is_final_def binding_is_replaceable_def regress_to_unseen_def
  observation_undetected_def observation_observed_def

section \<open>Direct observation of one invoice address\<close>

datatype observation_action = Update | Replace | Ignore

record direct_binding =
  db_outpoint :: string
  db_sats :: u64
  db_confirmations :: u32
  db_present :: bool

definition direct_binding_new :: "string \<Rightarrow> u64 \<Rightarrow> u32 \<Rightarrow> bool \<Rightarrow> direct_binding" where
  "direct_binding_new outpoint sats confs present =
     \<lparr>db_outpoint = outpoint, db_sats = sats, db_confirmations = confs, db_present = present\<rparr>"

definition direct_is_final :: "direct_binding \<Rightarrow> u64 \<Rightarrow> bool" where
  "direct_is_final b required \<longleftrightarrow> db_present b \<and> required \<le> db_sats b \<and> 6 \<le> db_confirmations b"

definition reported_confirmations :: "direct_binding \<Rightarrow> u64 \<Rightarrow> u32" where
  "reported_confirmations b required =
     (if required \<le> db_sats b then min (db_confirmations b) 6 else db_confirmations b)"

definition action_for_values :: "direct_binding \<Rightarrow> string \<Rightarrow> u64 \<Rightarrow> u32 \<Rightarrow> bool \<Rightarrow> u64 \<Rightarrow> observation_action" where
  "action_for_values b outpoint _ _ present required =
     (if outpoint = db_outpoint b \<or> \<not> present then Update
      else if direct_is_final b required then Ignore
      else if db_sats b < required \<or> \<not> db_present b \<or> db_confirmations b = 0 then Replace
      else Ignore)"

datatype bitcoin_network = Mainnet | Testnet | Signet | Regtest

record observed_output =
  out_network :: bitcoin_network
  out_address :: string
  out_outpoint :: bitcoin_outpoint
  out_sats :: u64
  out_confirmations :: u32
  out_present :: bool

definition observed_output_status :: "observed_output \<Rightarrow> string" where
  "observed_output_status out =
     (if \<not> out_present out then ''undetected''
      else if out_confirmations out = 0 then ''detected''
      else ''confirmed'')"

definition action_for :: "direct_binding \<Rightarrow> observed_output \<Rightarrow> u64 \<Rightarrow> observation_action" where
  "action_for b incoming required =
     action_for_values b (canonical_text (out_outpoint incoming)) (out_sats incoming)
       (out_confirmations incoming) (out_present incoming) required"

lemmas direct_defs = direct_binding_new_def direct_is_final_def reported_confirmations_def
  action_for_values_def action_for_def

section \<open>Provider-v2 payments and samples\<close>

datatype provider_v2_value_error = InvalidPayment | InvalidSample

record provider_v2_payment =
  amount_lexeme :: string
  amount_sats :: u64
  minimum_confirmations :: u8

definition provider_v2_payment_parse ::
  "(string \<Rightarrow> 'r option) \<Rightarrow> ('r \<Rightarrow> string) \<Rightarrow> string \<Rightarrow> string \<Rightarrow> string \<Rightarrow> u8 \<Rightarrow> 'r creator_pubky
     \<Rightarrow> (provider_v2_value_error, provider_v2_payment) res" where
  "provider_v2_payment_parse from_str to_str recipient_pubky amount asset minimum creator =
     bindr (map_err (\<lambda>_. InvalidPayment) (parse_creator from_str to_str recipient_pubky)) (\<lambda>recipient.
     if recipient \<noteq> creator \<or> okr (criterion_asset_parse asset) \<noteq> Some Btc \<or> 6 < minimum
     then Inl InvalidPayment
     else bindr (map_err (\<lambda>_. InvalidPayment) (criterion_amount_parse amount)) (\<lambda>a.
       Inr \<lparr>amount_lexeme = amount, amount_sats = amount_units a,
            minimum_confirmations = minimum\<rparr>))"

datatype provider_v2_sample_status = SampleUndetected | SampleDetected | SampleConfirmed

primrec sample_status_str :: "provider_v2_sample_status \<Rightarrow> string" where
  "sample_status_str SampleUndetected = ''undetected''"
| "sample_status_str SampleDetected = ''detected''"
| "sample_status_str SampleConfirmed = ''confirmed''"

record provider_v2_sample =
  sample_observed_at :: int
  sample_status :: provider_v2_sample_status
  sample_outpoint :: "bitcoin_outpoint option"
  sample_confirmations :: u8
  sample_amount_matched :: bool

definition provider_v2_sample_new ::
  "int \<Rightarrow> provider_v2_sample_status \<Rightarrow> bitcoin_outpoint option \<Rightarrow> u8 \<Rightarrow> bool
     \<Rightarrow> (provider_v2_value_error, provider_v2_sample) res" where
  "provider_v2_sample_new observed_at st outp confs matched =
     (let valid = (confs \<le> 6 \<and>
        (case st of
           SampleUndetected \<Rightarrow> outp = None \<and> confs = 0 \<and> \<not> matched
         | SampleDetected \<Rightarrow> outp \<noteq> None \<and> confs = 0
         | SampleConfirmed \<Rightarrow> outp \<noteq> None \<and> 0 < confs)) in
      if \<not> valid then Inl InvalidSample
      else Inr \<lparr>sample_observed_at = observed_at, sample_status = st, sample_outpoint = outp,
                sample_confirmations = confs, sample_amount_matched = matched\<rparr>)"

definition sample_qualifies :: "provider_v2_sample \<Rightarrow> u8 \<Rightarrow> int \<Rightarrow> bool" where
  "sample_qualifies s minimum deadline \<longleftrightarrow>
     sample_outpoint s \<noteq> None \<and> sample_amount_matched s \<and>
     minimum \<le> sample_confirmations s \<and> sample_observed_at s \<le> deadline"

text \<open>A sample's status is determined by its other facts, and a qualifying sample was paid in time.\<close>

lemma provider_v2_sample_new_Inr:
  "provider_v2_sample_new t st outp confs matched = Inr s \<longleftrightarrow>
     s = \<lparr>sample_observed_at = t, sample_status = st, sample_outpoint = outp,
          sample_confirmations = confs, sample_amount_matched = matched\<rparr> \<and> confs \<le> 6 \<and>
     st = (if outp = None then SampleUndetected
           else if confs = 0 then SampleDetected else SampleConfirmed) \<and>
     (outp = None \<longrightarrow> confs = 0 \<and> \<not> matched)"
  by (cases st) (auto simp: provider_v2_sample_new_def Let_def word_gt_0)

section \<open>The binding contract\<close>

text \<open>
  What the rest of the program relies on about the output bound to an invoice: a final binding is
  paid in full and can no longer be replaced, and only an unpaid or unconfirmed binding can.
\<close>

locale binding_contract =
  fixes matched :: "'b \<Rightarrow> bool"
    and confs :: "'b \<Rightarrow> u32"
    and final :: "'b \<Rightarrow> bool"
    and replaceable :: "'b \<Rightarrow> bool"
    and valid :: "'b \<Rightarrow> bool"
  assumes final_iff: "valid b \<Longrightarrow> final b \<longleftrightarrow> matched b \<and> 6 \<le> confs b"
    and replaceable_iff: "valid b \<Longrightarrow> replaceable b \<longleftrightarrow> \<not> matched b \<or> confs b = 0"
begin

lemma final_frozen: "valid b \<Longrightarrow> final b \<Longrightarrow> \<not> replaceable b"
  by (auto simp: final_iff replaceable_iff)

lemma replaceable_or_confirmed:
  "valid b \<Longrightarrow> replaceable b \<or> matched b \<and> 0 < confs b"
  by (auto simp: replaceable_iff word_gt_0)

lemma final_mono: "valid b \<Longrightarrow> valid b' \<Longrightarrow> final b \<Longrightarrow> matched b' \<Longrightarrow> confs b \<le> confs b' \<Longrightarrow> final b'"
  by (auto simp: final_iff)

end

definition binding_valid :: "payment_binding \<Rightarrow> bool" where
  "binding_valid b \<longleftrightarrow>
     (case observed_sats b of
        None \<Rightarrow> binding_confirmations b = 0
      | Some sats \<Rightarrow> invoice_sats b \<le> sats \<longrightarrow> binding_confirmations b \<le> 6)"

definition binding_matched :: "payment_binding \<Rightarrow> bool" where
  "binding_matched b \<longleftrightarrow> obs_amount_matched (binding_observation b)"

lemma binding_valid_ops [simp]:
  "binding_valid (binding_undetected a)" "binding_valid (binding_observed a s c)"
  "binding_valid b \<Longrightarrow> binding_valid (regress_to_unseen b)"
  by (simp_all add: binding_valid_def binding_defs Let_def)

lemma six_u32: "c \<le> (6 :: u32) \<Longrightarrow> 6 \<le> c \<longleftrightarrow> c = 6"
  by auto

lemma zero_u32: "c < (1 :: u32) \<longleftrightarrow> c = 0"
  by (simp add: word_less_1)

interpretation domain_binding: binding_contract
  binding_matched binding_confirmations binding_is_final binding_is_replaceable binding_valid
  by unfold_locales
    (auto simp: binding_matched_def binding_valid_def binding_defs six_u32 zero_u32 split: option.splits)

text \<open>The contract of the stored binding, for a fixed required amount.\<close>

definition direct_matched :: "u64 \<Rightarrow> direct_binding \<Rightarrow> bool" where
  "direct_matched required b \<longleftrightarrow> db_present b \<and> required \<le> db_sats b"

definition direct_replaceable :: "u64 \<Rightarrow> direct_binding \<Rightarrow> bool" where
  "direct_replaceable required b \<longleftrightarrow>
     (\<forall>outpoint s c. outpoint \<noteq> db_outpoint b \<longrightarrow> action_for_values b outpoint s c True required = Replace)"

lemma direct_replaceable_iff:
  "direct_replaceable required b \<longleftrightarrow> \<not> direct_matched required b \<or> db_confirmations b = 0"
proof -
  have "\<exists>p. p \<noteq> db_outpoint b" by (rule exI [of _ "CHR ''x'' # db_outpoint b"]) simp
  then show ?thesis
    by (auto simp: direct_replaceable_def direct_matched_def direct_defs)
qed

interpretation stored_binding: binding_contract
  "direct_matched required" db_confirmations "\<lambda>b. direct_is_final b required"
  "direct_replaceable required" "\<lambda>_. True" for required
  by unfold_locales (auto simp: direct_replaceable_iff direct_matched_def direct_is_final_def)

text \<open>The stored binding as the domain sees it.\<close>

definition binding_of :: "u64 \<Rightarrow> direct_binding \<Rightarrow> payment_binding" where
  "binding_of required b =
     (if db_present b then binding_observed (CriterionAmount required) (db_sats b) (db_confirmations b)
      else binding_undetected (CriterionAmount required))"

lemma binding_of_valid [simp]: "binding_valid (binding_of required b)"
  by (simp add: binding_of_def)

lemma min_six [simp]: "(min c (6 :: u32) = 6) = (6 \<le> c)" "(min c (6 :: u32) < 1) = (c = 0)"
  by (auto simp: min_def zero_u32)

text \<open>C5: The binding kept in the store implements the domain's payment binding: the same outputs
  are final, the same may be replaced by a new output at the address, the reported confirmation
  count is the domain's (capped at six for a full payment only), and the disappearance of the
  output is the domain's regression.\<close>

theorem direct_binding_refines:
  "direct_is_final b required = binding_is_final (binding_of required b) \<and>
   direct_replaceable required b = binding_is_replaceable (binding_of required b) \<and>
   (db_present b \<longrightarrow>
      reported_confirmations b required = obs_confirmations (binding_observation (binding_of required b))) \<and>
   (\<not> direct_is_final b required \<longrightarrow>
      binding_of required (b\<lparr>db_present := False\<rparr>) = regress_to_unseen (binding_of required b))"
  by (auto simp: binding_of_def direct_replaceable_iff direct_matched_def direct_is_final_def
      reported_confirmations_def binding_defs Let_def)

theorem direct_binding_refines_witness:
  "reported_confirmations (direct_binding_new ''ab:0'' 5000 7 True) 5000 = 6 \<and>
   binding_of 5000 (direct_binding_new ''ab:0'' 4999 7 False) =
     regress_to_unseen (binding_of 5000 (direct_binding_new ''ab:0'' 4999 7 True))"
  using direct_binding_refines [of "direct_binding_new ''ab:0'' 5000 7 True" 5000]
    direct_binding_refines [of "direct_binding_new ''ab:0'' 4999 7 True" 5000]
  by (simp add: direct_binding_new_def direct_is_final_def binding_of_def binding_defs min_def)

text \<open>A qualifying provider-v2 sample was observed by the deadline with an output that pays the
  amount, at most six confirmations and at least the agreed minimum; the status word follows from
  the output and its confirmations.\<close>

theorem provider_v2_sample_qualifies:
  assumes "provider_v2_sample_new t st outp confs matched = Inr s"
  shows "sample_confirmations s \<le> 6 \<and>
    sample_status s = (if sample_outpoint s = None then SampleUndetected
      else if sample_confirmations s = 0 then SampleDetected else SampleConfirmed) \<and>
    (sample_qualifies s minimum deadline =
      (sample_status s \<noteq> SampleUndetected \<and> matched \<and> minimum \<le> confs \<and> t \<le> deadline))"
  using assms by (auto simp: provider_v2_sample_new_Inr sample_qualifies_def)

theorem provider_v2_sample_qualifies_witness:
  "provider_v2_sample_new 5 SampleConfirmed (Some \<lparr>txid = ''ab'', vout = 0\<rparr>) 3 True =
     Inr \<lparr>sample_observed_at = 5, sample_status = SampleConfirmed,
       sample_outpoint = Some \<lparr>txid = ''ab'', vout = 0\<rparr>, sample_confirmations = 3,
       sample_amount_matched = True\<rparr> \<and>
   sample_qualifies \<lparr>sample_observed_at = 5, sample_status = SampleConfirmed,
       sample_outpoint = Some \<lparr>txid = ''ab'', vout = 0\<rparr>, sample_confirmations = 3,
       sample_amount_matched = True\<rparr> 2 9"
proof -
  have new: "provider_v2_sample_new 5 SampleConfirmed (Some \<lparr>txid = ''ab'', vout = 0\<rparr>) 3 True =
     Inr \<lparr>sample_observed_at = 5, sample_status = SampleConfirmed,
       sample_outpoint = Some \<lparr>txid = ''ab'', vout = 0\<rparr>, sample_confirmations = 3,
       sample_amount_matched = True\<rparr>"
    by (simp add: provider_v2_sample_new_def)
  with provider_v2_sample_qualifies [OF new, of 2 9] show ?thesis by simp
qed

end
