(* ===== verification/Delivery_Intent.thy ===== *)
theory Delivery_Intent
  imports Payment_Domain "HOL-Library.List_Lexorder" "HOL-Library.Char_ord"
begin

text \<open>
  Delivery intents, \<open>paykit-server/src/application/semantic_intent.rs\<close>: the stored form of a payment
  request proposal or cancellation, its validation, and its translation from and to the payment
  kit's own terms.  The kit, its wire format and the byte codec are external and enter as the
  record \<open>sdk\<close> and the argument \<open>from_bytes\<close>.
\<close>

type_synonym uuid = "128 word"

section \<open>Ordered maps\<close>

text \<open>A \<open>BTreeMap\<close> keyed by strings is its list of entries in increasing byte order.\<close>

fun btree_insert :: "string \<Rightarrow> 'v \<Rightarrow> (string \<times> 'v) list \<Rightarrow> (string \<times> 'v) list" where
  "btree_insert k v [] = [(k, v)]"
| "btree_insert k v ((k', v') # m) =
     (if k < k' then (k, v) # (k', v') # m
      else if k = k' then (k, v) # m
      else (k', v') # btree_insert k v m)"

definition btree_collect :: "(string \<times> 'v) list \<Rightarrow> (string \<times> 'v) list" where
  "btree_collect kvs = foldl (\<lambda>m (k, v). btree_insert k v m) [] kvs"

abbreviation btree_sorted :: "(string \<times> 'v) list \<Rightarrow> bool" where
  "btree_sorted m \<equiv> sorted_wrt (<) (map fst m)"

lemma map_of_btree_insert [simp]:
  "btree_sorted m \<Longrightarrow> map_of (btree_insert k v m) = (map_of m)(k \<mapsto> v)"
  by (induction k v m rule: btree_insert.induct) (auto simp: fun_eq_iff)

lemma set_btree_insert: "set (map fst (btree_insert k v m)) = insert k (set (map fst m))"
  by (induction k v m rule: btree_insert.induct) auto

lemma btree_insert_sorted [simp]: "btree_sorted m \<Longrightarrow> btree_sorted (btree_insert k v m)"
  by (induction k v m rule: btree_insert.induct)
    (auto simp: set_btree_insert [simplified] less_trans dest: less_trans)

lemma btree_insert_snoc:
  "\<forall>k' \<in> set (map fst m). k' < k \<Longrightarrow> btree_insert k v m = m @ [(k, v)]"
  by (induction m) (auto simp: order.strict_implies_not_eq dest: less_asym)

lemma btree_collect_append_sorted:
  "btree_sorted (m @ kvs) \<Longrightarrow> foldl (\<lambda>m (k, v). btree_insert k v m) m kvs = m @ kvs"
proof (induction kvs arbitrary: m)
  case (Cons kv kvs)
  obtain k v where kv: "kv = (k, v)" by force
  have "btree_insert k v m = m @ [(k, v)]"
    using Cons.prems by (intro btree_insert_snoc) (auto simp: kv sorted_wrt_append)
  with Cons.prems Cons.IH [of "m @ [(k, v)]"] show ?case by (simp add: kv)
qed simp

lemma btree_collect_sorted: "btree_sorted m \<Longrightarrow> btree_collect m = m"
  using btree_collect_append_sorted [of "[]" m] by (simp add: btree_collect_def)

section \<open>Payment terms of the messaging kit\<close>

text \<open>
  Values and checks of the external payment kit, the UUID and the RFC 3339 readers: the record
  \<open>sdk_terms\<close> holds the fields its terms builder takes and its accessors return, the record
  \<open>sdk\<close> the checks of its constructors.  \<open>'d\<close> is its deadline type and \<open>'r\<close> its public key type.
\<close>

datatype payment_conversion = Fixed (fixed_rates: "conversion_rate list") | PerPeriod

record 'd sdk_terms =
  st_amount :: string
  st_asset :: string
  st_payment_reference :: string
  st_accepted :: "string list"
  st_conversion :: "payment_conversion option"
  st_recurring :: bool
  st_proposal_expires_at :: "string option"
  st_payment_deadline :: "'d option"
  st_required_app_id :: "string option"
  st_payment_endpoints :: "(string \<times> string) list option"
  st_metadata :: "(string \<times> json) list"

record ('r, 'd) sdk =
  pubky_from_str :: "string \<Rightarrow> 'r option"
  pubky_to_str :: "'r \<Rightarrow> string"
  payment_reference_ok :: "string \<Rightarrow> bool"
  payment_amount_ok :: "string \<Rightarrow> string \<Rightarrow> bool"
  endpoint_identifier_ok :: "string \<Rightarrow> bool"
  payment_request_id_ok :: "string \<Rightarrow> bool"
  app_id_ok :: "string \<Rightarrow> bool"
  terms_build_ok :: "'d sdk_terms \<Rightarrow> bool"
  event_wire_len :: "'d sdk_terms \<Rightarrow> nat option"
  noise_msg_len :: nat
  deadline_timestamp :: "string \<Rightarrow> 'd"
  deadline_at :: "'d \<Rightarrow> string option"
  rfc3339_parse :: "string \<Rightarrow> int option"
  rfc3339_format :: "int \<Rightarrow> string option"
  uuid_parse :: "string \<Rightarrow> uuid option"
  uuid_hyphenated :: "uuid \<Rightarrow> string"
  uuid_is_v4_rfc4122 :: "uuid \<Rightarrow> bool"

definition paykit_app_id :: string where "paykit_app_id = ''paykit-server''"

section \<open>Delivery intents\<close>

datatype delivery_intent_error = IntentInvalid

record payment_terms =
  pt_amount :: string
  pt_asset :: string
  pt_rates :: "conversion_rate list"
  pt_payment_reference :: string
  pt_proposal_expires_at :: "string option"
  pt_payment_deadline :: "string option"
  pt_accepted_endpoint_identifiers :: "string list"
  pt_payment_endpoints :: "(string \<times> string) list"
  pt_metadata :: "(string \<times> json) list"

datatype delivery_operation =
    PaymentRequestProposal payment_terms
  | PaymentRequestCancellation string

record delivery_intent =
  intent_version :: u8
  intent_reader_pubky :: string
  intent_app_id :: string
  intent_operation :: delivery_operation

definition to_sdk ::
  "('r, 'd) sdk \<Rightarrow> payment_terms \<Rightarrow> (delivery_intent_error, 'd sdk_terms) res" where
  "to_sdk sdk terms =
     bindr (guardr (\<not> payment_amount_ok sdk (pt_amount terms) (pt_asset terms)) IntentInvalid) (\<lambda>_.
     bindr (guardr (\<not> payment_reference_ok sdk (pt_payment_reference terms)) IntentInvalid) (\<lambda>_.
     bindr (guardr (\<not> list_all (endpoint_identifier_ok sdk) (pt_accepted_endpoint_identifiers terms))
              IntentInvalid) (\<lambda>_.
     bindr (guardr (\<not> app_id_ok sdk paykit_app_id) IntentInvalid) (\<lambda>_.
     bindr (guardr (\<not> list_all (\<lambda>(identifier, _). endpoint_identifier_ok sdk identifier)
                         (pt_payment_endpoints terms)) IntentInvalid) (\<lambda>_.
     let built = \<lparr>st_amount = pt_amount terms, st_asset = pt_asset terms,
           st_payment_reference = pt_payment_reference terms,
           st_accepted = pt_accepted_endpoint_identifiers terms,
           st_conversion = (if pt_rates terms \<noteq> [] then Some (Fixed (pt_rates terms)) else None),
           st_recurring = False,
           st_proposal_expires_at = pt_proposal_expires_at terms,
           st_payment_deadline = map_option (deadline_timestamp sdk) (pt_payment_deadline terms),
           st_required_app_id = Some paykit_app_id,
           st_payment_endpoints = Some (btree_collect (pt_payment_endpoints terms)),
           st_metadata = pt_metadata terms\<rparr> in
     if terms_build_ok sdk built then Inr built else Inl IntentInvalid)))))"

definition validate_terms :: "('r, 'd) sdk \<Rightarrow> payment_terms \<Rightarrow> (delivery_intent_error, unit) res" where
  "validate_terms sdk terms =
     bindr (to_sdk sdk terms) (\<lambda>sdk_terms.
     bindr (guardr (\<not> app_id_ok sdk paykit_app_id) IntentInvalid) (\<lambda>_.
     bindr (ok_or (event_wire_len sdk sdk_terms) IntentInvalid) (\<lambda>wire_len.
     if noise_msg_len sdk < wire_len then Inl IntentInvalid
     else if \<not> payment_reference_ok sdk (pt_payment_reference terms)
        \<or> \<not> payment_amount_ok sdk (pt_amount terms) (pt_asset terms)
        \<or> pt_accepted_endpoint_identifiers terms = []
        \<or> pt_payment_endpoints terms = []
        \<or> list_ex (\<lambda>(identifier, payload).
             payload = [] \<or> identifier \<notin> set (pt_accepted_endpoint_identifiers terms)
             \<or> \<not> endpoint_identifier_ok sdk identifier) (pt_payment_endpoints terms)
        \<or> list_ex (\<lambda>identifier. \<not> endpoint_identifier_ok sdk identifier)
             (pt_accepted_endpoint_identifiers terms)
     then Inl IntentInvalid
     else bindr (ok_or (uuid_parse sdk (pt_payment_reference terms)) IntentInvalid) (\<lambda>reference.
     if \<not> uuid_is_v4_rfc4122 sdk reference
        \<or> pt_payment_reference terms \<noteq> uuid_hyphenated sdk reference
        \<or> (case pt_proposal_expires_at terms of
             Some value \<Rightarrow> rfc3339_parse sdk value = None | None \<Rightarrow> False)
        \<or> (case pt_payment_deadline terms of
             Some value \<Rightarrow> rfc3339_parse sdk value = None | None \<Rightarrow> False)
     then Inl IntentInvalid
     else case (pt_proposal_expires_at terms, pt_payment_deadline terms) of
         (None, None) \<Rightarrow> Inr ()
       | (Some proposal, Some payment) \<Rightarrow>
           (case (rfc3339_parse sdk proposal, rfc3339_parse sdk payment) of
              (Some a, Some b) \<Rightarrow> if a < b then Inr () else Inl IntentInvalid
            | (None, Some _) \<Rightarrow> Inr ()
            | _ \<Rightarrow> Inl IntentInvalid)
       | _ \<Rightarrow> Inl IntentInvalid))))"

definition intent_validate :: "('r, 'd) sdk \<Rightarrow> delivery_intent \<Rightarrow> (delivery_intent_error, unit) res" where
  "intent_validate sdk intent =
     (if intent_version intent \<noteq> 2
         \<or> is_err (parse_reader (pubky_from_str sdk) (pubky_to_str sdk) (intent_reader_pubky intent))
         \<or> intent_app_id intent \<noteq> paykit_app_id
      then Inl IntentInvalid
      else case intent_operation intent of
          PaymentRequestProposal terms \<Rightarrow> validate_terms sdk terms
        | PaymentRequestCancellation payment_request_id \<Rightarrow>
            guardr (\<not> payment_request_id_ok sdk payment_request_id) IntentInvalid)"

definition intent_decode ::
  "('r, 'd) sdk \<Rightarrow> (string \<Rightarrow> delivery_intent option) \<Rightarrow> string \<Rightarrow> (delivery_intent_error, delivery_intent) res" where
  "intent_decode sdk from_bytes bytes =
     bindr (ok_or (from_bytes bytes) IntentInvalid) (\<lambda>intent.
     bindr (intent_validate sdk intent) (\<lambda>_. Inr intent))"

definition intent_payment_request ::
  "('r, 'd) sdk \<Rightarrow> string \<Rightarrow> string \<Rightarrow> 'd sdk_terms \<Rightarrow> (delivery_intent_error, delivery_intent) res" where
  "intent_payment_request sdk reader_pubky app_id terms =
     (if st_recurring terms \<or> st_conversion terms = Some PerPeriod
         \<or> st_required_app_id terms \<noteq> Some app_id
      then Inl IntentInvalid
      else
        bindr (case st_payment_deadline terms of
                 None \<Rightarrow> Inr None
               | Some deadline \<Rightarrow> bindr (ok_or (deadline_at sdk deadline) IntentInvalid) (\<lambda>d. Inr (Some d)))
          (\<lambda>payment_deadline.
        bindr (ok_or (st_payment_endpoints terms) IntentInvalid) (\<lambda>payment_endpoints.
        let intent = \<lparr>intent_version = 2, intent_reader_pubky = reader_pubky, intent_app_id = app_id,
              intent_operation = PaymentRequestProposal
                \<lparr>pt_amount = st_amount terms, pt_asset = st_asset terms,
                 pt_rates = (case st_conversion terms of Some (Fixed rates) \<Rightarrow> rates | _ \<Rightarrow> []),
                 pt_payment_reference = st_payment_reference terms,
                 pt_proposal_expires_at = st_proposal_expires_at terms,
                 pt_payment_deadline = payment_deadline,
                 pt_accepted_endpoint_identifiers = st_accepted terms,
                 pt_payment_endpoints = btree_collect payment_endpoints,
                 pt_metadata = st_metadata terms\<rparr>\<rparr> in
        bindr (intent_validate sdk intent) (\<lambda>_. Inr intent))))"

definition intent_payment_request_cancellation ::
  "('r, 'd) sdk \<Rightarrow> delivery_intent \<Rightarrow> string \<Rightarrow> (delivery_intent_error, delivery_intent) res" where
  "intent_payment_request_cancellation sdk proposal payment_request_id =
     (if (case intent_operation proposal of PaymentRequestProposal _ \<Rightarrow> False | _ \<Rightarrow> True)
         \<or> \<not> payment_request_id_ok sdk payment_request_id
      then Inl IntentInvalid
      else
        let intent = \<lparr>intent_version = 2, intent_reader_pubky = intent_reader_pubky proposal,
              intent_app_id = intent_app_id proposal,
              intent_operation = PaymentRequestCancellation payment_request_id\<rparr> in
        bindr (intent_validate sdk intent) (\<lambda>_. Inr intent))"

definition proposal_payment_reference ::
  "('r, 'd) sdk \<Rightarrow> delivery_intent \<Rightarrow> (delivery_intent_error, string) res" where
  "proposal_payment_reference sdk intent =
     (case intent_operation intent of
        PaymentRequestProposal terms \<Rightarrow>
          bindr (guardr (\<not> payment_reference_ok sdk (pt_payment_reference terms)) IntentInvalid)
            (\<lambda>_. Inr (pt_payment_reference terms))
      | PaymentRequestCancellation _ \<Rightarrow> Inl IntentInvalid)"

definition set_deadlines ::
  "('r, 'd) sdk \<Rightarrow> delivery_intent \<Rightarrow> string \<Rightarrow> string \<Rightarrow> (delivery_intent_error, delivery_intent) res" where
  "set_deadlines sdk intent proposal_expires_at payment_deadline =
     bindr (ok_or (rfc3339_parse sdk proposal_expires_at) IntentInvalid) (\<lambda>proposal.
     bindr (ok_or (rfc3339_parse sdk payment_deadline) IntentInvalid) (\<lambda>payment.
     bindr (ok_or (deadline_at sdk (deadline_timestamp sdk payment_deadline)) IntentInvalid)
       (\<lambda>canonical_deadline.
     if payment \<le> proposal then Inl IntentInvalid
     else case intent_operation intent of
         PaymentRequestProposal terms \<Rightarrow>
           let intent' = intent\<lparr>intent_operation := PaymentRequestProposal
                 (terms\<lparr>pt_proposal_expires_at := Some proposal_expires_at,
                        pt_payment_deadline := Some canonical_deadline\<rparr>)\<rparr> in
           bindr (intent_validate sdk intent') (\<lambda>_. Inr intent')
       | PaymentRequestCancellation _ \<Rightarrow> Inl IntentInvalid)))"

definition intent_terms :: "delivery_intent \<Rightarrow> (delivery_intent_error, payment_terms) res" where
  "intent_terms intent =
     (case intent_operation intent of
        PaymentRequestProposal terms \<Rightarrow> Inr terms
      | PaymentRequestCancellation _ \<Rightarrow> Inl IntentInvalid)"

definition intent_proposal_expires_at ::
  "('r, 'd) sdk \<Rightarrow> delivery_intent \<Rightarrow> (delivery_intent_error, int option) res" where
  "intent_proposal_expires_at sdk intent =
     (case intent_operation intent of
        PaymentRequestProposal terms \<Rightarrow>
          (case pt_proposal_expires_at terms of
             None \<Rightarrow> Inr None
           | Some deadline \<Rightarrow>
               bindr (ok_or (rfc3339_parse sdk deadline) IntentInvalid) (\<lambda>t. Inr (Some t)))
      | PaymentRequestCancellation _ \<Rightarrow> Inr None)"

definition matches_proposal :: "delivery_intent \<Rightarrow> string \<Rightarrow> string \<Rightarrow> payment_terms \<Rightarrow> bool" where
  "matches_proposal intent reader_pubky proposal_app_id expected_terms \<longleftrightarrow>
     intent_reader_pubky intent = reader_pubky \<and> intent_app_id intent = proposal_app_id \<and>
     (case intent_operation intent of
        PaymentRequestProposal terms \<Rightarrow>
          pt_payment_reference terms = pt_payment_reference expected_terms \<and> terms = expected_terms
      | PaymentRequestCancellation _ \<Rightarrow> False)"

section \<open>Validated intents\<close>

lemmas intent_defs = intent_validate_def intent_decode_def intent_payment_request_def
  intent_payment_request_cancellation_def proposal_payment_reference_def set_deadlines_def
  intent_terms_def intent_proposal_expires_at_def matches_proposal_def

definition intent_valid :: "('r, 'd) sdk \<Rightarrow> delivery_intent \<Rightarrow> bool" where
  "intent_valid sdk intent \<longleftrightarrow> intent_validate sdk intent = Inr ()"

lemma intent_validate_Inr [simp]: "intent_validate sdk intent = Inr u \<longleftrightarrow> intent_valid sdk intent"
  by (cases u) (simp add: intent_valid_def)

lemma decode_Inr:
  "intent_decode sdk from_bytes bytes = Inr intent \<longleftrightarrow>
     from_bytes bytes = Some intent \<and> intent_valid sdk intent"
  by (auto simp: intent_decode_def)

lemma payment_request_valid: "intent_payment_request sdk r a terms = Inr intent \<Longrightarrow> intent_valid sdk intent"
  by (auto simp: intent_payment_request_def Let_def split: if_splits)

lemma cancellation_valid:
  "intent_payment_request_cancellation sdk p i = Inr intent \<Longrightarrow> intent_valid sdk intent"
  by (auto simp: intent_payment_request_cancellation_def Let_def split: if_splits)

lemma set_deadlines_valid: "set_deadlines sdk i p d = Inr intent \<Longrightarrow> intent_valid sdk intent"
  by (auto simp: set_deadlines_def Let_def split: if_splits delivery_operation.splits)

lemma validate_terms_Inr:
  assumes "validate_terms sdk terms = Inr u"
  shows "\<exists>built n. to_sdk sdk terms = Inr built \<and> event_wire_len sdk built = Some n \<and> n \<le> noise_msg_len sdk"
    and "\<forall>(identifier, payload) \<in> set (pt_payment_endpoints terms).
           payload \<noteq> [] \<and> identifier \<in> set (pt_accepted_endpoint_identifiers terms)"
    and "pt_payment_endpoints terms \<noteq> []"
    and "\<exists>uuid. uuid_parse sdk (pt_payment_reference terms) = Some uuid \<and> uuid_is_v4_rfc4122 sdk uuid
           \<and> uuid_hyphenated sdk uuid = pt_payment_reference terms"
    and "(pt_proposal_expires_at terms = None \<and> pt_payment_deadline terms = None) \<or>
         (\<exists>p d a b. pt_proposal_expires_at terms = Some p \<and> pt_payment_deadline terms = Some d \<and>
            rfc3339_parse sdk p = Some a \<and> rfc3339_parse sdk d = Some b \<and> a < b)"
  using assms
  by (auto simp: validate_terms_def list_ex_iff not_less
      split: if_splits option.splits prod.splits)

lemma intent_valid_proposal:
  "intent_valid sdk intent \<Longrightarrow> intent_terms intent = Inr terms \<Longrightarrow>
     validate_terms sdk terms = Inr () \<and> intent_app_id intent = paykit_app_id"
  by (auto simp: intent_valid_def intent_validate_def intent_terms_def
      split: if_splits delivery_operation.splits)

lemma to_sdk_Inr:
  "to_sdk sdk terms = Inr built \<Longrightarrow>
     built = \<lparr>st_amount = pt_amount terms, st_asset = pt_asset terms,
           st_payment_reference = pt_payment_reference terms,
           st_accepted = pt_accepted_endpoint_identifiers terms,
           st_conversion = (if pt_rates terms \<noteq> [] then Some (Fixed (pt_rates terms)) else None),
           st_recurring = False,
           st_proposal_expires_at = pt_proposal_expires_at terms,
           st_payment_deadline = map_option (deadline_timestamp sdk) (pt_payment_deadline terms),
           st_required_app_id = Some paykit_app_id,
           st_payment_endpoints = Some (btree_collect (pt_payment_endpoints terms)),
           st_metadata = pt_metadata terms\<rparr>"
  by (auto simp: to_sdk_def Let_def split: if_splits)

text \<open>C7: A payment request accepted for delivery reads back, from the stored bytes, as the terms it
  was made from: same amount, asset, reference, endpoints, proposal expiry and metadata, with the
  payment deadline in its canonical timestamp form and an empty fixed-rate list as no conversion.\<close>

theorem payment_request_roundtrip:
  assumes "intent_payment_request sdk reader app terms = Inr intent"
    and "from_bytes bytes = Some intent"
    and "st_payment_endpoints terms = Some endpoints" and "btree_sorted endpoints"
    and "\<And>d. st_payment_deadline terms = Some d \<Longrightarrow> map_option (deadline_timestamp sdk) (deadline_at sdk d) = Some d"
    and "st_conversion terms \<noteq> Some (Fixed [])"
  shows "\<exists>stored. intent_decode sdk from_bytes bytes = Inr intent \<and> intent_terms intent = Inr stored \<and>
    to_sdk sdk stored = Inr terms"
proof -
  from assms(1,3) obtain deadline where
    guard: "\<not> st_recurring terms" "st_conversion terms \<noteq> Some PerPeriod" "st_required_app_id terms = Some app"
    and deadline: "map_option (deadline_timestamp sdk) deadline = st_payment_deadline terms"
    and intent: "intent = \<lparr>intent_version = 2, intent_reader_pubky = reader, intent_app_id = app,
              intent_operation = PaymentRequestProposal
                \<lparr>pt_amount = st_amount terms, pt_asset = st_asset terms,
                 pt_rates = (case st_conversion terms of Some (Fixed rates) \<Rightarrow> rates | _ \<Rightarrow> []),
                 pt_payment_reference = st_payment_reference terms,
                 pt_proposal_expires_at = st_proposal_expires_at terms,
                 pt_payment_deadline = deadline,
                 pt_accepted_endpoint_identifiers = st_accepted terms,
                 pt_payment_endpoints = btree_collect endpoints,
                 pt_metadata = st_metadata terms\<rparr>\<rparr>"
    using assms(5) by (auto simp: intent_payment_request_def Let_def split: if_splits option.splits)
  have valid: "intent_valid sdk intent" using assms(1) by (rule payment_request_valid)
  from intent obtain stored where stored: "intent_terms intent = Inr stored" by (simp add: intent_terms_def)
  from intent_valid_proposal [OF valid stored] have app: "app = paykit_app_id"
    and "validate_terms sdk stored = Inr ()" by (simp_all add: intent)
  then obtain built where built: "to_sdk sdk stored = Inr built" using validate_terms_Inr(1) by blast
  have st: "stored = \<lparr>pt_amount = st_amount terms, pt_asset = st_asset terms,
                 pt_rates = (case st_conversion terms of Some (Fixed rates) \<Rightarrow> rates | _ \<Rightarrow> []),
                 pt_payment_reference = st_payment_reference terms,
                 pt_proposal_expires_at = st_proposal_expires_at terms,
                 pt_payment_deadline = deadline,
                 pt_accepted_endpoint_identifiers = st_accepted terms,
                 pt_payment_endpoints = btree_collect endpoints,
                 pt_metadata = st_metadata terms\<rparr>"
    using stored by (simp add: intent intent_terms_def)
  have conversion: "st_conversion built = st_conversion terms"
    using guard assms(6) by (auto simp: to_sdk_Inr [OF built] st split: option.splits payment_conversion.splits)
  have "built = terms"
  proof (rule sdk_terms.equality)
    show "st_conversion built = st_conversion terms" by (rule conversion)
  qed (simp_all add: guard deadline assms(3,4) app to_sdk_Inr [OF built] st btree_collect_sorted)
  then show ?thesis using valid assms(2) stored built by (auto simp: decode_Inr)
qed

text \<open>A kit whose checks accept every value, with text deadlines and references of one UUID.\<close>

definition example_sdk :: "(string, string) sdk" where
  "example_sdk = \<lparr>pubky_from_str = Some, pubky_to_str = id, payment_reference_ok = (\<lambda>_. True),
     payment_amount_ok = (\<lambda>_ _. True), endpoint_identifier_ok = (\<lambda>_. True),
     payment_request_id_ok = (\<lambda>_. True), app_id_ok = (\<lambda>_. True), terms_build_ok = (\<lambda>_. True),
     event_wire_len = (\<lambda>_. Some 0), noise_msg_len = 65535, deadline_timestamp = id, deadline_at = Some,
     rfc3339_parse = (\<lambda>s. Some (int (dec_value s))), rfc3339_format = (\<lambda>t. Some (dec_show (nat t))),
     uuid_parse = (\<lambda>_. Some 7), uuid_hyphenated = (\<lambda>_. ''ref''), uuid_is_v4_rfc4122 = (\<lambda>_. True)\<rparr>"

definition example_terms :: "string sdk_terms" where
  "example_terms = \<lparr>st_amount = ''12.50'', st_asset = ''usd'', st_payment_reference = ''ref'',
     st_accepted = [''btc-bitcoin-p2wpkh'', ''usdt-arbitrum-address''],
     st_conversion = Some (Fixed [\<lparr>rate_asset = ''usdt'', rate_value = ''1''\<rparr>]), st_recurring = False,
     st_proposal_expires_at = Some ''5'', st_payment_deadline = Some ''9'',
     st_required_app_id = Some ''paykit-server'',
     st_payment_endpoints = Some [(''btc-bitcoin-p2wpkh'', ''a''), (''usdt-arbitrum-address'', ''b'')],
     st_metadata = []\<rparr>"

definition example_intent :: delivery_intent where
  "example_intent = \<lparr>intent_version = 2, intent_reader_pubky = ''reader'', intent_app_id = ''paykit-server'',
     intent_operation = PaymentRequestProposal
       \<lparr>pt_amount = ''12.50'', pt_asset = ''usd'', pt_rates = [\<lparr>rate_asset = ''usdt'', rate_value = ''1''\<rparr>],
        pt_payment_reference = ''ref'', pt_proposal_expires_at = Some ''5'',
        pt_payment_deadline = Some ''9'',
        pt_accepted_endpoint_identifiers = [''btc-bitcoin-p2wpkh'', ''usdt-arbitrum-address''],
        pt_payment_endpoints = [(''btc-bitcoin-p2wpkh'', ''a''), (''usdt-arbitrum-address'', ''b'')],
        pt_metadata = []\<rparr>\<rparr>"

lemma example_endpoints_sorted:
  "btree_sorted [(''btc-bitcoin-p2wpkh'', ''a''), (''usdt-arbitrum-address'', ''b'')]"
  by (simp add: less_char_def)

lemma example_digits [simp]: "dec_value ''5'' = 5" "dec_value ''9'' = 9"
  by (simp_all add: dec_value_def digit_value_def)

lemma example_intent_made: "intent_payment_request example_sdk ''reader'' ''paykit-server'' example_terms = Inr example_intent"
proof -
  have "intent_validate example_sdk example_intent = Inr ()"
    by (simp add: intent_validate_def example_intent_def example_sdk_def validate_terms_def to_sdk_def
        paykit_app_id_def parse_reader_def parse_canonical_def)
  then show ?thesis
    using btree_collect_sorted [OF example_endpoints_sorted]
    by (simp add: intent_payment_request_def example_terms_def example_sdk_def example_intent_def Let_def
        del: intent_validate_Inr)
qed

theorem payment_request_roundtrip_witness:
  "\<exists>stored. intent_decode example_sdk (\<lambda>_. Some example_intent) ''x'' = Inr example_intent \<and>
     intent_terms example_intent = Inr stored \<and> to_sdk example_sdk stored = Inr example_terms"
  by (rule payment_request_roundtrip [OF example_intent_made _ _ example_endpoints_sorted])
    (simp_all add: example_terms_def example_sdk_def)

text \<open>C8: Every intent the server builds, re-dates or reads back is valid, and a valid proposal pays
  only through endpoints it names, carries a canonical version-4 reference, fits one encrypted
  message, and expires strictly before its payment deadline.\<close>

theorem produced_intent_valid:
  assumes "intent_payment_request sdk r a sdk_terms = Inr intent \<or> set_deadlines sdk old p d = Inr intent \<or>
    intent_payment_request_cancellation sdk old i = Inr intent \<or> intent_decode sdk from_bytes bytes = Inr intent"
  shows "intent_validate sdk intent = Inr () \<and>
    (\<forall>terms. intent_terms intent = Inr terms \<longrightarrow>
      (\<exists>built n. to_sdk sdk terms = Inr built \<and> event_wire_len sdk built = Some n \<and> n \<le> noise_msg_len sdk) \<and>
      (\<forall>(identifier, payload) \<in> set (pt_payment_endpoints terms).
         payload \<noteq> [] \<and> identifier \<in> set (pt_accepted_endpoint_identifiers terms)) \<and>
      (\<exists>uuid. uuid_parse sdk (pt_payment_reference terms) = Some uuid \<and> uuid_is_v4_rfc4122 sdk uuid
         \<and> uuid_hyphenated sdk uuid = pt_payment_reference terms) \<and>
      (\<forall>e. pt_proposal_expires_at terms = Some e \<longrightarrow>
         (\<exists>l x y. pt_payment_deadline terms = Some l \<and> rfc3339_parse sdk e = Some x \<and>
            rfc3339_parse sdk l = Some y \<and> x < y)))"
proof -
  have valid: "intent_valid sdk intent"
    using assms payment_request_valid set_deadlines_valid cancellation_valid decode_Inr by metis
  show ?thesis
  proof (intro conjI allI impI)
    show "intent_validate sdk intent = Inr ()" using valid by simp
    fix terms assume "intent_terms intent = Inr terms"
    then have v: "validate_terms sdk terms = Inr ()" using intent_valid_proposal valid by blast
    show "\<exists>built n. to_sdk sdk terms = Inr built \<and> event_wire_len sdk built = Some n \<and> n \<le> noise_msg_len sdk"
      by (rule validate_terms_Inr(1) [OF v])
    show "\<forall>(identifier, payload) \<in> set (pt_payment_endpoints terms).
         payload \<noteq> [] \<and> identifier \<in> set (pt_accepted_endpoint_identifiers terms)"
      by (rule validate_terms_Inr(2) [OF v])
    show "\<exists>uuid. uuid_parse sdk (pt_payment_reference terms) = Some uuid \<and> uuid_is_v4_rfc4122 sdk uuid
         \<and> uuid_hyphenated sdk uuid = pt_payment_reference terms"
      by (rule validate_terms_Inr(4) [OF v])
    fix e assume "pt_proposal_expires_at terms = Some e"
    then show "\<exists>l x y. pt_payment_deadline terms = Some l \<and> rfc3339_parse sdk e = Some x \<and>
            rfc3339_parse sdk l = Some y \<and> x < y"
      using validate_terms_Inr(5) [OF v] by auto
  qed
qed

theorem produced_intent_valid_witness:
  "intent_validate example_sdk example_intent = Inr ()"
  using produced_intent_valid [of example_sdk "''reader''" "''paykit-server''" example_terms example_intent]
    example_intent_made by blast

text \<open>Re-dating a proposal changes nothing but its two deadlines, keeps them in order, and is
  refused when the payment would not come after the proposal's expiry.\<close>

theorem set_deadlines_exact:
  "(set_deadlines sdk intent p d = Inr intent' \<longrightarrow>
     (\<exists>terms c. intent_terms intent = Inr terms \<and> deadline_at sdk (deadline_timestamp sdk d) = Some c \<and>
        intent' = intent\<lparr>intent_operation := PaymentRequestProposal
          (terms\<lparr>pt_proposal_expires_at := Some p, pt_payment_deadline := Some c\<rparr>)\<rparr> \<and>
        intent_proposal_expires_at sdk intent' = Inr (rfc3339_parse sdk p))) \<and>
   (rfc3339_parse sdk p = Some x \<and> rfc3339_parse sdk d = Some y \<and> y \<le> x \<longrightarrow>
     set_deadlines sdk intent p d = Inl IntentInvalid)"
  by (auto simp: set_deadlines_def intent_terms_def intent_proposal_expires_at_def Let_def ok_or_def
      split: if_splits delivery_operation.splits option.splits)

theorem set_deadlines_exact_witness:
  "intent_proposal_expires_at example_sdk (example_intent) = Inr (Some 5) \<and>
   set_deadlines example_sdk example_intent ''9'' ''5'' = Inl IntentInvalid"
proof -
  have same: "set_deadlines example_sdk example_intent ''5'' ''9'' = Inr example_intent"
    by (simp add: set_deadlines_def example_intent_def example_sdk_def intent_validate_def validate_terms_def
        to_sdk_def paykit_app_id_def parse_reader_def parse_canonical_def)
  have parse: "rfc3339_parse example_sdk ''5'' = Some 5" "rfc3339_parse example_sdk ''9'' = Some 9"
    by (simp_all add: example_sdk_def)
  have "intent_proposal_expires_at example_sdk example_intent = Inr (rfc3339_parse example_sdk ''5'')"
    using set_deadlines_exact [of example_sdk example_intent "''5''" "''9''" example_intent 0 0] same by blast
  moreover have "set_deadlines example_sdk example_intent ''9'' ''5'' = Inl IntentInvalid"
    using set_deadlines_exact [of example_sdk example_intent "''9''" "''5''" example_intent 9 5] parse by simp
  ultimately show ?thesis by (simp add: parse)
qed

end
