(* ===== verification/Request_Lifecycle.thy ===== *)
theory Request_Lifecycle
  imports Delivery_Intent "HOL-Library.Product_Lexorder" "HOL-Library.Multiset"
begin

text \<open>
  The lifecycle of a payment request, \<open>paykit-server/src/domain/payment_request_lifecycle.rs\<close>: its
  stored spelling, the transitions allowed without a new source event, and the strongest of an
  invoice's attempts.  The locale \<open>text_codec\<close> is the contract of every closed enumeration the
  program stores as text.
\<close>

section \<open>Stored spellings\<close>

text \<open>
  A value stored as text and read back: printing is undone by parsing, and parsing accepts
  nothing but printed values.
\<close>

locale text_codec =
  fixes show_text :: "'a \<Rightarrow> string"
    and parse_text :: "string \<Rightarrow> 'a option"
  assumes parse_show: "parse_text (show_text x) = Some x"
    and show_parse: "parse_text s = Some x \<Longrightarrow> show_text x = s"
begin

lemma show_inject: "show_text x = show_text y \<longleftrightarrow> x = y"
  by (metis option.inject parse_show)

lemma parse_iff: "parse_text s = Some x \<longleftrightarrow> s = show_text x"
  using parse_show show_parse by auto

lemma parse_rows:
  "mapr (\<lambda>(s, t). bindr (ok_or (parse_text s) e) (\<lambda>x. Inr (x, t))) (map (\<lambda>(x, t). (show_text x, t)) rows) = Inr rows"
  by (induction rows) (auto simp: parse_show)

lemma parse_rows_reject:
  "(s, t) \<in> set rows \<Longrightarrow> s \<notin> range show_text \<Longrightarrow>
     mapr (\<lambda>(s, t). bindr (ok_or (parse_text s) e) (\<lambda>x. Inr (x, t))) rows = Inl e"
  by (induction rows) (force simp: parse_iff ok_or_def split: option.splits)+

end

interpretation asset_text: text_codec criterion_asset_str "\<lambda>s. okr (criterion_asset_parse s)"
  by unfold_locales (auto simp: criterion_asset_str_parse)

section \<open>Lifecycle states\<close>

datatype request_state =
    Proposed
  | ProposalExpired
  | Accepted
  | Rejected
  | Canceled
  | ProofSubmitted
  | ActiveRecurring
  | RecoveryRequired
  | InvalidConflict

primrec request_state_str :: "request_state \<Rightarrow> string" where
  "request_state_str Proposed = ''proposed''"
| "request_state_str ProposalExpired = ''proposal_expired''"
| "request_state_str Accepted = ''accepted''"
| "request_state_str Rejected = ''rejected''"
| "request_state_str Canceled = ''canceled''"
| "request_state_str ProofSubmitted = ''proof_submitted''"
| "request_state_str ActiveRecurring = ''active_recurring''"
| "request_state_str RecoveryRequired = ''recovery_required''"
| "request_state_str InvalidConflict = ''invalid_conflict''"

definition request_state_parse :: "string \<Rightarrow> request_state option" where
  "request_state_parse value =
     (if value = ''proposed'' then Some Proposed
      else if value = ''proposal_expired'' then Some ProposalExpired
      else if value = ''accepted'' then Some Accepted
      else if value = ''rejected'' then Some Rejected
      else if value = ''canceled'' then Some Canceled
      else if value = ''proof_submitted'' then Some ProofSubmitted
      else if value = ''active_recurring'' then Some ActiveRecurring
      else if value = ''recovery_required'' then Some RecoveryRequired
      else if value = ''invalid_conflict'' then Some InvalidConflict
      else None)"

interpretation state_text: text_codec request_state_str request_state_parse
proof unfold_locales
  show "request_state_parse (request_state_str x) = Some x" for x
    by (cases x) (simp_all add: request_state_parse_def)
  show "request_state_parse s = Some x \<Longrightarrow> request_state_str x = s" for s x
    by (auto simp: request_state_parse_def split: if_splits)
qed

definition cursor_stable_transition_allowed :: "request_state \<Rightarrow> request_state \<Rightarrow> bool" where
  "cursor_stable_transition_allowed existing incoming \<longleftrightarrow>
     (existing, incoming) = (Proposed, ProposalExpired) \<or>
     (existing \<noteq> InvalidConflict \<and> incoming \<noteq> InvalidConflict \<and>
      (existing = RecoveryRequired \<or> incoming = RecoveryRequired))"

record proposal_correlation =
  pc_reader_pubky :: string
  pc_app_id :: string
  pc_terms :: payment_terms

record lifecycle_projection =
  lp_payment_request_id :: string
  lp_proposal :: proposal_correlation
  lp_request_state :: request_state
  lp_state_event_id :: "string option"
  lp_last_stream_item_id :: "u64 option"
  lp_last_outbound_message_id :: "u64 option"
  lp_last_event_at :: int

record persisted_lifecycle =
  pl_request_state :: request_state
  pl_last_event_at :: int

section \<open>The strongest attempt\<close>

primrec aggregate_rank :: "request_state \<Rightarrow> nat" where
  "aggregate_rank InvalidConflict = 9"
| "aggregate_rank RecoveryRequired = 8"
| "aggregate_rank ProofSubmitted = 7"
| "aggregate_rank ActiveRecurring = 6"
| "aggregate_rank Accepted = 5"
| "aggregate_rank Proposed = 4"
| "aggregate_rank ProposalExpired = 0"
| "aggregate_rank Rejected = 0"
| "aggregate_rank Canceled = 0"

text \<open>\<open>Iterator::max_by_key\<close> keeps the last of several greatest elements.\<close>

definition max_by_key :: "('a \<Rightarrow> 'k::linorder) \<Rightarrow> 'a list \<Rightarrow> 'a option" where
  "max_by_key key xs =
     foldl (\<lambda>best x. case best of None \<Rightarrow> Some x
                     | Some b \<Rightarrow> if key x < key b then Some b else Some x) None xs"

definition aggregate_key :: "request_state \<times> int \<Rightarrow> nat \<times> int \<times> string" where
  "aggregate_key = (\<lambda>(st, recorded_at). (aggregate_rank st, recorded_at, request_state_str st))"

definition aggregate_lifecycle :: "(request_state \<times> int) list \<Rightarrow> persisted_lifecycle option" where
  "aggregate_lifecycle attempts =
     map_option (\<lambda>(st, t). \<lparr>pl_request_state = st, pl_last_event_at = t\<rparr>)
       (max_by_key aggregate_key attempts)"

lemma max_by_key_snoc:
  "max_by_key key (xs @ [x]) =
     (case max_by_key key xs of None \<Rightarrow> Some x
      | Some b \<Rightarrow> if key x < key b then Some b else Some x)"
  by (simp add: max_by_key_def)

lemma max_by_key_Nil [simp]: "max_by_key key [] = None"
  by (simp add: max_by_key_def)

lemma max_by_key_None [simp]: "max_by_key key xs = None \<longleftrightarrow> xs = []"
  by (induction xs rule: rev_induct) (auto simp: max_by_key_snoc split: option.splits)

lemma max_by_key_Some:
  "max_by_key key xs = Some m \<Longrightarrow> m \<in> set xs \<and> (\<forall>x \<in> set xs. key x \<le> key m)"
proof (induction xs arbitrary: m rule: rev_induct)
  case (snoc x xs)
  then show ?case
    by (cases "max_by_key key xs") (force simp: max_by_key_snoc split: if_splits)+
qed simp

lemma max_by_key_unique:
  assumes "inj_on key (set xs)" "m \<in> set xs" "\<And>x. x \<in> set xs \<Longrightarrow> key x \<le> key m"
  shows "max_by_key key xs = Some m"
proof -
  from assms(2) obtain n where n: "max_by_key key xs = Some n" by (cases "max_by_key key xs") auto
  from max_by_key_Some [OF n] assms have "key n = key m" "n \<in> set xs" by (auto intro: order_antisym)
  with assms n show ?thesis by (metis inj_on_eq_iff)
qed

lemma aggregate_key_inj: "inj aggregate_key"
  by (auto simp: inj_def aggregate_key_def state_text.show_inject)

lemma max_by_key_mset:
  assumes "inj key" "mset xs = mset ys"
  shows "max_by_key key xs = max_by_key key ys"
proof (cases "max_by_key key xs")
  case None
  with assms show ?thesis by auto
next
  case (Some m)
  have "set xs = set ys" using assms(2) by (rule mset_eq_setD)
  with max_by_key_Some [OF Some] have "max_by_key key ys = Some m"
    using assms(1) by (intro max_by_key_unique) (auto intro: inj_on_subset)
  with Some show ?thesis by simp
qed

definition request_state_terminal :: "request_state \<Rightarrow> bool" where
  "request_state_terminal st \<longleftrightarrow> st \<in> {ProposalExpired, Rejected, Canceled}"

lemma rank_terminal: "aggregate_rank st = 0 \<longleftrightarrow> request_state_terminal st"
  by (cases st) (simp_all add: request_state_terminal_def)

lemma rank_inject:
  "aggregate_rank a = aggregate_rank b \<Longrightarrow> a = b \<or> request_state_terminal a \<and> request_state_terminal b"
  by (cases a; cases b) (simp_all add: request_state_terminal_def)

lemma aggregate_key_le:
  "aggregate_key (a, s) \<le> aggregate_key (b, t) \<Longrightarrow>
     aggregate_rank a \<le> aggregate_rank b \<and> (aggregate_rank a = aggregate_rank b \<longrightarrow> s \<le> t) \<and>
     (request_state_terminal b \<longrightarrow> request_state_terminal a)"
  by (auto simp: aggregate_key_def rank_terminal [symmetric])

text \<open>C9: The state shown for an invoice is its strongest attempt whatever the order of the rows:
  reordering the attempts changes nothing, an attempt is shown as soon as one exists, no attempt
  outranks it, a live attempt always hides terminal history, and among equal ranks the most
  recent event wins.\<close>

theorem aggregate_lifecycle_strongest:
  assumes "mset attempts = mset rows"
  shows "aggregate_lifecycle attempts = aggregate_lifecycle rows \<and>
    (attempts \<noteq> [] \<longrightarrow> (\<exists>st t. aggregate_lifecycle attempts = Some \<lparr>pl_request_state = st, pl_last_event_at = t\<rparr> \<and>
       (st, t) \<in> set rows \<and>
       (\<forall>(st', t') \<in> set rows. aggregate_rank st' \<le> aggregate_rank st \<and>
          (aggregate_rank st' = aggregate_rank st \<longrightarrow> t' \<le> t) \<and>
          (request_state_terminal st \<longrightarrow> request_state_terminal st'))))"
proof -
  have same: "aggregate_lifecycle attempts = aggregate_lifecycle rows"
    by (simp add: aggregate_lifecycle_def max_by_key_mset [OF aggregate_key_inj assms])
  have sets: "set attempts = set rows" using assms by (rule mset_eq_setD)
  have "\<exists>st t. aggregate_lifecycle attempts = Some \<lparr>pl_request_state = st, pl_last_event_at = t\<rparr> \<and>
       (st, t) \<in> set rows \<and>
       (\<forall>(st', t') \<in> set rows. aggregate_rank st' \<le> aggregate_rank st \<and>
          (aggregate_rank st' = aggregate_rank st \<longrightarrow> t' \<le> t) \<and>
          (request_state_terminal st \<longrightarrow> request_state_terminal st'))" if "attempts \<noteq> []"
  proof -
    from that obtain st t where m: "max_by_key aggregate_key attempts = Some (st, t)"
      by (cases "max_by_key aggregate_key attempts") auto
    from max_by_key_Some [OF m] sets have "(st, t) \<in> set rows"
      and "\<forall>x \<in> set rows. aggregate_key x \<le> aggregate_key (st, t)" by auto
    moreover from this have "\<forall>(st', t') \<in> set rows. aggregate_rank st' \<le> aggregate_rank st \<and>
          (aggregate_rank st' = aggregate_rank st \<longrightarrow> t' \<le> t) \<and>
          (request_state_terminal st \<longrightarrow> request_state_terminal st')"
      using aggregate_key_le by blast
    ultimately show ?thesis by (intro exI [of _ st] exI [of _ t]) (simp add: aggregate_lifecycle_def m)
  qed
  with same show ?thesis by blast
qed

theorem aggregate_lifecycle_strongest_witness:
  "aggregate_lifecycle [(Canceled, 9), (Proposed, 4), (ProposalExpired, 9)] =
   aggregate_lifecycle [(Proposed, 4), (ProposalExpired, 9), (Canceled, 9)]"
  using aggregate_lifecycle_strongest
    [of "[(Canceled, 9), (Proposed, 4), (ProposalExpired, 9)]"
        "[(Proposed, 4), (ProposalExpired, 9), (Canceled, 9)]"]
  by simp

end
