(* ===== verification/Crypto_Envelopes.thy ===== *)
theory Crypto_Envelopes
  imports Request_Lifecycle
begin

text \<open>
  Encrypted columns and keyed lookup values, \<open>paykit-server/src/crypto.rs\<close>.  An envelope is bound
  to its kind, creator, row and parent row through the associated data; the cipher, the keyed hash
  and the key derivation are the external record \<open>primitives\<close>.
\<close>

section \<open>Byte strings of fixed width\<close>

fun be_bytes :: "nat \<Rightarrow> nat \<Rightarrow> string" where
  "be_bytes 0 x = []"
| "be_bytes (Suc n) x = be_bytes n (x div 256) @ [char_of (x mod 256)]"

definition uuid_bytes :: "uuid \<Rightarrow> string" where
  "uuid_bytes u = be_bytes 16 (unat u)"

definition i64_be_bytes :: "int \<Rightarrow> string" where
  "i64_be_bytes i = be_bytes 8 (unat (of_int i :: u64))"

lemma length_be_bytes [simp]: "length (be_bytes n x) = n"
  by (induction n x rule: be_bytes.induct) auto

lemma be_bytes_inject: "x < 256 ^ n \<Longrightarrow> y < 256 ^ n \<Longrightarrow> be_bytes n x = be_bytes n y \<Longrightarrow> x = y"
proof (induction n arbitrary: x y)
  case (Suc n)
  then have low: "x mod 256 = y mod 256" by simp
  have "x div 256 = y div 256"
    using Suc by (intro Suc.IH) (auto simp: less_mult_imp_div_less mult.commute)
  with low show ?case by (metis div_mult_mod_eq)
qed simp

lemma uuid_bytes_inject: "uuid_bytes u = uuid_bytes v \<longleftrightarrow> u = v"
proof
  assume "uuid_bytes u = uuid_bytes v"
  then have "unat u = unat v"
    using be_bytes_inject [of "unat u" 16 "unat v"] unsigned_less [of u, where ?'a = nat]
      unsigned_less [of v, where ?'a = nat] by (simp add: uuid_bytes_def)
  then show "u = v" by (rule unsigned_word_eqI)
qed simp

lemma length_uuid_bytes [simp]: "length (uuid_bytes u) = 16"
  by (simp add: uuid_bytes_def)

section \<open>Envelope contexts\<close>

datatype envelope_type =
    CreatorCredentials
  | ReaderAssignment
  | Invoice
  | InvoicePaymentRecord
  | BitcoinObservation
  | MarketplaceBitcoinObservation
  | UsdtObservation
  | MarketplaceUsdtObservation
  | OutboxSemanticIntent
  | PaymentDrain
  | MarketplacePreparation
  | MarketplaceSettlementPaymentRecord

primrec envelope_type_bytes :: "envelope_type \<Rightarrow> string" where
  "envelope_type_bytes CreatorCredentials = ''creator-credentials''"
| "envelope_type_bytes ReaderAssignment = ''reader-assignment''"
| "envelope_type_bytes Invoice = ''invoice''"
| "envelope_type_bytes InvoicePaymentRecord = ''invoice-payment-record''"
| "envelope_type_bytes BitcoinObservation = ''bitcoin-observation''"
| "envelope_type_bytes MarketplaceBitcoinObservation = ''marketplace-bitcoin-observation''"
| "envelope_type_bytes UsdtObservation = ''usdt-observation''"
| "envelope_type_bytes MarketplaceUsdtObservation = ''marketplace-usdt-observation''"
| "envelope_type_bytes OutboxSemanticIntent = ''outbox-semantic-intent''"
| "envelope_type_bytes PaymentDrain = ''payment-drain''"
| "envelope_type_bytes MarketplacePreparation = ''marketplace-preparation''"
| "envelope_type_bytes MarketplaceSettlementPaymentRecord = ''marketplace-settlement-payment-record''"

type_synonym lookup_hash = string

record envelope_context =
  ctx_type :: envelope_type
  ctx_creator :: lookup_hash
  ctx_row :: uuid
  ctx_parent :: "uuid option"

definition context_new :: "envelope_type \<Rightarrow> lookup_hash \<Rightarrow> uuid \<Rightarrow> envelope_context" where
  "context_new ty creator row =
     \<lparr>ctx_type = ty, ctx_creator = creator, ctx_row = row, ctx_parent = None\<rparr>"

definition ctx_creator_credentials :: "lookup_hash \<Rightarrow> uuid \<Rightarrow> envelope_context" where
  "ctx_creator_credentials = context_new CreatorCredentials"
definition ctx_reader_assignment :: "lookup_hash \<Rightarrow> uuid \<Rightarrow> envelope_context" where
  "ctx_reader_assignment = context_new ReaderAssignment"
definition ctx_invoice :: "lookup_hash \<Rightarrow> uuid \<Rightarrow> envelope_context" where
  "ctx_invoice = context_new Invoice"
definition ctx_invoice_payment_record :: "lookup_hash \<Rightarrow> uuid \<Rightarrow> envelope_context" where
  "ctx_invoice_payment_record = context_new InvoicePaymentRecord"
definition ctx_bitcoin_observation :: "lookup_hash \<Rightarrow> uuid \<Rightarrow> envelope_context" where
  "ctx_bitcoin_observation = context_new BitcoinObservation"
definition ctx_bitcoin_observation_for_invoice ::
  "lookup_hash \<Rightarrow> uuid \<Rightarrow> uuid \<Rightarrow> envelope_context" where
  "ctx_bitcoin_observation_for_invoice creator row invoice =
     (ctx_bitcoin_observation creator row)\<lparr>ctx_parent := Some invoice\<rparr>"
definition ctx_bitcoin_observation_for_marketplace ::
  "lookup_hash \<Rightarrow> uuid \<Rightarrow> uuid \<Rightarrow> envelope_context" where
  "ctx_bitcoin_observation_for_marketplace creator row preparation =
     (context_new MarketplaceBitcoinObservation creator row)\<lparr>ctx_parent := Some preparation\<rparr>"
definition ctx_usdt_observation :: "lookup_hash \<Rightarrow> uuid \<Rightarrow> uuid \<Rightarrow> envelope_context" where
  "ctx_usdt_observation creator row invoice =
     (context_new UsdtObservation creator row)\<lparr>ctx_parent := Some invoice\<rparr>"
definition ctx_usdt_observation_for_marketplace ::
  "lookup_hash \<Rightarrow> uuid \<Rightarrow> uuid \<Rightarrow> envelope_context" where
  "ctx_usdt_observation_for_marketplace creator row preparation =
     (context_new MarketplaceUsdtObservation creator row)\<lparr>ctx_parent := Some preparation\<rparr>"
definition ctx_outbox_semantic_intent :: "lookup_hash \<Rightarrow> uuid \<Rightarrow> envelope_context" where
  "ctx_outbox_semantic_intent = context_new OutboxSemanticIntent"
definition ctx_payment_drain :: "lookup_hash \<Rightarrow> uuid \<Rightarrow> envelope_context" where
  "ctx_payment_drain = context_new PaymentDrain"
definition ctx_marketplace_preparation :: "lookup_hash \<Rightarrow> uuid \<Rightarrow> envelope_context" where
  "ctx_marketplace_preparation = context_new MarketplacePreparation"
definition ctx_marketplace_settlement_payment_record :: "lookup_hash \<Rightarrow> uuid \<Rightarrow> envelope_context" where
  "ctx_marketplace_settlement_payment_record = context_new MarketplaceSettlementPaymentRecord"

definition append_length_prefixed :: "string \<Rightarrow> string \<Rightarrow> string" where
  "append_length_prefixed output value = output @ be_bytes 4 (length value) @ value"

definition envelope_version :: nat where "envelope_version = 1"
definition nonce_length :: nat where "nonce_length = 24"
definition tag_length :: nat where "tag_length = 16"
definition derived_key_length :: nat where "derived_key_length = 32"

definition associated_data :: "envelope_context \<Rightarrow> string" where
  "associated_data ctx =
     (let aad = append_length_prefixed [] ''paykit-server'';
          aad = append_length_prefixed aad [char_of envelope_version];
          aad = append_length_prefixed aad (envelope_type_bytes (ctx_type ctx));
          aad = append_length_prefixed aad (ctx_creator ctx);
          aad = append_length_prefixed aad (uuid_bytes (ctx_row ctx))
      in case ctx_parent ctx of
           Some parent \<Rightarrow> append_length_prefixed aad (uuid_bytes parent)
         | None \<Rightarrow> aad)"

section \<open>Encryption and lookup hashes\<close>

text \<open>The AEAD cipher, HMAC and key derivation are external primitives.\<close>

record primitives =
  hkdf_expand :: "string \<Rightarrow> string \<Rightarrow> nat \<Rightarrow> string option"
  aead_seal :: "string \<Rightarrow> string \<Rightarrow> string \<Rightarrow> string \<Rightarrow> string option"
  aead_open :: "string \<Rightarrow> string \<Rightarrow> string \<Rightarrow> string \<Rightarrow> string option"
  hmac_sha256 :: "string \<Rightarrow> string \<Rightarrow> string"

datatype crypto_error = InvalidConfiguration | InvalidEnvelope | AuthenticationFailed

record crypto =
  prims :: primitives
  aead_key :: string
  lookup_hmac_key :: string

definition from_master_key :: "primitives \<Rightarrow> string \<Rightarrow> (crypto_error, crypto) res" where
  "from_master_key p master_key =
     (if length master_key \<noteq> derived_key_length then Inl InvalidConfiguration
      else
        bindr (ok_or (hkdf_expand p master_key ''paykit-server/aead/v1'' derived_key_length)
                 InvalidConfiguration) (\<lambda>aead.
        bindr (ok_or (hkdf_expand p master_key ''paykit-server/lookup-hmac/v1'' derived_key_length)
                 InvalidConfiguration) (\<lambda>lookup.
        Inr \<lparr>prims = p, aead_key = aead, lookup_hmac_key = lookup\<rparr>)))"

definition encrypt :: "crypto \<Rightarrow> string \<Rightarrow> envelope_context \<Rightarrow> string \<Rightarrow> (crypto_error, string) res" where
  "encrypt c nonce ctx plaintext =
     bindr (ok_or (aead_seal (prims c) (aead_key c) nonce (associated_data ctx) plaintext)
              AuthenticationFailed) (\<lambda>ciphertext.
     Inr ([char_of envelope_version] @ nonce @ ciphertext))"

definition decrypt :: "crypto \<Rightarrow> envelope_context \<Rightarrow> string \<Rightarrow> (crypto_error, string) res" where
  "decrypt c ctx stored =
     (if length stored < 1 + nonce_length + tag_length \<or> hd stored \<noteq> char_of envelope_version
      then Inl InvalidEnvelope
      else ok_or (aead_open (prims c) (aead_key c) (take nonce_length (drop 1 stored)) (associated_data ctx)
                    (drop (1 + nonce_length) stored)) AuthenticationFailed)"

definition crypto_lookup_hash :: "crypto \<Rightarrow> string \<Rightarrow> lookup_hash" where
  "crypto_lookup_hash c logical_bytes = hmac_sha256 (prims c) (lookup_hmac_key c) logical_bytes"

definition domain_separated_lookup_hash :: "crypto \<Rightarrow> string \<Rightarrow> string \<Rightarrow> lookup_hash" where
  "domain_separated_lookup_hash c domain logical_bytes =
     hmac_sha256 (prims c) (lookup_hmac_key c) (domain @ [char_of (0::nat)] @ logical_bytes)"

definition bitcoin_address_lookup_hash :: "crypto \<Rightarrow> string \<Rightarrow> lookup_hash" where
  "bitcoin_address_lookup_hash c = domain_separated_lookup_hash c ''paykit-server:bitcoin-address:v1''"
definition payment_request_proposal_lookup_hash :: "crypto \<Rightarrow> string \<Rightarrow> lookup_hash" where
  "payment_request_proposal_lookup_hash c =
     domain_separated_lookup_hash c ''paykit-server:payment-request-proposal:v1''"
definition bitcoin_derivation_index_lookup_hash :: "crypto \<Rightarrow> lookup_hash \<Rightarrow> int \<Rightarrow> lookup_hash" where
  "bitcoin_derivation_index_lookup_hash c creator_hash index =
     domain_separated_lookup_hash c ''paykit-server:bitcoin-derivation-index:v1''
       (creator_hash @ i64_be_bytes index)"
definition bitcoin_outpoint_lookup_hash :: "crypto \<Rightarrow> string \<Rightarrow> lookup_hash" where
  "bitcoin_outpoint_lookup_hash c = domain_separated_lookup_hash c ''paykit-server:bitcoin-outpoint:v1''"
definition payment_drain_cleanup_token :: "crypto \<Rightarrow> uuid \<Rightarrow> lookup_hash" where
  "payment_drain_cleanup_token c drain_id =
     domain_separated_lookup_hash c ''paykit-server:payment-drain-cleanup:v1'' (uuid_bytes drain_id)"
definition usdt_transfer_lookup_hash :: "crypto \<Rightarrow> string \<Rightarrow> lookup_hash" where
  "usdt_transfer_lookup_hash c = domain_separated_lookup_hash c ''paykit-server:usdt-transfer''"

definition lookup_hash_from_storage :: "'e \<Rightarrow> string \<Rightarrow> ('e, lookup_hash) res" where
  "lookup_hash_from_storage e bytes = (if length bytes = 32 then Inr bytes else Inl e)"

section \<open>Contexts are told apart\<close>

definition length_prefixed :: "string \<Rightarrow> string" where
  "length_prefixed value = be_bytes 4 (length value) @ value"

lemma append_length_prefixed_eq: "append_length_prefixed output value = output @ length_prefixed value"
  by (simp add: append_length_prefixed_def length_prefixed_def)

lemma length_prefixed_inject:
  assumes "length_prefixed a @ x = length_prefixed b @ y" "length a < 256 ^ 4" "length b < 256 ^ 4"
  shows "a = b \<and> x = y"
proof -
  have "be_bytes 4 (length a) = be_bytes 4 (length b)" "a @ x = b @ y"
    using assms(1) by (simp_all add: append_eq_append_conv length_prefixed_def)
  moreover have "length a = length b" using be_bytes_inject [OF assms(2,3)] calculation(1) by simp
  ultimately show ?thesis by simp
qed

lemma envelope_type_bytes_inject: "envelope_type_bytes a = envelope_type_bytes b \<longleftrightarrow> a = b"
  by (cases a; cases b) simp_all

lemma envelope_type_bytes_length: "length (envelope_type_bytes a) < 256 ^ 4"
  by (cases a) simp_all

definition parent_bytes :: "uuid option \<Rightarrow> string" where
  "parent_bytes p = (case p of None \<Rightarrow> [] | Some u \<Rightarrow> length_prefixed (uuid_bytes u))"

lemma parent_bytes_inject: "parent_bytes p = parent_bytes q \<longleftrightarrow> p = q"
  by (auto simp: parent_bytes_def length_prefixed_def uuid_bytes_inject split: option.splits
      dest: arg_cong [where f = length])

lemma associated_data_shape:
  "associated_data c = length_prefixed ''paykit-server'' @ length_prefixed [char_of envelope_version] @
     length_prefixed (envelope_type_bytes (ctx_type c)) @ length_prefixed (ctx_creator c) @
     length_prefixed (uuid_bytes (ctx_row c)) @ parent_bytes (ctx_parent c)"
  by (simp add: associated_data_def append_length_prefixed_eq Let_def parent_bytes_def split: option.splits)

lemma associated_data_inject:
  assumes "length (ctx_creator a) = 32" "length (ctx_creator b) = 32"
    and "associated_data a = associated_data b"
  shows "a = b"
proof -
  have "length_prefixed (envelope_type_bytes (ctx_type a)) @ length_prefixed (ctx_creator a) @
       length_prefixed (uuid_bytes (ctx_row a)) @ parent_bytes (ctx_parent a) =
     length_prefixed (envelope_type_bytes (ctx_type b)) @ length_prefixed (ctx_creator b) @
       length_prefixed (uuid_bytes (ctx_row b)) @ parent_bytes (ctx_parent b)"
    using assms(3) by (simp add: associated_data_shape)
  from length_prefixed_inject [OF this envelope_type_bytes_length envelope_type_bytes_length]
  have ty: "ctx_type a = ctx_type b" and
    rest: "length_prefixed (ctx_creator a) @ length_prefixed (uuid_bytes (ctx_row a)) @ parent_bytes (ctx_parent a) =
      length_prefixed (ctx_creator b) @ length_prefixed (uuid_bytes (ctx_row b)) @ parent_bytes (ctx_parent b)"
    by (simp_all add: envelope_type_bytes_inject)
  from length_prefixed_inject [OF rest] assms(1,2) have creator: "ctx_creator a = ctx_creator b" and
    rest2: "length_prefixed (uuid_bytes (ctx_row a)) @ parent_bytes (ctx_parent a) =
      length_prefixed (uuid_bytes (ctx_row b)) @ parent_bytes (ctx_parent b)"
    by simp_all
  from length_prefixed_inject [OF rest2] have "ctx_row a = ctx_row b" "ctx_parent a = ctx_parent b"
    by (simp_all add: uuid_bytes_inject parent_bytes_inject)
  with ty creator show ?thesis by simp
qed

text \<open>What the program relies on about the cipher: opening undoes sealing, a sealed text carries a
  tag, and associated data other than the sealed one is refused.\<close>

definition aead_correct :: "primitives \<Rightarrow> bool" where
  "aead_correct p \<longleftrightarrow> (\<forall>key nonce aad plaintext sealed. aead_seal p key nonce aad plaintext = Some sealed \<longrightarrow>
     tag_length \<le> length sealed \<and> aead_open p key nonce aad sealed = Some plaintext)"

definition aead_authentic :: "primitives \<Rightarrow> bool" where
  "aead_authentic p \<longleftrightarrow> (\<forall>key nonce aad aad' plaintext sealed. aead_seal p key nonce aad plaintext = Some sealed \<longrightarrow>
     aad \<noteq> aad' \<longrightarrow> aead_open p key nonce aad' sealed = None)"

lemma decrypt_envelope:
  assumes "length nonce = nonce_length" "tag_length \<le> length sealed"
  shows "decrypt c ctx ([char_of envelope_version] @ nonce @ sealed) =
    ok_or (aead_open (prims c) (aead_key c) nonce (associated_data ctx) sealed) AuthenticationFailed"
  using assms by (simp add: decrypt_def)

lemma decrypt_encrypt:
  assumes "aead_correct (prims c)" "length nonce = nonce_length" "encrypt c nonce ctx m = Inr e"
  shows "decrypt c ctx e = Inr m"
  using assms decrypt_envelope [of nonce] by (auto simp: encrypt_def aead_correct_def)

text \<open>C4: An encrypted row opens exactly where it was written: with its own row, parent row, creator
  and kind of record it gives back the plaintext, and with any other combination of the four it is
  refused as unauthentic, so no stored envelope can be moved to another row or read as another
  kind of record.\<close>

theorem envelope_bound_to_context:
  assumes "aead_correct (prims c)" "aead_authentic (prims c)"
    and "length nonce = nonce_length" and "encrypt c nonce ctx plaintext = Inr envelope"
    and "length (ctx_creator ctx) = 32" "length (ctx_creator ctx') = 32"
  shows "decrypt c ctx' envelope = (if ctx' = ctx then Inr plaintext else Inl AuthenticationFailed)"
proof (cases "ctx' = ctx")
  case True
  with decrypt_encrypt [OF assms(1,3,4)] show ?thesis by simp
next
  case False
  then have "associated_data ctx \<noteq> associated_data ctx'"
    using associated_data_inject [OF assms(5,6)] by blast
  then show ?thesis
    using assms False decrypt_envelope [OF assms(3)]
    by (auto simp: encrypt_def aead_correct_def aead_authentic_def)
qed

text \<open>A cipher that writes its associated data, with its length in unary, before the plaintext.\<close>

definition example_header :: "string \<Rightarrow> string" where
  "example_header aad = replicate 16 (CHR ''t'') @ replicate (length aad) (CHR ''a'') @ CHR ''b'' # aad"

definition example_prims :: primitives where
  "example_prims = \<lparr>hkdf_expand = (\<lambda>key label n. Some (replicate n (CHR ''k''))),
     aead_seal = (\<lambda>key nonce aad m. Some (example_header aad @ m)),
     aead_open = (\<lambda>key nonce aad s.
       if take (length (example_header aad)) s = example_header aad
       then Some (drop (length (example_header aad)) s) else None),
     hmac_sha256 = (\<lambda>key m. take 32 (m @ replicate 32 (CHR ''0'')))\<rparr>"

definition example_crypto :: crypto where
  "example_crypto = \<lparr>prims = example_prims, aead_key = ''k'', lookup_hmac_key = ''l''\<rparr>"

lemma unary_prefix_inject:
  "replicate m (CHR ''a'') @ CHR ''b'' # x = replicate n (CHR ''a'') @ CHR ''b'' # y \<Longrightarrow> m = n \<and> x = y"
proof (induction m arbitrary: n)
  case 0
  then show ?case by (cases n) auto
next
  case (Suc m)
  then show ?case by (cases n) auto
qed

lemma example_header_inject: "example_header a @ x = example_header b @ y \<Longrightarrow> a = b \<and> x = y"
  using unary_prefix_inject [of "length a" "a @ x" "length b" "b @ y"] by (auto simp: example_header_def)

lemma example_prims_ok: "aead_correct example_prims" "aead_authentic example_prims"
proof -
  show "aead_correct example_prims"
    by (simp add: aead_correct_def example_prims_def tag_length_def) (simp add: example_header_def)
  have "take (length (example_header b)) (example_header a @ m) \<noteq> example_header b" if "a \<noteq> b" for a b m
    using that example_header_inject [of a m b "drop (length (example_header b)) (example_header a @ m)"]
    by (metis append_take_drop_id)
  then show "aead_authentic example_prims" by (simp add: aead_authentic_def example_prims_def)
qed

theorem envelope_bound_to_context_witness:
  "decrypt example_crypto (ctx_invoice_payment_record (replicate 32 (CHR ''h'')) 5)
     ([char_of envelope_version] @ replicate 24 (CHR ''n'') @
       example_header (associated_data (ctx_invoice (replicate 32 (CHR ''h'')) 5)) @ ''hello'') = Inl AuthenticationFailed"
proof -
  let ?h = "replicate 32 (CHR ''h'')" and ?n = "replicate 24 (CHR ''n'')"
  have "encrypt example_crypto ?n (ctx_invoice ?h 5) ''hello'' =
    Inr ([char_of envelope_version] @ ?n @ example_header (associated_data (ctx_invoice ?h 5)) @ ''hello'')"
    by (simp add: encrypt_def example_crypto_def example_prims_def)
  from envelope_bound_to_context [OF _ _ _ this, of "ctx_invoice_payment_record ?h 5"]
  show ?thesis
    by (simp add: example_crypto_def example_prims_ok nonce_length_def ctx_invoice_def
        ctx_invoice_payment_record_def context_new_def)
qed

section \<open>Lookup hashes are told apart\<close>

text \<open>Two inputs of the keyed hash do not collide.\<close>

definition hash_distinguishes :: "crypto \<Rightarrow> string \<Rightarrow> string \<Rightarrow> bool" where
  "hash_distinguishes c x y \<longleftrightarrow>
     (hmac_sha256 (prims c) (lookup_hmac_key c) x = hmac_sha256 (prims c) (lookup_hmac_key c) y \<longrightarrow> x = y)"

definition domain_input :: "string \<Rightarrow> string \<Rightarrow> string" where
  "domain_input domain logical_bytes = domain @ [char_of (0::nat)] @ logical_bytes"

lemma domain_hash_eq: "domain_separated_lookup_hash c d x = hmac_sha256 (prims c) (lookup_hmac_key c) (domain_input d x)"
  by (simp add: domain_separated_lookup_hash_def domain_input_def)

lemma domain_input_inject:
  assumes "char_of (0::nat) \<notin> set d" "char_of (0::nat) \<notin> set e"
    and "domain_input d x = domain_input e y"
  shows "d = e \<and> x = y"
proof -
  have "Some (d, x) = Some (e, y)"
    using split_once_append [OF assms(1), of x] split_once_append [OF assms(2), of y] assms(3)
    unfolding domain_input_def append_Cons append_Nil by metis
  then show ?thesis by simp
qed

lemma i64_be_bytes_inject:
  assumes "0 \<le> i" "i \<le> i64_max" "0 \<le> j" "j \<le> i64_max"
  shows "i64_be_bytes i = i64_be_bytes j \<longleftrightarrow> i = j"
proof
  assume eq: "i64_be_bytes i = i64_be_bytes j"
  have small: "unat (of_int k :: u64) = nat k" if "0 \<le> k" "k \<le> i64_max" for k
  proof -
    have "k < 2 ^ 64" using that by (simp add: i64_max_def)
    then show ?thesis using that by (simp add: unat_eq_nat_uint uint_word_of_int)
  qed
  have "nat k < 256 ^ 8" if "k \<le> i64_max" for k using that by (simp add: i64_max_def)
  with assms eq have "nat i = nat j"
    by (intro be_bytes_inject [of "nat i" 8 "nat j"]) (simp_all add: i64_be_bytes_def small)
  with assms show "i = j" by simp
qed simp

text \<open>Derivation indices are kept apart by their lookup hash: as long as the keyed hash does not
  collide on the two inputs, equal hashes mean the same creator and the same index; and the hash of
  an index is never that of an address.\<close>

theorem derivation_index_hash_inject:
  assumes "length c1 = 32" "length c2 = 32" "0 \<le> i" "i \<le> i64_max" "0 \<le> j" "j \<le> i64_max"
    and "hash_distinguishes c (domain_input ''paykit-server:bitcoin-derivation-index:v1'' (c1 @ i64_be_bytes i))
           (domain_input ''paykit-server:bitcoin-derivation-index:v1'' (c2 @ i64_be_bytes j))"
    and "hash_distinguishes c (domain_input ''paykit-server:bitcoin-derivation-index:v1'' (c1 @ i64_be_bytes i))
           (domain_input ''paykit-server:bitcoin-address:v1'' address)"
  shows "(bitcoin_derivation_index_lookup_hash c c1 i = bitcoin_derivation_index_lookup_hash c c2 j) = (c1 = c2 \<and> i = j) \<and>
    bitcoin_derivation_index_lookup_hash c c1 i \<noteq> bitcoin_address_lookup_hash c address"
proof -
  let ?d = "''paykit-server:bitcoin-derivation-index:v1''" and ?a = "''paykit-server:bitcoin-address:v1''"
  have nul: "char_of (0::nat) \<notin> set ?d" "char_of (0::nat) \<notin> set ?a" by code_simp+
  have "c1 = c2 \<and> i = j"
    if "bitcoin_derivation_index_lookup_hash c c1 i = bitcoin_derivation_index_lookup_hash c c2 j"
  proof -
    have "domain_input ?d (c1 @ i64_be_bytes i) = domain_input ?d (c2 @ i64_be_bytes j)"
      using that assms(7) by (simp only: bitcoin_derivation_index_lookup_hash_def domain_hash_eq hash_distinguishes_def)
    then have "c1 @ i64_be_bytes i = c2 @ i64_be_bytes j" using domain_input_inject [OF nul(1) nul(1)] by blast
    with assms(1,2) i64_be_bytes_inject [OF assms(3-6)] show ?thesis by simp
  qed
  moreover have "bitcoin_derivation_index_lookup_hash c c1 i \<noteq> bitcoin_address_lookup_hash c address"
  proof
    assume "bitcoin_derivation_index_lookup_hash c c1 i = bitcoin_address_lookup_hash c address"
    then have "domain_input ?d (c1 @ i64_be_bytes i) = domain_input ?a address"
      using assms(8) by (simp only: bitcoin_derivation_index_lookup_hash_def bitcoin_address_lookup_hash_def
          domain_hash_eq hash_distinguishes_def)
    from domain_input_inject [OF nul this] show False by simp
  qed
  ultimately show ?thesis by blast
qed

theorem derivation_index_hash_inject_witness:
  "bitcoin_derivation_index_lookup_hash (example_crypto\<lparr>prims := example_prims\<lparr>hmac_sha256 := \<lambda>_ m. m\<rparr>\<rparr>)
     (replicate 32 (CHR ''h'')) 3 \<noteq>
   bitcoin_derivation_index_lookup_hash (example_crypto\<lparr>prims := example_prims\<lparr>hmac_sha256 := \<lambda>_ m. m\<rparr>\<rparr>)
     (replicate 32 (CHR ''h'')) 4"
  using derivation_index_hash_inject [of "replicate 32 (CHR ''h'')" "replicate 32 (CHR ''h'')" 3 4
      "example_crypto\<lparr>prims := example_prims\<lparr>hmac_sha256 := \<lambda>_ m. m\<rparr>\<rparr>" "[]"]
  by (simp add: i64_max_def hash_distinguishes_def example_crypto_def)

end
