(* ===== verification/Payment_Record.thy ===== *)
theory Payment_Record
  imports Crypto_Envelopes
begin

text \<open>
  The per-invoice payment record and the Marketplace terms and quote derived from a stored intent:
  \<open>InvoicePaymentRecordV1\<close> of \<open>paykit-server/src/persistence/invoices.rs\<close>, \<open>AcceptedAsset\<close> of
  \<open>application/setup_status.rs\<close> and \<open>application/marketplace_terms.rs\<close>.  The JSON reader is the
  argument \<open>from_json\<close>.
\<close>

datatype persistence_error =
    DeploymentMismatch
  | CorruptOrMissing
  | ReauthenticationMismatch
  | StoreUnavailable
  | StoreConflict
  | StoreInvalidInput
  | DeadlineElapsed

section \<open>Payment records\<close>

record payment_destination =
  pd_address :: string
  pd_required_amount :: u64

record payment_record =
  pr_version :: u8
  pr_derivation_index :: int
  pr_bitcoin :: "payment_destination option"
  pr_usdt :: "payment_destination option"

definition bitcoin_endpoint_ids :: "string list" where
  "bitcoin_endpoint_ids =
     [''btc-bitcoin-p2wpkh'', ''btc-testnet-p2wpkh'', ''btc-signet-p2wpkh'', ''btc-regtest-p2wpkh'']"

definition endpoint_address :: "json \<Rightarrow> (persistence_error, string) res" where
  "endpoint_address payload =
     ok_or (case Option.bind (json_get payload ''value'') json_as_str of
              Some v \<Rightarrow> if v \<noteq> [] then Some v else None
            | None \<Rightarrow> None) StoreInvalidInput"

definition add_destination ::
  "(string \<Rightarrow> json option) \<Rightarrow> payment_terms \<Rightarrow> criterion_asset \<Rightarrow> payment_record \<Rightarrow> string \<times> string
     \<Rightarrow> (persistence_error, payment_record) res" where
  "add_destination from_json terms requested rec = (\<lambda>(identifier, payload_text).
     bindr (ok_or (from_json payload_text) StoreInvalidInput) (\<lambda>payload.
     bindr (endpoint_address payload) (\<lambda>address.
     if identifier \<in> set bitcoin_endpoint_ids then
       (if pr_bitcoin rec \<noteq> None then Inl StoreInvalidInput
        else bindr (map_err (\<lambda>_. StoreInvalidInput)
                      (payment_units (pt_amount terms) requested Btc (pt_rates terms))) (\<lambda>units.
          Inr (rec\<lparr>pr_bitcoin := Some \<lparr>pd_address = address, pd_required_amount = units\<rparr>\<rparr>)))
     else if identifier = usdt_endpoint_id then
       bindr (map_err (\<lambda>_. StoreInvalidInput) (usdt_try_from address)) (\<lambda>usdt.
       if usdt_endpoint usdt \<noteq> payload then Inl StoreInvalidInput
       else if pr_usdt rec \<noteq> None then Inl StoreInvalidInput
       else bindr (map_err (\<lambda>_. StoreInvalidInput)
                      (payment_units (pt_amount terms) requested Usdt (pt_rates terms))) (\<lambda>units.
          Inr (rec\<lparr>pr_usdt := Some \<lparr>pd_address = address, pd_required_amount = units\<rparr>\<rparr>)))
     else Inl StoreInvalidInput)))"

definition record_from_intent ::
  "(string \<Rightarrow> json option) \<Rightarrow> int \<Rightarrow> delivery_intent \<Rightarrow> (persistence_error, payment_record) res" where
  "record_from_intent from_json index intent =
     bindr (map_err (\<lambda>_. CorruptOrMissing) (intent_terms intent)) (\<lambda>terms.
     bindr (map_err (\<lambda>_. StoreInvalidInput) (criterion_asset_parse (uppercase (pt_asset terms)))) (\<lambda>requested.
     if length (pt_accepted_endpoint_identifiers terms) \<noteq> length (pt_payment_endpoints terms)
     then Inl StoreInvalidInput
     else foldr_res (add_destination from_json terms requested)
            \<lparr>pr_version = 1, pr_derivation_index = index, pr_bitcoin = None, pr_usdt = None\<rparr>
            (pt_payment_endpoints terms)))"

definition record_usdt_address :: "payment_record \<Rightarrow> (persistence_error, usdt_address option) res" where
  "record_usdt_address rec =
     (case pr_usdt rec of
        None \<Rightarrow> Inr None
      | Some d \<Rightarrow> bindr (map_err (\<lambda>_. CorruptOrMissing) (usdt_try_from (pd_address d))) (\<lambda>a. Inr (Some a)))"

definition has_bitcoin :: "payment_record \<Rightarrow> bool" where
  "has_bitcoin rec \<longleftrightarrow> pr_bitcoin rec \<noteq> None"

definition has_usdt :: "payment_record \<Rightarrow> bool" where
  "has_usdt rec \<longleftrightarrow> pr_usdt rec \<noteq> None"

definition usdt_required_amount :: "payment_record \<Rightarrow> (persistence_error, u64) res" where
  "usdt_required_amount rec =
     (if pr_version rec \<noteq> 1 then Inl CorruptOrMissing
      else ok_or (map_option pd_required_amount (pr_usdt rec)) StoreInvalidInput)"

definition bitcoin_address :: "payment_record \<Rightarrow> (persistence_error, string) res" where
  "bitcoin_address rec = ok_or (map_option pd_address (pr_bitcoin rec)) StoreInvalidInput"

definition bitcoin_required_amount :: "payment_record \<Rightarrow> (persistence_error, u64) res" where
  "bitcoin_required_amount rec =
     (if pr_version rec \<noteq> 1 then Inl CorruptOrMissing
      else ok_or (map_option pd_required_amount (pr_bitcoin rec)) StoreInvalidInput)"

section \<open>Accepted assets\<close>

datatype accepted_asset = AcceptBtc | AcceptUsdt

datatype accepted_asset_error = UnsupportedAccepted

definition accepted_asset_parse :: "string \<Rightarrow> (accepted_asset_error, accepted_asset) res" where
  "accepted_asset_parse value =
     (if value = ''BTC'' then Inr AcceptBtc
      else if value = ''USDT'' then Inr AcceptUsdt
      else Inl UnsupportedAccepted)"

primrec accepted_asset_str :: "accepted_asset \<Rightarrow> string" where
  "accepted_asset_str AcceptBtc = ''BTC''"
| "accepted_asset_str AcceptUsdt = ''USDT''"

primrec accepted_criterion_asset :: "accepted_asset \<Rightarrow> criterion_asset" where
  "accepted_criterion_asset AcceptBtc = Btc"
| "accepted_criterion_asset AcceptUsdt = Usdt"

interpretation accepted_text: text_codec accepted_asset_str "\<lambda>s. okr (accepted_asset_parse s)"
proof unfold_locales
  show "okr (accepted_asset_parse (accepted_asset_str x)) = Some x" for x
    by (cases x) (simp_all add: accepted_asset_parse_def)
  show "okr (accepted_asset_parse s) = Some x \<Longrightarrow> accepted_asset_str x = s" for s x
    by (auto simp: accepted_asset_parse_def split: if_splits)
qed

text \<open>The derived order: declaration order of the two variants.\<close>

instantiation accepted_asset :: linorder
begin

definition less_accepted_asset :: "accepted_asset \<Rightarrow> accepted_asset \<Rightarrow> bool" where
  "a < b \<longleftrightarrow> a = AcceptBtc \<and> b = AcceptUsdt"

definition less_eq_accepted_asset :: "accepted_asset \<Rightarrow> accepted_asset \<Rightarrow> bool" where
  "a \<le> b \<longleftrightarrow> a = AcceptBtc \<or> b = AcceptUsdt"

instance
proof
  fix x y z :: accepted_asset
  show "x < y \<longleftrightarrow> x \<le> y \<and> \<not> y \<le> x" "x \<le> x" "x \<le> y \<or> y \<le> x"
    by (cases x; cases y; simp add: less_accepted_asset_def less_eq_accepted_asset_def)+
  show "x \<le> y \<Longrightarrow> y \<le> z \<Longrightarrow> x \<le> z" "x \<le> y \<Longrightarrow> y \<le> x \<Longrightarrow> x = y"
    by (cases x; cases y; cases z; simp add: less_eq_accepted_asset_def)+
qed

end

section \<open>Marketplace terms and quotes\<close>

datatype marketplace_terms_error = MarketplaceTermsError

record marketplace_terms =
  mt_amount :: u64
  mt_asset :: criterion_asset
  mt_accepted_assets :: "accepted_asset list"

fun adjacent_equal :: "'a list \<Rightarrow> bool" where
  "adjacent_equal (x # y # zs) \<longleftrightarrow> x = y \<or> adjacent_equal (y # zs)"
| "adjacent_equal _ \<longleftrightarrow> False"

definition marketplace_terms_new ::
  "u64 \<Rightarrow> criterion_asset \<Rightarrow> accepted_asset list \<Rightarrow> (marketplace_terms_error, marketplace_terms) res" where
  "marketplace_terms_new amount asset accepted =
     (let accepted_assets = sort accepted in
      if amount = 0 \<or> accepted_assets = [] \<or> adjacent_equal accepted_assets
      then Inl MarketplaceTermsError
      else Inr \<lparr>mt_amount = amount, mt_asset = asset, mt_accepted_assets = accepted_assets\<rparr>)"

definition marketplace_terms_from_intent ::
  "(string \<Rightarrow> json option) \<Rightarrow> delivery_intent \<Rightarrow> u64 \<Rightarrow> criterion_asset
     \<Rightarrow> (persistence_error, marketplace_terms) res" where
  "marketplace_terms_from_intent from_json intent amount asset =
     bindr (record_from_intent from_json 0 intent) (\<lambda>rec.
     let accepted = (if has_bitcoin rec then [AcceptBtc] else []) @ (if has_usdt rec then [AcceptUsdt] else []) in
     map_err (\<lambda>_. StoreInvalidInput) (marketplace_terms_new amount asset accepted))"

definition marketplace_parse_amount :: "string \<Rightarrow> (marketplace_terms_error, u64) res" where
  "marketplace_parse_amount value =
     map_err (\<lambda>_. MarketplaceTermsError)
       (bindr (criterion_amount_parse value) (\<lambda>amount. Inr (amount_units amount)))"

definition marketplace_accepts :: "marketplace_terms \<Rightarrow> accepted_asset \<Rightarrow> bool" where
  "marketplace_accepts terms asset \<longleftrightarrow> asset \<in> set (mt_accepted_assets terms)"

definition crosses_bitcoin_rate :: "marketplace_terms \<Rightarrow> bool" where
  "crosses_bitcoin_rate terms \<longleftrightarrow>
     (mt_asset terms = Btc \<and> marketplace_accepts terms AcceptUsdt) \<or>
     (mt_asset terms \<noteq> Btc \<and> marketplace_accepts terms AcceptBtc)"

record marketplace_quote =
  mq_payment_amounts :: "(accepted_asset \<times> u64) list"
  mq_rates :: "(accepted_asset \<times> string) list"

definition quote_asset ::
  "payment_terms \<Rightarrow> payment_record \<Rightarrow> marketplace_terms \<Rightarrow> marketplace_quote \<Rightarrow> accepted_asset
     \<Rightarrow> (persistence_error, marketplace_quote) res" where
  "quote_asset offered rec terms acc asset =
     bindr (case asset of AcceptBtc \<Rightarrow> bitcoin_required_amount rec | AcceptUsdt \<Rightarrow> usdt_required_amount rec) (\<lambda>units.
     let name = lowercase (criterion_asset_str (accepted_criterion_asset asset));
         matching = filter (\<lambda>rate. rate_asset rate = name) (pt_rates offered) in
     if 1 < length matching \<or> (matching \<noteq> []) \<noteq> (accepted_criterion_asset asset \<noteq> mt_asset terms)
     then Inl StoreInvalidInput
     else Inr \<lparr>mq_payment_amounts = mq_payment_amounts acc @ [(asset, units)],
               mq_rates = mq_rates acc @ map (\<lambda>rate. (asset, rate_value rate)) (take 1 matching)\<rparr>)"

definition marketplace_quote_from_intent ::
  "(string \<Rightarrow> json option) \<Rightarrow> delivery_intent \<Rightarrow> marketplace_terms \<Rightarrow> (persistence_error, marketplace_quote) res" where
  "marketplace_quote_from_intent from_json intent terms =
     bindr (map_err (\<lambda>_. StoreInvalidInput) (intent_terms intent)) (\<lambda>offered.
     if pt_asset offered \<noteq> lowercase (criterion_asset_str (mt_asset terms))
        \<or> pt_amount offered \<noteq> decimal_amount (mt_asset terms) (mt_amount terms)
     then Inl StoreInvalidInput
     else bindr (record_from_intent from_json 0 intent) (\<lambda>rec.
     if has_bitcoin rec \<noteq> marketplace_accepts terms AcceptBtc
        \<or> has_usdt rec \<noteq> marketplace_accepts terms AcceptUsdt
     then Inl StoreInvalidInput
     else bindr (foldr_res (quote_asset offered rec terms) \<lparr>mq_payment_amounts = [], mq_rates = []\<rparr>
                   (mt_accepted_assets terms)) (\<lambda>quote.
     if length (pt_rates offered) \<noteq> length (mq_rates quote) then Inl StoreInvalidInput
     else Inr quote)))"

definition quote_payment_amount :: "marketplace_quote \<Rightarrow> accepted_asset \<Rightarrow> u64 option" where
  "quote_payment_amount q asset =
     map_option snd (find (\<lambda>(candidate, _). candidate = asset) (mq_payment_amounts q))"

section \<open>What a record promises\<close>

definition destinations :: "payment_record \<Rightarrow> nat" where
  "destinations rec = (if has_bitcoin rec then 1 else 0) + (if has_usdt rec then 1 else 0)"

definition record_priced :: "payment_terms \<Rightarrow> criterion_asset \<Rightarrow> payment_record \<Rightarrow> bool" where
  "record_priced terms requested rec \<longleftrightarrow>
     (\<forall>d. pr_bitcoin rec = Some d \<longrightarrow>
        payment_units (pt_amount terms) requested Btc (pt_rates terms) = Inr (pd_required_amount d) \<and>
        pd_address d \<noteq> []) \<and>
     (\<forall>d. pr_usdt rec = Some d \<longrightarrow>
        payment_units (pt_amount terms) requested Usdt (pt_rates terms) = Inr (pd_required_amount d) \<and>
        usdt_try_from (pd_address d) = Inr (UsdtAddress (pd_address d)))"

lemma json_as_str_Some [simp]: "json_as_str j = Some s \<longleftrightarrow> j = JString s"
  by (cases j) (simp_all add: json_as_str_def)

lemma endpoint_address_Inr:
  "endpoint_address payload = Inr a \<longleftrightarrow> json_get payload ''value'' = Some (JString a) \<and> a \<noteq> []"
proof (cases "json_get payload ''value''")
  case None
  then show ?thesis by (simp add: endpoint_address_def)
next
  case (Some j)
  then show ?thesis by (cases j) (auto simp: endpoint_address_def json_as_str_def)
qed

lemma usdt_endpoint_value: "json_get (usdt_endpoint a) ''value'' = Some (JString (usdt_str a))"
  by (simp add: json_get_def usdt_endpoint_def)

lemma add_destination_Inr:
  assumes "add_destination from_json terms requested rec (i, p) = Inr rec'" "record_priced terms requested rec"
  shows "record_priced terms requested rec' \<and> destinations rec' = Suc (destinations rec) \<and>
    pr_version rec' = pr_version rec \<and> pr_derivation_index rec' = pr_derivation_index rec"
  using assms
  by (auto simp: add_destination_def record_priced_def destinations_def has_bitcoin_def has_usdt_def
      endpoint_address_Inr usdt_endpoint_value split: if_splits)

lemma add_destinations_Inr:
  "foldr_res (add_destination from_json terms requested) rec endpoints = Inr rec' \<Longrightarrow>
   record_priced terms requested rec \<Longrightarrow>
   record_priced terms requested rec' \<and> destinations rec' = length endpoints + destinations rec \<and>
   pr_version rec' = pr_version rec \<and> pr_derivation_index rec' = pr_derivation_index rec"
proof (induction endpoints arbitrary: rec)
  case (Cons e es)
  then obtain mid where "add_destination from_json terms requested rec e = Inr mid"
    and "foldr_res (add_destination from_json terms requested) mid es = Inr rec'" by auto
  with Cons.IH [of mid] Cons.prems(2) add_destination_Inr [of from_json terms requested rec "fst e" "snd e" mid]
  show ?case by auto
qed simp

lemma record_from_intent_Inr:
  assumes "record_from_intent from_json index intent = Inr rec"
  obtains terms requested where "intent_terms intent = Inr terms"
    "criterion_asset_parse (uppercase (pt_asset terms)) = Inr requested"
    "record_priced terms requested rec" "destinations rec = length (pt_payment_endpoints terms)"
    "length (pt_accepted_endpoint_identifiers terms) = length (pt_payment_endpoints terms)"
    "pr_version rec = 1" "pr_derivation_index rec = index"
proof -
  let ?init = "\<lparr>pr_version = 1, pr_derivation_index = index, pr_bitcoin = None, pr_usdt = None\<rparr>"
  from assms obtain terms requested where t: "intent_terms intent = Inr terms"
    "criterion_asset_parse (uppercase (pt_asset terms)) = Inr requested"
    "length (pt_accepted_endpoint_identifiers terms) = length (pt_payment_endpoints terms)"
    and fold: "foldr_res (add_destination from_json terms requested) ?init (pt_payment_endpoints terms) = Inr rec"
    by (auto simp: record_from_intent_def split: if_splits)
  have "record_priced terms requested ?init" by (simp add: record_priced_def)
  from add_destinations_Inr [OF fold this] t that show thesis by (simp add: destinations_def has_bitcoin_def has_usdt_def)
qed

lemma asset_upper_lower: "criterion_asset_parse (uppercase (lowercase (criterion_asset_str a))) = Inr a"
  by (simp only: asset_lower_upper criterion_asset_parse_str)

lemma adjacent_equal_sorted: "sorted xs \<Longrightarrow> adjacent_equal xs \<longleftrightarrow> \<not> distinct xs"
  for xs :: "'a::linorder list"
proof (induction xs rule: adjacent_equal.induct)
  case (1 x y zs)
  then show ?case by (auto dest: order_antisym)
qed auto

lemma quote_asset_Inr:
  assumes "quote_asset offered rec terms acc asset = Inr acc'"
  shows "\<exists>units rates. acc' = \<lparr>mq_payment_amounts = mq_payment_amounts acc @ [(asset, units)],
                          mq_rates = mq_rates acc @ map (Pair asset) rates\<rparr> \<and>
       (case asset of AcceptBtc \<Rightarrow> bitcoin_required_amount rec | AcceptUsdt \<Rightarrow> usdt_required_amount rec) = Inr units \<and>
       map rate_value (filter (\<lambda>rate. rate_asset rate = lowercase (criterion_asset_str (accepted_criterion_asset asset)))
         (pt_rates offered)) = rates \<and>
       length rates = (if accepted_criterion_asset asset = mt_asset terms then 0 else 1)"
proof -
  let ?m = "filter (\<lambda>rate. rate_asset rate = lowercase (criterion_asset_str (accepted_criterion_asset asset)))
    (pt_rates offered)"
  from assms obtain units where units:
      "(case asset of AcceptBtc \<Rightarrow> bitcoin_required_amount rec | AcceptUsdt \<Rightarrow> usdt_required_amount rec) = Inr units"
    and len: "length ?m \<le> 1" "(?m \<noteq> []) = (accepted_criterion_asset asset \<noteq> mt_asset terms)"
    and acc': "acc' = \<lparr>mq_payment_amounts = mq_payment_amounts acc @ [(asset, units)],
       mq_rates = mq_rates acc @ map (\<lambda>rate. (asset, rate_value rate)) (take 1 ?m)\<rparr>"
    by (simp only: quote_asset_def Let_def bindr_eq_Inr) (auto split: if_splits)
  have "take 1 ?m = ?m" using len(1) by simp
  moreover have "length ?m = (if accepted_criterion_asset asset = mt_asset terms then 0 else 1)"
    using len by (cases ?m) auto
  ultimately show ?thesis using units acc'
    by (intro exI [of _ units] exI [of _ "map rate_value ?m"]) (simp add: comp_def)
qed

lemma quote_assets_Inr:
  "foldr_res (quote_asset offered rec terms) acc assets = Inr q \<Longrightarrow>
     map fst (mq_payment_amounts q) = map fst (mq_payment_amounts acc) @ assets \<and>
     (\<forall>(asset, units) \<in> set (mq_payment_amounts q) - set (mq_payment_amounts acc).
        (case asset of AcceptBtc \<Rightarrow> bitcoin_required_amount rec | AcceptUsdt \<Rightarrow> usdt_required_amount rec) = Inr units) \<and>
     map fst (mq_rates q) = map fst (mq_rates acc) @ filter (\<lambda>a. accepted_criterion_asset a \<noteq> mt_asset terms) assets"
proof (induction assets arbitrary: acc)
  case (Cons a as)
  then obtain mid where mid: "quote_asset offered rec terms acc a = Inr mid"
    and rest: "foldr_res (quote_asset offered rec terms) mid as = Inr q" by auto
  from quote_asset_Inr [OF mid] obtain units rates where
    m: "mid = \<lparr>mq_payment_amounts = mq_payment_amounts acc @ [(a, units)],
               mq_rates = mq_rates acc @ map (Pair a) rates\<rparr>"
    and u: "(case a of AcceptBtc \<Rightarrow> bitcoin_required_amount rec | AcceptUsdt \<Rightarrow> usdt_required_amount rec) = Inr units"
    and r: "length rates = (if accepted_criterion_asset a = mt_asset terms then 0 else 1)" by blast
  have "map fst (map (Pair a) rates) = (if accepted_criterion_asset a \<noteq> mt_asset terms then [a] else [])"
    using r by (auto simp: length_Suc_conv)
  with Cons.IH [OF rest] u show ?case by (auto simp: m)
qed simp

text \<open>C10: A Marketplace quote accepted from a stored request names exactly the accepted assets, in
  canonical order, each with the amount the pricing rule gives for the requested amount at the
  request's own fixed rates; a rate is quoted for exactly the accepted assets other than the
  denomination, and the request carries no other rate.\<close>

theorem marketplace_quote_exact:
  assumes "marketplace_quote_from_intent from_json intent terms = Inr q"
  shows "\<exists>offered. intent_terms intent = Inr offered \<and>
    map fst (mq_payment_amounts q) = mt_accepted_assets terms \<and>
    (\<forall>(asset, units) \<in> set (mq_payment_amounts q).
       payment_units (decimal_amount (mt_asset terms) (mt_amount terms)) (mt_asset terms)
         (accepted_criterion_asset asset) (pt_rates offered) = Inr units) \<and>
    map fst (mq_rates q) = filter (\<lambda>a. accepted_criterion_asset a \<noteq> mt_asset terms) (mt_accepted_assets terms) \<and>
    length (pt_rates offered) = length (mq_rates q)"
proof -
  from assms obtain offered rec where o: "intent_terms intent = Inr offered"
    and amount: "pt_asset offered = lowercase (criterion_asset_str (mt_asset terms))"
      "pt_amount offered = decimal_amount (mt_asset terms) (mt_amount terms)"
    and rec: "record_from_intent from_json 0 intent = Inr rec"
    and fold: "foldr_res (quote_asset offered rec terms) \<lparr>mq_payment_amounts = [], mq_rates = []\<rparr>
                 (mt_accepted_assets terms) = Inr q"
    and rates: "length (pt_rates offered) = length (mq_rates q)"
    by (auto simp: marketplace_quote_from_intent_def split: if_splits)
  obtain priced: "record_priced offered (mt_asset terms) rec" and "pr_version rec = 1"
    by (rule record_from_intent_Inr [OF rec]) (use o amount asset_upper_lower in simp)
  then have "payment_units (decimal_amount (mt_asset terms) (mt_amount terms)) (mt_asset terms)
         (accepted_criterion_asset asset) (pt_rates offered) = Inr units"
    if "(case asset of AcceptBtc \<Rightarrow> bitcoin_required_amount rec | AcceptUsdt \<Rightarrow> usdt_required_amount rec) = Inr units"
    for asset units
    using that amount by (cases asset)
      (auto simp: bitcoin_required_amount_def usdt_required_amount_def record_priced_def)
  with quote_assets_Inr [OF fold] o rates show ?thesis by fastforce
qed

definition example_quote_intent :: delivery_intent where
  "example_quote_intent = \<lparr>intent_version = 2, intent_reader_pubky = ''pubkyreader'', intent_app_id = ''paykit-server'',
     intent_operation = PaymentRequestProposal
       \<lparr>pt_amount = decimal_amount Btc 500, pt_asset = ''btc'', pt_rates = [], pt_payment_reference = ''ref'',
        pt_proposal_expires_at = None, pt_payment_deadline = None,
        pt_accepted_endpoint_identifiers = [''btc-bitcoin-p2wpkh''],
        pt_payment_endpoints = [(''btc-bitcoin-p2wpkh'', ''payload'')], pt_metadata = []\<rparr>\<rparr>"

lemma example_quote_record:
  "record_from_intent (\<lambda>_. Some (JObject [(''value'', JString ''bc1q'')])) 0 example_quote_intent =
     Inr \<lparr>pr_version = 1, pr_derivation_index = 0,
       pr_bitcoin = Some \<lparr>pd_address = ''bc1q'', pd_required_amount = 500\<rparr>, pr_usdt = None\<rparr>"
proof -
  have "payment_units (decimal_amount Btc 500) Btc Btc [] = Inr 500"
    by (rule payment_units_own_asset) simp
  then show ?thesis
    by (simp add: record_from_intent_def example_quote_intent_def intent_terms_def add_destination_def
        endpoint_address_def json_get_def json_as_str_def bitcoin_endpoint_ids_def criterion_asset_parse_def
        del: decimal_amount.simps)
qed

theorem marketplace_quote_exact_witness:
  "\<exists>q. marketplace_quote_from_intent (\<lambda>_. Some (JObject [(''value'', JString ''bc1q'')])) example_quote_intent
      \<lparr>mt_amount = 500, mt_asset = Btc, mt_accepted_assets = [AcceptBtc]\<rparr> = Inr q \<and>
     map fst (mq_payment_amounts q) = [AcceptBtc] \<and> mq_rates q = []"
proof -
  have q: "marketplace_quote_from_intent (\<lambda>_. Some (JObject [(''value'', JString ''bc1q'')])) example_quote_intent
      \<lparr>mt_amount = 500, mt_asset = Btc, mt_accepted_assets = [AcceptBtc]\<rparr> =
    Inr \<lparr>mq_payment_amounts = [(AcceptBtc, 500)], mq_rates = []\<rparr>"
    unfolding marketplace_quote_from_intent_def example_quote_record
    by (simp add: example_quote_intent_def intent_terms_def has_bitcoin_def has_usdt_def marketplace_accepts_def
        quote_asset_def bitcoin_required_amount_def Let_def del: decimal_amount.simps)
  from marketplace_quote_exact [OF q] q show ?thesis by auto
qed

text \<open>Marketplace terms keep the accepted assets as a non-empty set in canonical order: they
  exist exactly for a positive amount and a non-empty list without duplicates, and any order of
  the same assets gives the same terms.\<close>

theorem marketplace_terms_canonical:
  "marketplace_terms_new amount asset accepted =
     (if amount \<noteq> 0 \<and> accepted \<noteq> [] \<and> distinct accepted
      then Inr \<lparr>mt_amount = amount, mt_asset = asset, mt_accepted_assets = sorted_list_of_set (set accepted)\<rparr>
      else Inl MarketplaceTermsError) \<and>
   (mset accepted = mset accepted' \<longrightarrow>
      marketplace_terms_new amount asset accepted' = marketplace_terms_new amount asset accepted)"
proof -
  have "adjacent_equal (sort accepted) \<longleftrightarrow> \<not> distinct accepted"
    by (simp add: adjacent_equal_sorted)
  moreover have "distinct accepted \<Longrightarrow> sort accepted = sorted_list_of_set (set accepted)"
    by (simp add: sorted_list_of_set_sort_remdups distinct_remdups_id)
  moreover have "mset accepted = mset accepted' \<Longrightarrow> sort accepted' = sort accepted"
    by (metis sorted_list_of_multiset_mset)
  ultimately show ?thesis
    by (auto simp: marketplace_terms_new_def Let_def)
      (metis set_empty set_sort sort_key_simps(1))?
qed

theorem marketplace_terms_canonical_witness:
  "marketplace_terms_new 500 Usd [AcceptUsdt, AcceptBtc] = marketplace_terms_new 500 Usd [AcceptBtc, AcceptUsdt]"
  using marketplace_terms_canonical [of 500 Usd "[AcceptBtc, AcceptUsdt]" "[AcceptUsdt, AcceptBtc]"]
  by simp

end
