(* ===== verification/Store_Tables.thy ===== *)
theory Store_Tables
  imports Payment_Record
begin

text \<open>
  The database of \<open>paykit-server/migrations\<close> as the stores of \<open>paykit-server/src/persistence\<close> use it:
  one record per table row and one record of tables.  A transaction is a function from the database
  to an error or to a result with the new database: an early return before the commit leaves the
  database as it was.  Generated identifiers, nonces and the database clock are arguments.
\<close>

section \<open>Stored payloads and collaborators\<close>

record bitcoin_observation_v1 =
  bo1_version :: u8
  bo1_outpoint :: string
  bo1_observed_sats :: u64

record reader_assignment_v1 =
  ra1_version :: u8
  ra1_child_index :: int

record transfer_facts =
  tf_identity :: string
  tf_amount :: u64
  tf_timestamp :: int

text \<open>
  The collaborators of the store: the cryptographic material, the payment kit, the JSON reader,
  the binary codecs, the parser of transaction outputs, and the checked addition of the clock type.
\<close>

record ('r, 'd) env =
  env_crypto :: crypto
  env_sdk :: "('r, 'd) sdk"
  env_json :: "string \<Rightarrow> json option"
  intent_to_bytes :: "delivery_intent \<Rightarrow> string option"
  intent_from_bytes :: "string \<Rightarrow> delivery_intent option"
  record_to_bytes :: "payment_record \<Rightarrow> string option"
  record_from_bytes :: "string \<Rightarrow> payment_record option"
  observation_to_bytes :: "bitcoin_observation_v1 \<Rightarrow> string option"
  observation_from_bytes :: "string \<Rightarrow> bitcoin_observation_v1 option"
  assignment_to_bytes :: "reader_assignment_v1 \<Rightarrow> string option"
  assignment_from_bytes :: "string \<Rightarrow> reader_assignment_v1 option"
  facts_to_bytes :: "transfer_facts \<Rightarrow> string \<Rightarrow> string option"
  facts_take_from_bytes :: "string \<Rightarrow> (transfer_facts \<times> string) option"
  outpoint_from_str :: "string \<Rightarrow> bitcoin_outpoint option"
  time_checked_add :: "int \<Rightarrow> int \<Rightarrow> int option"

text \<open>Instants are counted in nanoseconds.\<close>

abbreviation seconds :: "int \<Rightarrow> int" where
  "seconds n \<equiv> n * 1000000000"

abbreviation milliseconds :: "int \<Rightarrow> int" where
  "milliseconds n \<equiv> n * 1000000"

section \<open>Rows\<close>

record creator_row =
  cr_id :: uuid
  cr_lookup_hash :: string
  cr_next_child_index :: int
  cr_account_generation :: int

record assignment_row =
  as_id :: uuid
  as_creator :: uuid
  as_reader_hash :: string
  as_bundle_hash :: string
  as_envelope :: string

record invoice_row =
  iv_id :: uuid
  iv_creator :: uuid
  iv_reader_hash :: string
  iv_bundle_hash :: string
  iv_lock_hash :: string
  iv_lock_generation :: int
  iv_payment_request_hash :: string
  iv_invoice_envelope :: string
  iv_payment_record_envelope :: string
  iv_address_hash :: "string option"
  iv_derivation_hash :: string
  iv_payment_status :: string
  iv_confirmation_count :: int
  iv_amount_matched :: bool
  iv_created_at :: int
  iv_proposal_expires_at :: int
  iv_payment_deadline :: int
  iv_acceptance_seconds :: int
  iv_window_seconds :: int
  iv_account_generation :: "int option"
  iv_first_matched_at :: "int option"
  iv_first_matched_outpoint :: "string option"
  iv_expired_at :: "int option"

record outbox_row =
  ob_id :: uuid
  ob_creator :: uuid
  ob_invoice :: "uuid option"
  ob_preparation :: "uuid option"
  ob_intent_envelope :: string
  ob_intent_kind :: string
  ob_status :: string
  ob_lease_owner :: "uuid option"
  ob_claim_token :: "uuid option"
  ob_lease_expires_at :: "int option"
  ob_attempt_count :: int
  ob_failure_count :: int
  ob_next_attempt_at :: int
  ob_error_class :: "string option"
  ob_sdk_outbound_message_id :: "string option"
  ob_sdk_event_id :: "string option"
  ob_sdk_payment_request_id :: "string option"
  ob_proposal_lookup_hash :: "string option"
  ob_cancellation_target :: "string option"
  ob_drain_required :: bool
  ob_created_at :: int

record observation_row =
  bo_id :: uuid
  bo_invoice :: "uuid option"
  bo_preparation :: "uuid option"
  bo_envelope :: string
  bo_outpoint_hash :: string
  bo_confirmations :: int
  bo_present :: bool
  bo_active :: bool
  bo_first_observed_at :: int

record usdt_observation_row =
  uo_id :: uuid
  uo_invoice :: "uuid option"
  uo_transfer_hash :: string
  uo_envelope :: string
  uo_confirmations :: int
  uo_present :: bool
  uo_finalized :: bool
  uo_checked_at :: int

record generation_row =
  lg_creator :: uuid
  lg_lock_hash :: string
  lg_current_generation :: int
  lg_active_drain :: "uuid option"
  lg_last_cleanup_token :: "string option"

record lifecycle_row =
  lr_payment_request_id :: string
  lr_invoice :: "uuid option"
  lr_preparation :: "uuid option"
  lr_request_state :: string
  lr_state_event_id :: "string option"
  lr_last_stream_item_id :: "int option"
  lr_last_outbound_message_id :: "int option"
  lr_last_event_at :: int

record buyer_contact_row =
  bc_invoice :: uuid
  bc_creator :: uuid
  bc_reader_hash :: string
  bc_next_attempt_at :: int
  bc_completed_at :: "int option"

record provider_row =
  pv_invoice :: uuid
  pv_request_hash :: string
  pv_deadline :: int
  pv_minimum_confirmations :: int
  pv_proposal_expires_at :: int

record sample_row =
  sr_invoice :: uuid
  sr_observation :: "uuid option"
  sr_observed_at :: int
  sr_status :: string
  sr_confirmations :: int
  sr_amount_matched :: bool

record preparation_row =
  mp_id :: uuid
  mp_creator :: uuid
  mp_state :: string
  mp_payment_deadline :: "int option"

text \<open>Of a settlement, its identity and its owner.\<close>

record settlement_row =
  ms_preparation :: uuid
  ms_creator :: uuid

record rotation_item_row =
  ri_invoice :: "uuid option"
  ri_preparation :: "uuid option"
  ri_payment_request_id :: "string option"
  ri_classification :: string
  ri_cancellation_outbox :: "uuid option"

record drain_row =
  dn_id :: uuid
  dn_creator :: uuid
  dn_lock_hash :: string
  dn_generation :: int
  dn_envelope :: string
  dn_status :: string
  dn_accepted :: int
  dn_terminal :: int
  dn_cancellations :: int
  dn_cancellation_set_hash :: string
  dn_item_set_hash :: string
  dn_created_at :: int
  dn_completed_at :: "int option"

record drain_item_row =
  di_drain :: uuid
  di_invoice :: uuid
  di_classification :: string

record drain_cancellation_row =
  dc_drain :: uuid
  dc_invoice :: uuid
  dc_payment_request_id :: string
  dc_outbox :: uuid

datatype address_owner = InvoiceOwner uuid | MarketplaceOwner uuid

section \<open>The database\<close>

record db =
  db_creators :: "creator_row list"
  db_assignments :: "assignment_row list"
  db_invoices :: "invoice_row list"
  db_outbox :: "outbox_row list"
  db_observations :: "observation_row list"
  db_timely :: "(uuid \<times> string) list"
  db_usdt :: "usdt_observation_row list"
  db_generations :: "generation_row list"
  db_lifecycles :: "lifecycle_row list"
  db_address_owners :: "(string \<times> address_owner) list"
  db_buyer_contacts :: "buyer_contact_row list"
  db_provider_v2 :: "provider_row list"
  db_current_samples :: "sample_row list"
  db_first_evidence :: "sample_row list"
  db_preparations :: "preparation_row list"
  db_settlements :: "settlement_row list"
  db_rotation_items :: "rotation_item_row list"
  db_drains :: "drain_row list"
  db_drain_items :: "drain_item_row list"
  db_drain_cancellations :: "drain_cancellation_row list"

definition update_where :: "('a \<Rightarrow> bool) \<Rightarrow> ('a \<Rightarrow> 'a) \<Rightarrow> 'a list \<Rightarrow> 'a list" where
  "update_where p f rows = map (\<lambda>row. if p row then f row else row) rows"

definition is_provider_v2 :: "db \<Rightarrow> uuid \<Rightarrow> bool" where
  "is_provider_v2 d invoice = list_ex (\<lambda>p. pv_invoice p = invoice) (db_provider_v2 d)"

definition find_creator :: "db \<Rightarrow> uuid \<Rightarrow> creator_row option" where
  "find_creator d i = find (\<lambda>c. cr_id c = i) (db_creators d)"

definition find_invoice :: "db \<Rightarrow> uuid \<Rightarrow> invoice_row option" where
  "find_invoice d i = find (\<lambda>v. iv_id v = i) (db_invoices d)"

lemma update_where_simps [simp]:
  "update_where p f [] = []"
  "update_where p f (x # xs) = (if p x then f x else x) # update_where p f xs"
  "length (update_where p f xs) = length xs"
  by (simp_all add: update_where_def)

lemma map_update_where:
  "(\<And>x. p x \<Longrightarrow> g (f x) = g x) \<Longrightarrow> map g (update_where p f xs) = map g xs"
  by (simp add: update_where_def)

lemma set_update_where: "set (update_where p f xs) = {if p x then f x else x | x. x \<in> set xs}"
  by (auto simp: update_where_def)

lemma update_where_nop: "(\<And>x. x \<in> set xs \<Longrightarrow> \<not> p x) \<Longrightarrow> update_where p f xs = xs"
  by (simp add: update_where_def map_idI)

end
