(* ===== verification/Invoice_Admission.thy ===== *)
theory Invoice_Admission
  imports Store_Tables
begin

text \<open>
  Admission of invoices, \<open>InvoiceStore::create_atomic\<close> and its replay lookups in
  \<open>paykit-server/src/persistence/invoices.rs\<close>: encrypted columns, reader assignments, the preflight,
  the exact replay and the admission of one invoice with its payment record and queued proposal.
  The invariant of the store and the contract of a table with a unique key are here too.
\<close>

section \<open>Reading encrypted columns\<close>

definition open_column :: "('r, 'd) env \<Rightarrow> envelope_context \<Rightarrow> string \<Rightarrow> (persistence_error, string) res" where
  "open_column env ctx envelope = map_err (\<lambda>_. CorruptOrMissing) (decrypt (env_crypto env) ctx envelope)"

definition seal_column ::
  "('r, 'd) env \<Rightarrow> string \<Rightarrow> envelope_context \<Rightarrow> string option \<Rightarrow> (persistence_error, string) res" where
  "seal_column env nonce ctx plaintext =
     bindr (ok_or plaintext CorruptOrMissing) (\<lambda>bytes.
       map_err (\<lambda>_. CorruptOrMissing) (encrypt (env_crypto env) nonce ctx bytes))"

definition decode_intent :: "('r, 'd) env \<Rightarrow> string \<Rightarrow> (persistence_error, delivery_intent) res" where
  "decode_intent env bytes =
     map_err (\<lambda>_. CorruptOrMissing) (intent_decode (env_sdk env) (intent_from_bytes env) bytes)"

definition validate_intent ::
  "('r, 'd) env \<Rightarrow> delivery_intent \<Rightarrow> string \<Rightarrow> (persistence_error, unit) res" where
  "validate_intent env intent reader =
     bindr (map_err (\<lambda>_. CorruptOrMissing) (intent_validate (env_sdk env) intent)) (\<lambda>_.
       guardr (intent_reader_pubky intent \<noteq> reader) CorruptOrMissing)"

definition validate_replay_intent ::
  "('r, 'd) env \<Rightarrow> lookup_hash \<Rightarrow> uuid \<Rightarrow> string \<Rightarrow> string \<Rightarrow> (persistence_error, unit) res" where
  "validate_replay_intent env creator_hash invoice_id invoice_envelope reader =
     bindr (open_column env (ctx_invoice creator_hash invoice_id) invoice_envelope) (\<lambda>plaintext.
     bindr (decode_intent env plaintext) (\<lambda>intent. validate_intent env intent reader))"

record assignment =
  asg_id :: uuid
  asg_child_index :: int

definition encrypt_assignment ::
  "('r, 'd) env \<Rightarrow> string \<Rightarrow> lookup_hash \<Rightarrow> uuid \<Rightarrow> int \<Rightarrow> (persistence_error, string) res" where
  "encrypt_assignment env nonce creator_hash i child_index =
     seal_column env nonce (ctx_reader_assignment creator_hash i)
       (assignment_to_bytes env \<lparr>ra1_version = 1, ra1_child_index = child_index\<rparr>)"

definition decrypt_assignment ::
  "('r, 'd) env \<Rightarrow> lookup_hash \<Rightarrow> uuid \<Rightarrow> string \<Rightarrow> (persistence_error, int) res" where
  "decrypt_assignment env creator_hash i envelope =
     bindr (open_column env (ctx_reader_assignment creator_hash i) envelope) (\<lambda>bytes.
     bindr (ok_or (assignment_from_bytes env bytes) CorruptOrMissing) (\<lambda>a.
     if ra1_version a \<noteq> 1 \<or> ra1_child_index a < 0 then Inl CorruptOrMissing
     else Inr (ra1_child_index a)))"

definition load_assignment ::
  "('r, 'd) env \<Rightarrow> db \<Rightarrow> uuid \<Rightarrow> lookup_hash \<Rightarrow> lookup_hash \<Rightarrow> lookup_hash
     \<Rightarrow> (persistence_error, assignment option) res" where
  "load_assignment env d creator_id reader_hash bundle_hash creator_hash =
     (case find (\<lambda>a. as_creator a = creator_id \<and> as_reader_hash a = reader_hash \<and> as_bundle_hash a = bundle_hash)
             (db_assignments d) of
        None \<Rightarrow> Inr None
      | Some row \<Rightarrow>
          bindr (decrypt_assignment env creator_hash (as_id row) (as_envelope row)) (\<lambda>index.
            Inr (Some \<lparr>asg_id = as_id row, asg_child_index = index\<rparr>)))"

section \<open>Replay lookups\<close>

datatype invoice_preflight = PreflightNew | PreflightExactReplay | PreflightConflict

definition joined_invoice :: "db \<Rightarrow> lookup_hash \<Rightarrow> lookup_hash \<Rightarrow> invoice_row option" where
  "joined_invoice d creator_hash bundle_hash =
     find (\<lambda>v. iv_bundle_hash v = bundle_hash \<and>
             list_ex (\<lambda>c. cr_id c = iv_creator v \<and> cr_lookup_hash c = creator_hash) (db_creators d))
       (db_invoices d)"

definition preflight :: "('r, 'd) env \<Rightarrow> db \<Rightarrow> string \<Rightarrow> string \<Rightarrow> string \<Rightarrow> invoice_preflight" where
  "preflight env d creator bundle_binding payment_request_binding =
     (let creator_hash = crypto_lookup_hash (env_crypto env) creator;
          bundle_hash = crypto_lookup_hash (env_crypto env) bundle_binding;
          payment_hash = crypto_lookup_hash (env_crypto env) payment_request_binding
      in case joined_invoice d creator_hash bundle_hash of
           None \<Rightarrow> PreflightNew
         | Some existing \<Rightarrow>
             if \<not> is_provider_v2 d (iv_id existing) \<and> iv_payment_request_hash existing = payment_hash
             then PreflightExactReplay
             else PreflightConflict)"

record atomic_invoice_result =
  ai_invoice_id :: uuid
  ai_outbox_id :: uuid
  ai_assignment_id :: uuid
  ai_child_index :: int
  ai_created_at :: int
  ai_payment_deadline :: int
  ai_replayed :: bool

definition find_creator_by_hash :: "db \<Rightarrow> lookup_hash \<Rightarrow> (persistence_error, creator_row) res" where
  "find_creator_by_hash d creator_hash =
     bindr (ok_or (find (\<lambda>c. cr_lookup_hash c = creator_hash) (db_creators d)) CorruptOrMissing) (\<lambda>creator.
     bindr (lookup_hash_from_storage CorruptOrMissing (cr_lookup_hash creator)) (\<lambda>h.
     if h \<noteq> creator_hash then Inl CorruptOrMissing else Inr creator))"

definition creator_bundle_invoice :: "db \<Rightarrow> uuid \<Rightarrow> lookup_hash \<Rightarrow> invoice_row option" where
  "creator_bundle_invoice d creator_id bundle_hash =
     find (\<lambda>v. iv_creator v = creator_id \<and> iv_bundle_hash v = bundle_hash) (db_invoices d)"

definition replay_result ::
  "('r, 'd) env \<Rightarrow> db \<Rightarrow> lookup_hash \<Rightarrow> lookup_hash \<Rightarrow> lookup_hash \<Rightarrow> lookup_hash \<Rightarrow> string
     \<Rightarrow> uuid \<Rightarrow> invoice_row \<Rightarrow> (persistence_error, atomic_invoice_result) res" where
  "replay_result env d creator_hash reader_hash bundle_hash payment_hash reader creator_id existing =
     (if is_provider_v2 d (iv_id existing) \<or> iv_payment_request_hash existing \<noteq> payment_hash
      then Inl StoreConflict
      else
        bindr (validate_replay_intent env creator_hash (iv_id existing) (iv_invoice_envelope existing) reader) (\<lambda>_.
        bindr (bindr (load_assignment env d creator_id reader_hash bundle_hash creator_hash)
                 (\<lambda>a. ok_or a CorruptOrMissing)) (\<lambda>asg.
        bindr (ok_or (find (\<lambda>ob. ob_invoice ob = Some (iv_id existing) \<and> ob_intent_kind ob = ''payment_request_proposal'')
                 (db_outbox d)) CorruptOrMissing) (\<lambda>payment_outbox.
        Inr \<lparr>ai_invoice_id = iv_id existing, ai_outbox_id = ob_id payment_outbox,
             ai_assignment_id = asg_id asg, ai_child_index = asg_child_index asg,
             ai_created_at = iv_created_at existing, ai_payment_deadline = iv_payment_deadline existing,
             ai_replayed = True\<rparr>))))"

definition exact_replay ::
  "('r, 'd) env \<Rightarrow> db \<Rightarrow> string \<Rightarrow> string \<Rightarrow> string \<Rightarrow> string \<Rightarrow> (persistence_error, atomic_invoice_result) res" where
  "exact_replay env d creator reader bundle_binding payment_binding =
     (let creator_hash = crypto_lookup_hash (env_crypto env) creator;
          reader_hash = crypto_lookup_hash (env_crypto env) reader;
          bundle_hash = crypto_lookup_hash (env_crypto env) bundle_binding;
          payment_hash = crypto_lookup_hash (env_crypto env) payment_binding
      in bindr (find_creator_by_hash d creator_hash) (\<lambda>c.
         bindr (ok_or (creator_bundle_invoice d (cr_id c) bundle_hash) CorruptOrMissing) (\<lambda>existing.
         replay_result env d creator_hash reader_hash bundle_hash payment_hash reader (cr_id c) existing)))"

section \<open>Admission of one invoice\<close>

record invoice_input =
  in_creator :: string
  in_reader :: string
  in_bundle_binding :: string
  in_lock_binding :: string
  in_payment_binding :: string
  in_expected_generation :: "int option"
  in_for_child_index :: "int \<Rightarrow> (persistence_error, delivery_intent) res"
  in_acceptance_seconds :: u64
  in_window_seconds :: u64

text \<open>Identifiers, nonces and clock readings drawn by one admission.\<close>

record create_fresh =
  fr_assignment_id :: uuid
  fr_invoice_id :: uuid
  fr_outbox_id :: uuid
  fr_assignment_nonce :: string
  fr_record_nonce :: string
  fr_invoice_nonce :: string
  fr_outbox_nonce :: string
  fr_clock :: int
  fr_transaction_now :: int

definition find_generation :: "db \<Rightarrow> uuid \<Rightarrow> lookup_hash \<Rightarrow> generation_row option" where
  "find_generation d creator lock_hash =
     find (\<lambda>g. lg_creator g = creator \<and> lg_lock_hash g = lock_hash) (db_generations d)"

definition ensure_generation :: "uuid \<Rightarrow> lookup_hash \<Rightarrow> db \<Rightarrow> db" where
  "ensure_generation creator lock_hash d =
     (case find_generation d creator lock_hash of
        Some _ \<Rightarrow> d
      | None \<Rightarrow> d\<lparr>db_generations := db_generations d @
          [\<lparr>lg_creator = creator, lg_lock_hash = lock_hash, lg_current_generation = 0,
            lg_active_drain = None, lg_last_cleanup_token = None\<rparr>]\<rparr>)"

definition insert_assignment :: "assignment_row \<Rightarrow> db \<Rightarrow> (persistence_error, db) res" where
  "insert_assignment row d =
     (if list_ex (\<lambda>a. as_id a = as_id row \<or> as_creator a = as_creator row \<and>
            as_reader_hash a = as_reader_hash row \<and> as_bundle_hash a = as_bundle_hash row) (db_assignments d)
      then Inl StoreConflict
      else Inr (d\<lparr>db_assignments := db_assignments d @ [row]\<rparr>))"

definition bump_child_index :: "uuid \<Rightarrow> db \<Rightarrow> (persistence_error, db) res" where
  "bump_child_index creator d =
     (if list_ex (\<lambda>c. cr_id c = creator \<and> i64_max \<le> cr_next_child_index c) (db_creators d)
      then Inl StoreUnavailable
      else Inr (d\<lparr>db_creators := update_where (\<lambda>c. cr_id c = creator)
             (\<lambda>c. c\<lparr>cr_next_child_index := cr_next_child_index c + 1\<rparr>) (db_creators d)\<rparr>))"

text \<open>The unique keys of the invoice table, and the registry of address owners.\<close>

definition invoice_keys_free :: "invoice_row \<Rightarrow> db \<Rightarrow> bool" where
  "invoice_keys_free row d \<longleftrightarrow>
     \<not> list_ex (\<lambda>v. iv_id v = iv_id row
        \<or> iv_creator v = iv_creator row \<and> iv_bundle_hash v = iv_bundle_hash row
        \<or> iv_creator v = iv_creator row \<and> iv_derivation_hash v = iv_derivation_hash row
        \<or> iv_payment_request_hash v = iv_payment_request_hash row
        \<or> iv_address_hash row \<noteq> None \<and> iv_address_hash v = iv_address_hash row) (db_invoices d) \<and>
     (case iv_address_hash row of
        None \<Rightarrow> True
      | Some h \<Rightarrow> list_all (\<lambda>(h', owner). h' = h \<longrightarrow> owner = InvoiceOwner (iv_id row)) (db_address_owners d))"

definition claim_address :: "invoice_row \<Rightarrow> db \<Rightarrow> db" where
  "claim_address row d =
     (case iv_address_hash row of
        None \<Rightarrow> d
      | Some h \<Rightarrow>
          if h \<in> fst ` set (db_address_owners d) then d
          else d\<lparr>db_address_owners := db_address_owners d @ [(h, InvoiceOwner (iv_id row))]\<rparr>)"

definition insert_invoice :: "invoice_row \<Rightarrow> db \<Rightarrow> (persistence_error, db) res" where
  "insert_invoice row d =
     (if \<not> invoice_keys_free row d then Inl StoreConflict
      else Inr (claim_address row (d\<lparr>db_invoices := db_invoices d @ [row]\<rparr>)))"

definition insert_outbox :: "outbox_row \<Rightarrow> db \<Rightarrow> (persistence_error, db) res" where
  "insert_outbox row d =
     (if list_ex (\<lambda>ob. ob_id ob = ob_id row) (db_outbox d) then Inl StoreUnavailable
      else Inr (d\<lparr>db_outbox := db_outbox d @ [row]\<rparr>))"

definition queued_proposal ::
  "uuid \<Rightarrow> uuid \<Rightarrow> uuid \<Rightarrow> string \<Rightarrow> lookup_hash \<Rightarrow> int \<Rightarrow> outbox_row" where
  "queued_proposal i creator invoice envelope proposal_hash now =
     \<lparr>ob_id = i, ob_creator = creator, ob_invoice = Some invoice, ob_preparation = None,
      ob_intent_envelope = envelope, ob_intent_kind = ''payment_request_proposal'', ob_status = ''queued'',
      ob_lease_owner = None, ob_claim_token = None, ob_lease_expires_at = None, ob_attempt_count = 0,
      ob_failure_count = 0, ob_next_attempt_at = now, ob_error_class = None,
      ob_sdk_outbound_message_id = None, ob_sdk_event_id = None, ob_sdk_payment_request_id = None,
      ob_proposal_lookup_hash = Some proposal_hash, ob_cancellation_target = None, ob_drain_required = False,
      ob_created_at = now\<rparr>"

text \<open>The two windows of one admission, and the deadlines they give from the clock reading.\<close>

definition admission_windows :: "invoice_input \<Rightarrow> (persistence_error, int \<times> int) res" where
  "admission_windows input =
     bindr (ok_or (i64_try_from (in_acceptance_seconds input)) StoreInvalidInput) (\<lambda>acceptance.
     bindr (ok_or (i64_try_from (in_window_seconds input)) StoreInvalidInput) (\<lambda>window.
     if acceptance = 0 \<or> window \<le> acceptance then Inl StoreInvalidInput
     else Inr (acceptance, window)))"

definition admission_deadlines ::
  "('r, 'd) env \<Rightarrow> int \<times> int \<Rightarrow> int \<Rightarrow> (persistence_error, int \<times> int) res" where
  "admission_deadlines env = (\<lambda>(acceptance, window) now.
     bindr (ok_or (time_checked_add env now (seconds acceptance)) StoreInvalidInput) (\<lambda>expires.
     bindr (ok_or (time_checked_add env now (seconds window)) StoreInvalidInput) (\<lambda>deadline.
     Inr (expires, deadline))))"

definition dated_intent ::
  "('r, 'd) env \<Rightarrow> invoice_input \<Rightarrow> int \<Rightarrow> int \<Rightarrow> int \<Rightarrow> (persistence_error, delivery_intent) res" where
  "dated_intent env input child_index expires deadline =
     bindr (in_for_child_index input child_index) (\<lambda>intent.
     bindr (ok_or (rfc3339_format (env_sdk env) expires) StoreInvalidInput) (\<lambda>expires_text.
     bindr (ok_or (rfc3339_format (env_sdk env) deadline) StoreInvalidInput) (\<lambda>deadline_text.
     bindr (map_err (\<lambda>_. CorruptOrMissing) (set_deadlines (env_sdk env) intent expires_text deadline_text)) (\<lambda>dated.
     bindr (validate_intent env dated (in_reader input)) (\<lambda>_.
     bindr (record_from_intent (env_json env) child_index dated) (\<lambda>_.
     Inr dated))))))"

definition new_invoice ::
  "('r, 'd) env \<Rightarrow> create_fresh \<Rightarrow> invoice_input \<Rightarrow> creator_row \<Rightarrow> int \<times> int \<Rightarrow> int \<times> int \<Rightarrow> int
     \<Rightarrow> payment_record \<Rightarrow> string \<Rightarrow> string \<Rightarrow> invoice_row" where
  "new_invoice env fresh input creator windows deadlines generation payment_record record_envelope invoice_envelope =
     (let c = env_crypto env in
      \<lparr>iv_id = fr_invoice_id fresh, iv_creator = cr_id creator,
       iv_reader_hash = crypto_lookup_hash c (in_reader input),
       iv_bundle_hash = crypto_lookup_hash c (in_bundle_binding input),
       iv_lock_hash = crypto_lookup_hash c (in_lock_binding input),
       iv_lock_generation = generation,
       iv_payment_request_hash = crypto_lookup_hash c (in_payment_binding input),
       iv_invoice_envelope = invoice_envelope, iv_payment_record_envelope = record_envelope,
       iv_address_hash = map_option (\<lambda>dest. bitcoin_address_lookup_hash c (pd_address dest))
         (pr_bitcoin payment_record),
       iv_derivation_hash = bitcoin_derivation_index_lookup_hash c
         (crypto_lookup_hash c (in_creator input)) (cr_next_child_index creator),
       iv_payment_status = ''undetected'', iv_confirmation_count = 0, iv_amount_matched = False,
       iv_created_at = fr_clock fresh, iv_proposal_expires_at = fst deadlines,
       iv_payment_deadline = snd deadlines, iv_acceptance_seconds = fst windows,
       iv_window_seconds = snd windows,
       iv_account_generation = map_option (\<lambda>_. cr_account_generation creator) (in_expected_generation input),
       iv_first_matched_at = None, iv_first_matched_outpoint = None, iv_expired_at = None\<rparr>)"

definition admit_new ::
  "('r, 'd) env \<Rightarrow> create_fresh \<Rightarrow> invoice_input \<Rightarrow> creator_row \<Rightarrow> int \<times> int \<Rightarrow> int \<times> int \<Rightarrow> db
     \<Rightarrow> (persistence_error, atomic_invoice_result \<times> db) res" where
  "admit_new env fresh input creator windows deadlines d =
     (let c = env_crypto env;
          creator_hash = crypto_lookup_hash c (in_creator input);
          reader_hash = crypto_lookup_hash c (in_reader input);
          bundle_hash = crypto_lookup_hash c (in_bundle_binding input);
          lock_hash = crypto_lookup_hash c (in_lock_binding input);
          child_index = cr_next_child_index creator;
          d1 = ensure_generation (cr_id creator) lock_hash d in
      if (case in_expected_generation input of
            Some expected \<Rightarrow> expected \<noteq> cr_account_generation creator | None \<Rightarrow> False)
      then Inl StoreConflict
      else
        bindr (ok_or (find_generation d1 (cr_id creator) lock_hash) StoreUnavailable) (\<lambda>generation.
        if lg_current_generation generation < 0 then Inl CorruptOrMissing
        else if lg_active_drain generation \<noteq> None then Inl StoreConflict
        else
          bindr (load_assignment env d1 (cr_id creator) reader_hash bundle_hash creator_hash) (\<lambda>existing.
          if existing \<noteq> None then Inl CorruptOrMissing
          else
            bindr (dated_intent env input child_index (fst deadlines) (snd deadlines)) (\<lambda>intent.
            bindr (encrypt_assignment env (fr_assignment_nonce fresh) creator_hash (fr_assignment_id fresh)
                     child_index) (\<lambda>assignment_envelope.
            bindr (insert_assignment \<lparr>as_id = fr_assignment_id fresh, as_creator = cr_id creator,
                     as_reader_hash = reader_hash, as_bundle_hash = bundle_hash,
                     as_envelope = assignment_envelope\<rparr> d1) (\<lambda>d2.
            bindr (bump_child_index (cr_id creator) d2) (\<lambda>d3.
            bindr (map_err (\<lambda>_. CorruptOrMissing) (proposal_payment_reference (env_sdk env) intent)) (\<lambda>reference.
            bindr (record_from_intent (env_json env) child_index intent) (\<lambda>payment_record.
            bindr (seal_column env (fr_record_nonce fresh)
                     (ctx_invoice_payment_record creator_hash (fr_invoice_id fresh))
                     (record_to_bytes env payment_record)) (\<lambda>record_envelope.
            bindr (seal_column env (fr_invoice_nonce fresh) (ctx_invoice creator_hash (fr_invoice_id fresh))
                     (intent_to_bytes env intent)) (\<lambda>invoice_envelope.
            bindr (insert_invoice (new_invoice env fresh input creator windows deadlines
                     (lg_current_generation generation) payment_record record_envelope invoice_envelope) d3) (\<lambda>d4.
            bindr (seal_column env (fr_outbox_nonce fresh)
                     (ctx_outbox_semantic_intent creator_hash (fr_outbox_id fresh))
                     (intent_to_bytes env intent)) (\<lambda>outbox_envelope.
            bindr (insert_outbox (queued_proposal (fr_outbox_id fresh) (cr_id creator) (fr_invoice_id fresh)
                     outbox_envelope (payment_request_proposal_lookup_hash c reference)
                     (fr_transaction_now fresh)) d4) (\<lambda>d5.
            Inr (\<lparr>ai_invoice_id = fr_invoice_id fresh, ai_outbox_id = fr_outbox_id fresh,
                  ai_assignment_id = fr_assignment_id fresh, ai_child_index = child_index,
                  ai_created_at = fr_clock fresh, ai_payment_deadline = snd deadlines, ai_replayed = False\<rparr>,
                 d5)))))))))))))))"

definition create_atomic ::
  "('r, 'd) env \<Rightarrow> create_fresh \<Rightarrow> invoice_input \<Rightarrow> db \<Rightarrow> (persistence_error, atomic_invoice_result \<times> db) res" where
  "create_atomic env fresh input d =
     (let c = env_crypto env;
          creator_hash = crypto_lookup_hash c (in_creator input);
          reader_hash = crypto_lookup_hash c (in_reader input);
          bundle_hash = crypto_lookup_hash c (in_bundle_binding input);
          payment_hash = crypto_lookup_hash c (in_payment_binding input) in
      bindr (admission_windows input) (\<lambda>windows.
      bindr (find_creator_by_hash d creator_hash) (\<lambda>creator.
      bindr (admission_deadlines env windows (fr_clock fresh)) (\<lambda>deadlines.
      case creator_bundle_invoice d (cr_id creator) bundle_hash of
        Some existing \<Rightarrow>
          bindr (replay_result env d creator_hash reader_hash bundle_hash payment_hash (in_reader input)
                   (cr_id creator) existing) (\<lambda>r. Inr (r, d))
      | None \<Rightarrow> admit_new env fresh input creator windows deadlines d))))"

section \<open>What one admission does\<close>

lemma ensure_generation_fields [simp]:
  "db_creators (ensure_generation c h d) = db_creators d"
  "db_assignments (ensure_generation c h d) = db_assignments d"
  "db_invoices (ensure_generation c h d) = db_invoices d"
  "db_outbox (ensure_generation c h d) = db_outbox d"
  "db_address_owners (ensure_generation c h d) = db_address_owners d"
  "db_provider_v2 (ensure_generation c h d) = db_provider_v2 d"
  "db_observations (ensure_generation c h d) = db_observations d"
  by (simp_all add: ensure_generation_def split: option.splits)

lemma claim_address_fields [simp]:
  "db_creators (claim_address row d) = db_creators d"
  "db_assignments (claim_address row d) = db_assignments d"
  "db_invoices (claim_address row d) = db_invoices d"
  "db_outbox (claim_address row d) = db_outbox d"
  "db_generations (claim_address row d) = db_generations d"
  "db_provider_v2 (claim_address row d) = db_provider_v2 d"
  "db_observations (claim_address row d) = db_observations d"
  by (simp_all add: claim_address_def split: option.splits)

lemma open_sealed_column:
  assumes "aead_correct (prims (env_crypto env))" "length nonce = nonce_length"
    and "seal_column env nonce ctx m = Inr e"
  shows "\<exists>bytes. m = Some bytes \<and> open_column env ctx e = Inr bytes"
  using assms decrypt_encrypt [OF assms(1,2)] by (auto simp: seal_column_def open_column_def)


abbreviation hash_of :: "('r, 'd) env \<Rightarrow> string \<Rightarrow> lookup_hash" where
  "hash_of env x \<equiv> crypto_lookup_hash (env_crypto env) x"

text \<open>The contract of a table with a unique key: an insertion that succeeds adds one row at the end
  and its key was free.\<close>

locale unique_table =
  fixes rows :: "db \<Rightarrow> 'row list"
    and ins :: "'row \<Rightarrow> db \<Rightarrow> (persistence_error, db) res"
    and key :: "'row \<Rightarrow> 'key"
  assumes insert_rows: "ins row d = Inr d' \<Longrightarrow> rows d' = rows d @ [row]"
    and insert_fresh: "ins row d = Inr d' \<Longrightarrow> key row \<notin> key ` set (rows d)"
begin

lemma insert_distinct: "ins row d = Inr d' \<Longrightarrow> distinct (map key (rows d)) \<Longrightarrow> distinct (map key (rows d'))"
  using insert_rows insert_fresh by fastforce

lemma find_inserted:
  assumes "ins row d = Inr d'"
  shows "find (\<lambda>x. key x = k) (rows d') = (if k = key row then Some row else find (\<lambda>x. key x = k) (rows d))"
proof -
  have "find (\<lambda>x. key x = k) (xs @ [row]) = (if k = key row then Some row else find (\<lambda>x. key x = k) xs)"
    if "key row \<notin> key ` set xs" for xs
    using that by (induction xs) auto
  then show ?thesis using insert_rows [OF assms] insert_fresh [OF assms] by simp
qed

end

definition assignment_key :: "assignment_row \<Rightarrow> uuid \<times> string \<times> string" where
  "assignment_key a = (as_creator a, as_reader_hash a, as_bundle_hash a)"

definition bundle_key :: "invoice_row \<Rightarrow> uuid \<times> string" where
  "bundle_key v = (iv_creator v, iv_bundle_hash v)"

definition derivation_key :: "invoice_row \<Rightarrow> uuid \<times> string" where
  "derivation_key v = (iv_creator v, iv_derivation_hash v)"

interpretation assignments: unique_table db_assignments insert_assignment assignment_key
  by unfold_locales (auto simp: insert_assignment_def list_ex_iff assignment_key_def split: if_splits)

interpretation assignment_ids: unique_table db_assignments insert_assignment as_id
  by unfold_locales (auto simp: insert_assignment_def list_ex_iff split: if_splits)

interpretation bundles: unique_table db_invoices insert_invoice bundle_key
  by unfold_locales
    (auto simp: insert_invoice_def invoice_keys_free_def list_ex_iff bundle_key_def split: if_splits)

interpretation derivations: unique_table db_invoices insert_invoice derivation_key
  by unfold_locales
    (auto simp: insert_invoice_def invoice_keys_free_def list_ex_iff derivation_key_def split: if_splits)

interpretation invoice_ids: unique_table db_invoices insert_invoice iv_id
  by unfold_locales
    (auto simp: insert_invoice_def invoice_keys_free_def list_ex_iff split: if_splits)

interpretation payment_requests: unique_table db_invoices insert_invoice iv_payment_request_hash
  by unfold_locales
    (auto simp: insert_invoice_def invoice_keys_free_def list_ex_iff split: if_splits)

interpretation outbox_ids: unique_table db_outbox insert_outbox ob_id
  by unfold_locales (auto simp: insert_outbox_def list_ex_iff split: if_splits)

lemma insert_assignment_frame:
  assumes "insert_assignment row d = Inr d'"
  shows "db_creators d' = db_creators d" "db_invoices d' = db_invoices d" "db_outbox d' = db_outbox d"
    "db_address_owners d' = db_address_owners d" "db_provider_v2 d' = db_provider_v2 d"
    "db_generations d' = db_generations d" "db_observations d' = db_observations d"
  using assms by (auto simp: insert_assignment_def split: if_splits)

lemma bump_child_index_frame:
  assumes "bump_child_index c d = Inr d'"
  shows "db_assignments d' = db_assignments d" "db_invoices d' = db_invoices d" "db_outbox d' = db_outbox d"
    "db_address_owners d' = db_address_owners d" "db_provider_v2 d' = db_provider_v2 d"
    "db_generations d' = db_generations d" "db_observations d' = db_observations d"
    "db_creators d' = update_where (\<lambda>row. cr_id row = c)
       (\<lambda>row. row\<lparr>cr_next_child_index := cr_next_child_index row + 1\<rparr>) (db_creators d)"
  using assms by (auto simp: bump_child_index_def split: if_splits)

lemma insert_invoice_frame:
  assumes "insert_invoice row d = Inr d'"
  shows "db_creators d' = db_creators d" "db_assignments d' = db_assignments d" "db_outbox d' = db_outbox d"
    "db_provider_v2 d' = db_provider_v2 d" "db_generations d' = db_generations d"
    "db_observations d' = db_observations d"
  using assms by (auto simp: insert_invoice_def split: if_splits)

lemma insert_outbox_frame:
  assumes "insert_outbox row d = Inr d'"
  shows "db_creators d' = db_creators d" "db_assignments d' = db_assignments d" "db_invoices d' = db_invoices d"
    "db_address_owners d' = db_address_owners d" "db_provider_v2 d' = db_provider_v2 d"
    "db_generations d' = db_generations d" "db_observations d' = db_observations d"
  using assms by (auto simp: insert_outbox_def split: if_splits)

lemma queued_proposal_fields [simp]:
  "ob_id (queued_proposal i c v e h n) = i" "ob_creator (queued_proposal i c v e h n) = c"
  "ob_invoice (queued_proposal i c v e h n) = Some v" "ob_intent_envelope (queued_proposal i c v e h n) = e"
  "ob_intent_kind (queued_proposal i c v e h n) = ''payment_request_proposal''"
  "ob_status (queued_proposal i c v e h n) = ''queued''"
  "ob_proposal_lookup_hash (queued_proposal i c v e h n) = Some h"
  by (simp_all add: queued_proposal_def)

lemma new_invoice_fields [simp]:
  "iv_id (new_invoice env f i c w dl g p re ie) = fr_invoice_id f"
  "iv_creator (new_invoice env f i c w dl g p re ie) = cr_id c"
  "iv_bundle_hash (new_invoice env f i c w dl g p re ie) = hash_of env (in_bundle_binding i)"
  "iv_reader_hash (new_invoice env f i c w dl g p re ie) = hash_of env (in_reader i)"
  "iv_lock_hash (new_invoice env f i c w dl g p re ie) = hash_of env (in_lock_binding i)"
  "iv_lock_generation (new_invoice env f i c w dl g p re ie) = g"
  "iv_payment_request_hash (new_invoice env f i c w dl g p re ie) = hash_of env (in_payment_binding i)"
  "iv_invoice_envelope (new_invoice env f i c w dl g p re ie) = ie"
  "iv_payment_record_envelope (new_invoice env f i c w dl g p re ie) = re"
  "iv_address_hash (new_invoice env f i c w dl g p re ie) =
     map_option (\<lambda>dest. bitcoin_address_lookup_hash (env_crypto env) (pd_address dest)) (pr_bitcoin p)"
  "iv_derivation_hash (new_invoice env f i c w dl g p re ie) =
     bitcoin_derivation_index_lookup_hash (env_crypto env) (hash_of env (in_creator i)) (cr_next_child_index c)"
  "iv_created_at (new_invoice env f i c w dl g p re ie) = fr_clock f"
  "iv_proposal_expires_at (new_invoice env f i c w dl g p re ie) = fst dl"
  "iv_payment_deadline (new_invoice env f i c w dl g p re ie) = snd dl"
  "iv_payment_status (new_invoice env f i c w dl g p re ie) = ''undetected''"
  by (simp_all add: new_invoice_def Let_def)

text \<open>The stages of an admission that succeeds.\<close>

lemma admit_new_Inr:
  assumes "admit_new env fresh input creator windows deadlines d = Inr (r, d')"
  obtains generation intent assignment_envelope record_envelope invoice_envelope outbox_envelope reference
    payment_record d1 d2 d3 d4
  where "d1 = ensure_generation (cr_id creator) (hash_of env (in_lock_binding input)) d"
    and "find_generation d1 (cr_id creator) (hash_of env (in_lock_binding input)) = Some generation"
    and "lg_active_drain generation = None" and "0 \<le> lg_current_generation generation"
    and "\<forall>expected. in_expected_generation input = Some expected \<longrightarrow> expected = cr_account_generation creator"
    and "load_assignment env d1 (cr_id creator) (hash_of env (in_reader input))
            (hash_of env (in_bundle_binding input)) (hash_of env (in_creator input)) = Inr None"
    and "dated_intent env input (cr_next_child_index creator) (fst deadlines) (snd deadlines) = Inr intent"
    and "encrypt_assignment env (fr_assignment_nonce fresh) (hash_of env (in_creator input))
           (fr_assignment_id fresh) (cr_next_child_index creator) = Inr assignment_envelope"
    and "insert_assignment \<lparr>as_id = fr_assignment_id fresh, as_creator = cr_id creator,
           as_reader_hash = hash_of env (in_reader input), as_bundle_hash = hash_of env (in_bundle_binding input),
           as_envelope = assignment_envelope\<rparr> d1 = Inr d2"
    and "bump_child_index (cr_id creator) d2 = Inr d3"
    and "proposal_payment_reference (env_sdk env) intent = Inr reference"
    and "record_from_intent (env_json env) (cr_next_child_index creator) intent = Inr payment_record"
    and "seal_column env (fr_record_nonce fresh)
           (ctx_invoice_payment_record (hash_of env (in_creator input)) (fr_invoice_id fresh))
           (record_to_bytes env payment_record) = Inr record_envelope"
    and "seal_column env (fr_invoice_nonce fresh) (ctx_invoice (hash_of env (in_creator input)) (fr_invoice_id fresh))
           (intent_to_bytes env intent) = Inr invoice_envelope"
    and "insert_invoice (new_invoice env fresh input creator windows deadlines
           (lg_current_generation generation) payment_record record_envelope invoice_envelope) d3 = Inr d4"
    and "seal_column env (fr_outbox_nonce fresh)
           (ctx_outbox_semantic_intent (hash_of env (in_creator input)) (fr_outbox_id fresh))
           (intent_to_bytes env intent) = Inr outbox_envelope"
    and "insert_outbox (queued_proposal (fr_outbox_id fresh) (cr_id creator) (fr_invoice_id fresh)
           outbox_envelope (payment_request_proposal_lookup_hash (env_crypto env) reference)
           (fr_transaction_now fresh)) d4 = Inr d'"
    and "r = \<lparr>ai_invoice_id = fr_invoice_id fresh, ai_outbox_id = fr_outbox_id fresh,
              ai_assignment_id = fr_assignment_id fresh, ai_child_index = cr_next_child_index creator,
              ai_created_at = fr_clock fresh, ai_payment_deadline = snd deadlines, ai_replayed = False\<rparr>"
proof -
  show ?thesis
    using assms unfolding admit_new_def Let_def
    apply (clarsimp split: if_splits)
    apply (rule that)
    apply (rule refl | assumption | auto split: option.splits)+
    done
qed

lemma create_atomic_Inr:
  assumes "create_atomic env fresh input d = Inr (r, d')"
  obtains (replayed) creator existing
    where "find_creator_by_hash d (hash_of env (in_creator input)) = Inr creator"
      and "creator_bundle_invoice d (cr_id creator) (hash_of env (in_bundle_binding input)) = Some existing"
      and "replay_result env d (hash_of env (in_creator input)) (hash_of env (in_reader input))
             (hash_of env (in_bundle_binding input)) (hash_of env (in_payment_binding input)) (in_reader input)
             (cr_id creator) existing = Inr r"
      and "d' = d" and "ai_replayed r"
  | (admitted) creator acceptance window expires deadline
    where "admission_windows input = Inr (acceptance, window)"
      and "find_creator_by_hash d (hash_of env (in_creator input)) = Inr creator"
      and "admission_deadlines env (acceptance, window) (fr_clock fresh) = Inr (expires, deadline)"
      and "creator_bundle_invoice d (cr_id creator) (hash_of env (in_bundle_binding input)) = None"
      and "admit_new env fresh input creator (acceptance, window) (expires, deadline) d = Inr (r, d')"
proof -
  have flag: "ai_replayed r'" if "replay_result env d a b c e f g h = Inr r'" for a b c e f g h r'
    using that by (auto simp: replay_result_def split: if_splits)
  from assms obtain w creator dl where w: "admission_windows input = Inr w"
    and c: "find_creator_by_hash d (hash_of env (in_creator input)) = Inr creator"
    and dl: "admission_deadlines env w (fr_clock fresh) = Inr dl"
    and rest: "(case creator_bundle_invoice d (cr_id creator) (hash_of env (in_bundle_binding input)) of
        Some existing \<Rightarrow>
          bindr (replay_result env d (hash_of env (in_creator input)) (hash_of env (in_reader input))
             (hash_of env (in_bundle_binding input)) (hash_of env (in_payment_binding input)) (in_reader input)
             (cr_id creator) existing) (\<lambda>r. Inr (r, d))
      | None \<Rightarrow> admit_new env fresh input creator w dl d) = Inr (r, d')"
    unfolding create_atomic_def Let_def by auto
  show ?thesis
  proof (cases "creator_bundle_invoice d (cr_id creator) (hash_of env (in_bundle_binding input))")
    case None
    then show ?thesis using admitted [of "fst w" "snd w" creator "fst dl" "snd dl"] w c dl rest by simp
  next
    case (Some existing)
    with rest have rr: "replay_result env d (hash_of env (in_creator input)) (hash_of env (in_reader input))
        (hash_of env (in_bundle_binding input)) (hash_of env (in_payment_binding input)) (in_reader input)
        (cr_id creator) existing = Inr r" and "d' = d"
      by auto
    then show ?thesis using replayed [OF c Some rr _ flag [OF rr]] by blast
  qed
qed

lemma find_creator_by_hash_Inr:
  "find_creator_by_hash d h = Inr c \<longleftrightarrow> find (\<lambda>c. cr_lookup_hash c = h) (db_creators d) = Some c \<and> length h = 32"
  by (auto simp: find_creator_by_hash_def lookup_hash_from_storage_def find_Some_iff split: if_splits)

lemma load_assignment_None:
  "load_assignment env d c rh bh ch = Inr None \<longleftrightarrow>
     find (\<lambda>a. assignment_key a = (c, rh, bh)) (db_assignments d) = None"
  by (auto simp: load_assignment_def assignment_key_def split: option.splits)

lemma creator_bundle_invoice_key:
  "creator_bundle_invoice d c h = find (\<lambda>v. bundle_key v = (c, h)) (db_invoices d)"
  by (simp add: creator_bundle_invoice_def bundle_key_def)

section \<open>The store invariant\<close>

text \<open>Unique keys, references between tables, and the owner registry of receiving addresses.\<close>

definition keys_ok :: "db \<Rightarrow> bool" where
  "keys_ok d \<longleftrightarrow> distinct (map cr_id (db_creators d)) \<and> distinct (map cr_lookup_hash (db_creators d)) \<and>
     distinct (map as_id (db_assignments d)) \<and> distinct (map assignment_key (db_assignments d)) \<and>
     distinct (map iv_id (db_invoices d)) \<and> distinct (map bundle_key (db_invoices d)) \<and>
     distinct (map derivation_key (db_invoices d)) \<and> distinct (map iv_payment_request_hash (db_invoices d)) \<and>
     distinct (map ob_id (db_outbox d))"

definition references_ok :: "db \<Rightarrow> bool" where
  "references_ok d \<longleftrightarrow>
     (\<forall>v \<in> set (db_invoices d). iv_creator v \<in> cr_id ` set (db_creators d)) \<and>
     (\<forall>ob \<in> set (db_outbox d). \<forall>i. ob_invoice ob = Some i \<longrightarrow> i \<in> iv_id ` set (db_invoices d)) \<and>
     (\<forall>p \<in> set (db_provider_v2 d). pv_invoice p \<in> iv_id ` set (db_invoices d)) \<and>
     (\<forall>c \<in> set (db_creators d). 0 \<le> cr_next_child_index c)"

definition addresses_ok :: "db \<Rightarrow> bool" where
  "addresses_ok d \<longleftrightarrow> distinct (map fst (db_address_owners d)) \<and>
     (\<forall>v \<in> set (db_invoices d). \<forall>h. iv_address_hash v = Some h \<longrightarrow>
        (h, InvoiceOwner (iv_id v)) \<in> set (db_address_owners d))"

definition deadlines_ok :: "db \<Rightarrow> bool" where
  "deadlines_ok d \<longleftrightarrow> (\<forall>v \<in> set (db_invoices d).
     iv_created_at v < iv_proposal_expires_at v \<and> iv_proposal_expires_at v < iv_payment_deadline v)"

definition store_ok :: "db \<Rightarrow> bool" where
  "store_ok d \<longleftrightarrow> keys_ok d \<and> references_ok d \<and> addresses_ok d \<and> deadlines_ok d"

text \<open>What the program relies on about the clock type: a checked addition is the sum.\<close>

definition clock_adds :: "('r, 'd) env \<Rightarrow> bool" where
  "clock_adds env \<longleftrightarrow> (\<forall>t x s. time_checked_add env t x = Some s \<longrightarrow> s = t + x)"

lemma insert_invoice_addresses:
  assumes "insert_invoice row d = Inr d'" "addresses_ok d"
  shows "addresses_ok d'"
proof -
  have free: "invoice_keys_free row d" and d': "d' = claim_address row (d\<lparr>db_invoices := db_invoices d @ [row]\<rparr>)"
    using assms(1) by (auto simp: insert_invoice_def split: if_splits)
  show ?thesis
  proof (cases "iv_address_hash row")
    case None
    then show ?thesis using assms(2) d' by (auto simp: addresses_ok_def claim_address_def)
  next
    case (Some h)
    then have owner: "(h, w) \<in> set (db_address_owners d) \<Longrightarrow> w = InvoiceOwner (iv_id row)" for w
      using free by (auto simp: invoice_keys_free_def list_all_iff)
    show ?thesis
      using assms(2) d' Some owner by (auto simp: addresses_ok_def claim_address_def)
  qed
qed

lemma addresses_unshared:
  assumes "addresses_ok d" "distinct (map iv_id (db_invoices d))"
    "v \<in> set (db_invoices d)" "w \<in> set (db_invoices d)" "iv_address_hash v = Some h" "iv_address_hash w = Some h"
  shows "v = w"
proof -
  have "iv_id v = iv_id w"
    using assms(1,3-6) by (auto simp: addresses_ok_def dest: eq_key_imp_eq_value)
  then show ?thesis using assms(2-4) by (auto simp: distinct_map inj_on_def)
qed

lemma admission_deadlines_order:
  assumes "clock_adds env" "admission_windows input = Inr (a, w)" "admission_deadlines env (a, w) now = Inr (e, l)"
  shows "now < e \<and> e < l"
proof -
  have "0 < a" "a < w"
    using assms(2) unsigned_greater_eq [of "in_acceptance_seconds input", where ?'a = int]
    by (auto simp: admission_windows_def order.strict_iff_order split: if_splits)
  moreover have "e = now + seconds a" "l = now + seconds w"
    using assms(1,3) by (auto simp: admission_deadlines_def clock_adds_def)
  ultimately show ?thesis by simp
qed

lemmas frames = insert_assignment_frame bump_child_index_frame insert_invoice_frame insert_outbox_frame

lemma admit_new_rows:
  assumes "admit_new env fresh input creator windows deadlines d = Inr (r, d')"
  obtains generation payment_record record_envelope invoice_envelope assignment_envelope outbox_envelope reference
    intent
  where "db_invoices d' = db_invoices d @ [new_invoice env fresh input creator windows deadlines
           generation payment_record record_envelope invoice_envelope]"
    and "db_assignments d' = db_assignments d @ [\<lparr>as_id = fr_assignment_id fresh, as_creator = cr_id creator,
           as_reader_hash = hash_of env (in_reader input), as_bundle_hash = hash_of env (in_bundle_binding input),
           as_envelope = assignment_envelope\<rparr>]"
    and "db_outbox d' = db_outbox d @ [queued_proposal (fr_outbox_id fresh) (cr_id creator) (fr_invoice_id fresh)
           outbox_envelope (payment_request_proposal_lookup_hash (env_crypto env) reference)
           (fr_transaction_now fresh)]"
    and "db_creators d' = update_where (\<lambda>row. cr_id row = cr_id creator)
           (\<lambda>row. row\<lparr>cr_next_child_index := cr_next_child_index row + 1\<rparr>) (db_creators d)"
    and "db_provider_v2 d' = db_provider_v2 d"
    and "fr_invoice_id fresh \<notin> iv_id ` set (db_invoices d)"
    and "dated_intent env input (cr_next_child_index creator) (fst deadlines) (snd deadlines) = Inr intent"
    and "encrypt_assignment env (fr_assignment_nonce fresh) (hash_of env (in_creator input))
           (fr_assignment_id fresh) (cr_next_child_index creator) = Inr assignment_envelope"
    and "seal_column env (fr_invoice_nonce fresh) (ctx_invoice (hash_of env (in_creator input)) (fr_invoice_id fresh))
           (intent_to_bytes env intent) = Inr invoice_envelope"
    and "record_from_intent (env_json env) (cr_next_child_index creator) intent = Inr payment_record"
    and "seal_column env (fr_record_nonce fresh)
           (ctx_invoice_payment_record (hash_of env (in_creator input)) (fr_invoice_id fresh))
           (record_to_bytes env payment_record) = Inr record_envelope"
    and "seal_column env (fr_outbox_nonce fresh)
           (ctx_outbox_semantic_intent (hash_of env (in_creator input)) (fr_outbox_id fresh))
           (intent_to_bytes env intent) = Inr outbox_envelope"
    and "proposal_payment_reference (env_sdk env) intent = Inr reference"
    and "find (\<lambda>a. assignment_key a = (cr_id creator, hash_of env (in_reader input),
           hash_of env (in_bundle_binding input))) (db_assignments d) = None"
    and "r = \<lparr>ai_invoice_id = fr_invoice_id fresh, ai_outbox_id = fr_outbox_id fresh,
              ai_assignment_id = fr_assignment_id fresh, ai_child_index = cr_next_child_index creator,
              ai_created_at = fr_clock fresh, ai_payment_deadline = snd deadlines, ai_replayed = False\<rparr>"
proof (rule admit_new_Inr [OF assms], goal_cases)
  case (1 generation intent ae re ie oe reference payment_record d1 d2 d3 d4)
  note a = 1(10) and b = 1(11) and v = 1(16) and ob = 1(18)
  note rows = assignments.insert_rows [OF a] bundles.insert_rows [OF v] outbox_ids.insert_rows [OF ob]
    frames(1-7) [OF a] frames(8-15) [OF b] frames(16-21) [OF v] frames(22-) [OF ob]
  have none: "find (\<lambda>a. assignment_key a = (cr_id creator, hash_of env (in_reader input),
           hash_of env (in_bundle_binding input))) (db_assignments d) = None"
    using 1(7) by (simp add: 1(2) load_assignment_None)
  have "fr_invoice_id fresh \<notin> iv_id ` set (db_invoices d)"
    using invoice_ids.insert_fresh [OF v] by (simp add: rows 1(2))
  from 1(1) [OF _ _ _ _ _ this 1(8,9,15,13,14,17,12) none 1(19)] show ?case
    by (simp add: rows 1(2))
qed

lemma update_child_index_keys [simp]:
  "map cr_id (update_where p (\<lambda>row. row\<lparr>cr_next_child_index := f row\<rparr>) xs) = map cr_id xs"
  "map cr_lookup_hash (update_where p (\<lambda>row. row\<lparr>cr_next_child_index := f row\<rparr>) xs) = map cr_lookup_hash xs"
  by (simp_all add: map_update_where)

lemma update_child_index_ids [simp]:
  "cr_id ` set (update_where p (\<lambda>row. row\<lparr>cr_next_child_index := f row\<rparr>) xs) = cr_id ` set xs"
  by (induction xs) auto

lemma admit_new_keys:
  assumes "admit_new env fresh input creator windows deadlines d = Inr (r, d')" "keys_ok d"
  shows "keys_ok d'"
proof (rule admit_new_Inr [OF assms(1)], goal_cases)
  case (1 generation intent ae re ie oe reference payment_record d1 d2 d3 d4)
  note a = 1(9) and b = 1(10) and v = 1(15) and ob = 1(17)
  note frame = frames(1-7) [OF a] frames(8-15) [OF b] frames(16-21) [OF v] frames(22-) [OF ob]
  note inserted = assignments.insert_distinct [OF a] assignment_ids.insert_distinct [OF a]
    bundles.insert_distinct [OF v] derivations.insert_distinct [OF v] invoice_ids.insert_distinct [OF v]
    payment_requests.insert_distinct [OF v] outbox_ids.insert_distinct [OF ob]
  from assms(2) inserted show ?case by (simp add: keys_ok_def frame 1(1))
qed

lemma admit_new_addresses:
  assumes "admit_new env fresh input creator windows deadlines d = Inr (r, d')" "addresses_ok d"
  shows "addresses_ok d'"
proof (rule admit_new_Inr [OF assms(1)], goal_cases)
  case (1 generation intent ae re ie oe reference payment_record d1 d2 d3 d4)
  note a = 1(9) and b = 1(10) and v = 1(15) and ob = 1(17)
  have "addresses_ok d3"
    using assms(2) by (simp add: addresses_ok_def frames(1-7) [OF a] frames(8-15) [OF b] 1(1))
  from insert_invoice_addresses [OF v this] show ?case
    by (simp add: addresses_ok_def frames(22-) [OF ob])
qed

lemma admit_new_references:
  assumes new: "admit_new env fresh input creator windows deadlines d = Inr (r, d')"
    and "references_ok d" "creator \<in> set (db_creators d)"
  shows "references_ok d'"
proof (rule admit_new_rows [OF new], goal_cases)
  case 1
  have "\<forall>c \<in> set (db_creators d'). 0 \<le> cr_next_child_index c"
    using assms(2) by (auto simp: references_ok_def 1(4) set_update_where)
  then show ?case
    using assms(2,3) by (auto simp: references_ok_def 1(1,3,4,5))
qed

lemma admit_new_deadlines:
  assumes new: "admit_new env fresh input creator windows deadlines d = Inr (r, d')"
    and "deadlines_ok d" "fr_clock fresh < fst deadlines" "fst deadlines < snd deadlines"
  shows "deadlines_ok d'"
  by (rule admit_new_rows [OF new]) (use assms(2-) in \<open>simp add: deadlines_ok_def\<close>)

text \<open>C11: Every admission keeps the store sound: creators, assignments, invoices and outbox rows keep
  their unique keys, no row refers to a missing one, every invoice expires as a proposal after it is
  created and before its payment deadline, and no Bitcoin receiving address is ever shared by two invoices
  (the approved token address of a creator is shared by design and is not one of them).\<close>

theorem create_atomic_preserves_store:
  assumes "store_ok d" "clock_adds env" "create_atomic env fresh input d = Inr (r, d')"
  shows "store_ok d' \<and>
    (\<forall>v \<in> set (db_invoices d'). \<forall>w \<in> set (db_invoices d').
       v \<noteq> w \<longrightarrow> iv_address_hash v \<noteq> None \<longrightarrow> iv_address_hash v \<noteq> iv_address_hash w)"
proof -
  have "store_ok d'"
    using assms(3)
  proof (cases rule: create_atomic_Inr)
    case replayed
    then show ?thesis using assms(1) by simp
  next
    case (admitted creator acceptance window expires deadline)
    have "creator \<in> set (db_creators d)"
      using admitted(2) by (auto simp: find_creator_by_hash_Inr find_Some_iff)
    then show ?thesis
      using assms(1) admission_deadlines_order [OF assms(2) admitted(1,3)] admitted(5)
        admit_new_keys admit_new_references admit_new_addresses admit_new_deadlines
      unfolding store_ok_def by fastforce
  qed
  then show ?thesis
    using addresses_unshared by (fastforce simp: store_ok_def keys_ok_def)
qed

section \<open>Replays\<close>

text \<open>What the program relies on about the binary codec and the random source: a stored value reads
  back as itself, and nonces have the length of the cipher.\<close>

definition codecs_ok :: "('r, 'd) env \<Rightarrow> bool" where
  "codecs_ok env \<longleftrightarrow>
     (\<forall>x bytes. intent_to_bytes env x = Some bytes \<longrightarrow> intent_from_bytes env bytes = Some x) \<and>
     (\<forall>x bytes. assignment_to_bytes env x = Some bytes \<longrightarrow> assignment_from_bytes env bytes = Some x) \<and>
     (\<forall>x bytes. record_to_bytes env x = Some bytes \<longrightarrow> record_from_bytes env bytes = Some x)"

definition nonces_ok :: "create_fresh \<Rightarrow> bool" where
  "nonces_ok fresh \<longleftrightarrow> length (fr_assignment_nonce fresh) = nonce_length \<and>
     length (fr_record_nonce fresh) = nonce_length \<and> length (fr_invoice_nonce fresh) = nonce_length \<and>
     length (fr_outbox_nonce fresh) = nonce_length"

lemma decode_sealed_intent:
  assumes "aead_correct (prims (env_crypto env))" "codecs_ok env" "length nonce = nonce_length"
    and "seal_column env nonce ctx (intent_to_bytes env intent) = Inr e" "intent_validate (env_sdk env) intent = Inr ()"
  shows "bindr (open_column env ctx e) (decode_intent env) = Inr intent"
  using open_sealed_column [OF assms(1,3,4)] assms(2,5)
  by (auto simp: codecs_ok_def decode_intent_def intent_decode_def)

lemma decrypt_encrypt_assignment:
  assumes "aead_correct (prims (env_crypto env))" "codecs_ok env" "length nonce = nonce_length" "0 \<le> index"
    and "encrypt_assignment env nonce ch i index = Inr e"
  shows "decrypt_assignment env ch i e = Inr index"
proof -
  from open_sealed_column [OF assms(1,3) assms(5) [unfolded encrypt_assignment_def]] obtain bytes
    where "assignment_to_bytes env \<lparr>ra1_version = 1, ra1_child_index = index\<rparr> = Some bytes"
      and opened: "open_column env (ctx_reader_assignment ch i) e = Inr bytes"
    by auto
  then have "assignment_from_bytes env bytes = Some \<lparr>ra1_version = 1, ra1_child_index = index\<rparr>"
    using assms(2) by (simp add: codecs_ok_def)
  then show ?thesis using assms(4) by (simp add: decrypt_assignment_def opened)
qed

lemma dated_intent_Inr:
  assumes "dated_intent env input index e l = Inr intent"
  shows "intent_validate (env_sdk env) intent = Inr ()" "validate_intent env intent (in_reader input) = Inr ()"
  using assms by (auto simp: dated_intent_def validate_intent_def)

lemma find_snoc: "find p (xs @ [x]) = (case find p xs of Some y \<Rightarrow> Some y | None \<Rightarrow> if p x then Some x else None)"
  by (induction xs) auto

lemma find_update_child_index:
  "find (\<lambda>c. cr_lookup_hash c = h) (update_where p (\<lambda>row. row\<lparr>cr_next_child_index := f row\<rparr>) xs) =
     map_option (\<lambda>row. if p row then row\<lparr>cr_next_child_index := f row\<rparr> else row) (find (\<lambda>c. cr_lookup_hash c = h) xs)"
  by (induction xs) auto

lemma creator_hash_unique:
  assumes "keys_ok d" "find (\<lambda>c. cr_lookup_hash c = h) (db_creators d) = Some creator"
  shows "list_ex (\<lambda>c. cr_id c = i \<and> cr_lookup_hash c = h) (db_creators d) \<longleftrightarrow> i = cr_id creator"
proof -
  have c: "creator \<in> set (db_creators d)" "cr_lookup_hash creator = h"
    using assms(2) by (auto simp: find_Some_iff)
  have "inj_on cr_lookup_hash (set (db_creators d))"
    using assms(1) by (simp add: keys_ok_def distinct_map)
  then have "c = creator" if "c \<in> set (db_creators d)" "cr_lookup_hash c = h" for c
    using that c by (auto dest: inj_onD)
  with c show ?thesis unfolding list_ex_iff by blast
qed

lemma joined_invoice_creator:
  assumes "keys_ok d" "find (\<lambda>c. cr_lookup_hash c = h) (db_creators d) = Some creator"
  shows "joined_invoice d h b = creator_bundle_invoice d (cr_id creator) b"
  unfolding joined_invoice_def creator_bundle_invoice_def creator_hash_unique [OF assms]
  by (rule arg_cong [where f = "\<lambda>p. find p (db_invoices d)"]) auto

lemma fresh_invoice_unreferenced:
  assumes "references_ok d" "i \<notin> iv_id ` set (db_invoices d)"
  shows "\<not> is_provider_v2 d i" "\<forall>ob \<in> set (db_outbox d). ob_invoice ob \<noteq> Some i"
  using assms unfolding references_ok_def is_provider_v2_def list_ex_iff by blast+

text \<open>The replay of a bundle that was just admitted.\<close>

lemma admit_new_replay:
  assumes new: "admit_new env fresh input creator windows deadlines d = Inr (r, d')"
    and ok: "aead_correct (prims (env_crypto env))" "codecs_ok env" "nonces_ok fresh"
    and refs: "references_ok d" and c: "creator \<in> set (db_creators d)"
    and none: "creator_bundle_invoice d (cr_id creator) (hash_of env (in_bundle_binding input)) = None"
  obtains v where
    "creator_bundle_invoice d' (cr_id creator) (hash_of env (in_bundle_binding input)) = Some v"
    "\<not> is_provider_v2 d' (iv_id v)" "iv_payment_request_hash v = hash_of env (in_payment_binding input)"
    "replay_result env d' (hash_of env (in_creator input)) (hash_of env (in_reader input))
       (hash_of env (in_bundle_binding input)) (hash_of env (in_payment_binding input)) (in_reader input)
       (cr_id creator) v = Inr (r\<lparr>ai_replayed := True\<rparr>)"
proof (rule admit_new_rows [OF new], goal_cases)
  case (1 generation payment_record re ie ae oe reference intent)
  let ?v = "new_invoice env fresh input creator windows deadlines generation payment_record re ie"
  have v: "creator_bundle_invoice d' (cr_id creator) (hash_of env (in_bundle_binding input)) = Some ?v"
    using none by (simp add: creator_bundle_invoice_def 1(2) find_snoc)
  have v2: "\<not> is_provider_v2 d' (iv_id ?v)"
    using fresh_invoice_unreferenced(1) [OF refs 1(7)] by (simp add: is_provider_v2_def 1(6))
  have "bindr (open_column env (ctx_invoice (hash_of env (in_creator input)) (fr_invoice_id fresh)) ie)
      (decode_intent env) = Inr intent"
    using decode_sealed_intent [OF ok(1,2) _ 1(10)] dated_intent_Inr [OF 1(8)] ok(3) by (simp add: nonces_ok_def)
  then have intent: "validate_replay_intent env (hash_of env (in_creator input)) (fr_invoice_id fresh) ie
      (in_reader input) = Inr ()"
    using dated_intent_Inr [OF 1(8)] by (auto simp: validate_replay_intent_def)
  have "0 \<le> cr_next_child_index creator" using refs c by (auto simp: references_ok_def)
  then have "decrypt_assignment env (hash_of env (in_creator input)) (fr_assignment_id fresh) ae =
      Inr (cr_next_child_index creator)"
    using decrypt_encrypt_assignment [OF ok(1,2) _ _ 1(9)] ok(3) by (simp add: nonces_ok_def)
  then have assignment: "load_assignment env d' (cr_id creator) (hash_of env (in_reader input))
      (hash_of env (in_bundle_binding input)) (hash_of env (in_creator input)) =
      Inr (Some \<lparr>asg_id = fr_assignment_id fresh, asg_child_index = cr_next_child_index creator\<rparr>)"
    using 1(15) by (simp add: load_assignment_def 1(3) find_snoc assignment_key_def)
  have "find (\<lambda>ob. ob_invoice ob = Some (fr_invoice_id fresh) \<and> ob_intent_kind ob = ''payment_request_proposal'')
      (db_outbox d) = None"
    using fresh_invoice_unreferenced(2) [OF refs 1(7)] by (auto simp: find_None_iff)
  then show ?case
    using 1(1) [OF v v2] intent assignment v2
    by (simp add: replay_result_def 1(4,16) find_snoc)
qed

text \<open>C12: A repeated admission of the same payment request adds nothing: it returns the first result,
  marked as a replay, and leaves the store unchanged; the early replay check and the preflight
  recognise it too.\<close>

theorem create_atomic_idempotent:
  assumes "store_ok d" "aead_correct (prims (env_crypto env))" "codecs_ok env" "nonces_ok fresh"
    and "create_atomic env fresh input d = Inr (r, d')" "\<not> ai_replayed r"
    and "admission_windows input = Inr windows" "admission_deadlines env windows (fr_clock fresh') = Inr deadlines"
  shows "create_atomic env fresh' input d' = Inr (r\<lparr>ai_replayed := True\<rparr>, d') \<and>
    exact_replay env d' (in_creator input) (in_reader input) (in_bundle_binding input) (in_payment_binding input) =
      Inr (r\<lparr>ai_replayed := True\<rparr>) \<and>
    preflight env d' (in_creator input) (in_bundle_binding input) (in_payment_binding input) = PreflightExactReplay"
  using assms(5)
proof (cases rule: create_atomic_Inr)
  case replayed
  then show ?thesis using assms(6) by simp
next
  case (admitted creator acceptance window expires deadline)
  have c: "find (\<lambda>c. cr_lookup_hash c = hash_of env (in_creator input)) (db_creators d) = Some creator"
    and len: "length (hash_of env (in_creator input)) = 32"
    using admitted(2) by (simp_all add: find_creator_by_hash_Inr)
  then have mem: "creator \<in> set (db_creators d)" by (auto simp: find_Some_iff)
  have refs: "references_ok d" and keys: "keys_ok d'"
    using assms(1) admit_new_keys [OF admitted(5)] by (simp_all add: store_ok_def)
  obtain creator' where c': "find_creator_by_hash d' (hash_of env (in_creator input)) = Inr creator'"
    and same: "cr_id creator' = cr_id creator"
    using c len by (rule_tac admit_new_rows [OF admitted(5)])
      (auto simp: find_creator_by_hash_Inr find_update_child_index)
  from admit_new_replay [OF admitted(5) assms(2-4) refs mem admitted(4)] obtain v where
    v: "creator_bundle_invoice d' (cr_id creator') (hash_of env (in_bundle_binding input)) = Some v"
      "\<not> is_provider_v2 d' (iv_id v)" "iv_payment_request_hash v = hash_of env (in_payment_binding input)"
      "replay_result env d' (hash_of env (in_creator input)) (hash_of env (in_reader input))
       (hash_of env (in_bundle_binding input)) (hash_of env (in_payment_binding input)) (in_reader input)
       (cr_id creator') v = Inr (r\<lparr>ai_replayed := True\<rparr>)"
    using same by auto
  have "joined_invoice d' (hash_of env (in_creator input)) (hash_of env (in_bundle_binding input)) = Some v"
    using joined_invoice_creator [OF keys] c' v(1) by (simp add: find_creator_by_hash_Inr)
  then show ?thesis
    using v c' assms(7,8) by (simp add: create_atomic_def exact_replay_def preflight_def)
qed

text \<open>C13: The preflight, the early replay check and the admission itself agree on every bundle: a
  bundle bound to another request or to a provider-v2 invoice is a conflict in all of them and changes
  nothing, an equal request is a replay in all of them, and only an unknown bundle is admitted.\<close>

theorem preflight_agrees:
  assumes "keys_ok d" "find_creator_by_hash d (hash_of env (in_creator input)) = Inr creator"
    and "admission_windows input = Inr windows" "admission_deadlines env windows (fr_clock fresh) = Inr deadlines"
  shows "case preflight env d (in_creator input) (in_bundle_binding input) (in_payment_binding input) of
      PreflightConflict \<Rightarrow> create_atomic env fresh input d = Inl StoreConflict \<and>
        exact_replay env d (in_creator input) (in_reader input) (in_bundle_binding input) (in_payment_binding input)
          = Inl StoreConflict
    | PreflightExactReplay \<Rightarrow> create_atomic env fresh input d =
        bindr (exact_replay env d (in_creator input) (in_reader input) (in_bundle_binding input)
                 (in_payment_binding input)) (\<lambda>r. Inr (r, d))
    | PreflightNew \<Rightarrow> create_atomic env fresh input d = admit_new env fresh input creator windows deadlines d \<and>
        exact_replay env d (in_creator input) (in_reader input) (in_bundle_binding input) (in_payment_binding input)
          = Inl CorruptOrMissing"
proof -
  have j: "joined_invoice d (hash_of env (in_creator input)) h = creator_bundle_invoice d (cr_id creator) h" for h
    using joined_invoice_creator [OF assms(1)] assms(2) by (simp add: find_creator_by_hash_Inr)
  show ?thesis
  proof (cases "creator_bundle_invoice d (cr_id creator) (hash_of env (in_bundle_binding input))")
    case None
    then show ?thesis
      by (simp add: preflight_def create_atomic_def exact_replay_def j assms(2-))
  next
    case (Some v)
    then show ?thesis
      by (simp add: preflight_def create_atomic_def exact_replay_def j assms(2-) replay_result_def Let_def)
  qed
qed

text \<open>C14: No invoice is admitted on a lock whose payments are being drained, or for a payload prepared
  from an older receiving account of the creator: both are conflicts.\<close>

theorem create_atomic_fenced:
  assumes "find_creator_by_hash d (hash_of env (in_creator input)) = Inr creator"
    and "creator_bundle_invoice d (cr_id creator) (hash_of env (in_bundle_binding input)) = None"
    and "(\<exists>g drain. find_generation d (cr_id creator) (hash_of env (in_lock_binding input)) = Some g \<and>
            lg_active_drain g = Some drain \<and> 0 \<le> lg_current_generation g) \<or>
         (\<exists>expected. in_expected_generation input = Some expected \<and> expected \<noteq> cr_account_generation creator)"
    and "admission_windows input = Inr windows" "admission_deadlines env windows (fr_clock fresh) = Inr deadlines"
  shows "create_atomic env fresh input d = Inl StoreConflict"
proof -
  have "admit_new env fresh input creator windows deadlines d = Inl StoreConflict"
    using assms(3) by (auto simp: admit_new_def Let_def ensure_generation_def split: option.splits)
  then show ?thesis using assms by (simp add: create_atomic_def)
qed

text \<open>C15: One admission records one invoice, one reader assignment and one queued proposal.  The child
  index is the creator's next one, which then moves on by one; the deadlines are the clock plus the two
  windows; the stored invoice and the queued work both open to the same validated proposal for the
  reader, and the payment record and the assignment open to that child index.\<close>

theorem create_atomic_effect:
  assumes "aead_correct (prims (env_crypto env))" "codecs_ok env" "nonces_ok fresh" "clock_adds env" "store_ok d"
    and "create_atomic env fresh input d = Inr (r, d')" "\<not> ai_replayed r"
  shows "\<exists>creator v asg ob intent rec.
    creator \<in> set (db_creators d) \<and> cr_lookup_hash creator = hash_of env (in_creator input) \<and>
    ai_child_index r = cr_next_child_index creator \<and>
    db_creators d' = update_where (\<lambda>row. cr_id row = cr_id creator)
      (\<lambda>row. row\<lparr>cr_next_child_index := cr_next_child_index row + 1\<rparr>) (db_creators d) \<and>
    db_invoices d' = db_invoices d @ [v] \<and> db_assignments d' = db_assignments d @ [asg] \<and>
    db_outbox d' = db_outbox d @ [ob] \<and> ob_status ob = ''queued'' \<and> ob_invoice ob = Some (iv_id v) \<and>
    iv_payment_deadline v = fr_clock fresh + seconds (uint (in_window_seconds input)) \<and>
    iv_proposal_expires_at v = fr_clock fresh + seconds (uint (in_acceptance_seconds input)) \<and>
    bindr (open_column env (ctx_invoice (hash_of env (in_creator input)) (iv_id v)) (iv_invoice_envelope v))
      (decode_intent env) = Inr intent \<and>
    bindr (open_column env (ctx_outbox_semantic_intent (hash_of env (in_creator input)) (ob_id ob))
      (ob_intent_envelope ob)) (decode_intent env) = Inr intent \<and>
    validate_intent env intent (in_reader input) = Inr () \<and>
    record_from_intent (env_json env) (ai_child_index r) intent = Inr rec \<and>
    bindr (open_column env (ctx_invoice_payment_record (hash_of env (in_creator input)) (iv_id v))
      (iv_payment_record_envelope v)) (\<lambda>b. ok_or (record_from_bytes env b) CorruptOrMissing) = Inr rec \<and>
    decrypt_assignment env (hash_of env (in_creator input)) (as_id asg) (as_envelope asg) = Inr (ai_child_index r)"
  using assms(6)
proof (cases rule: create_atomic_Inr)
  case replayed
  then show ?thesis using assms(7) by simp
next
  case (admitted creator acceptance window expires deadline)
  have creator: "creator \<in> set (db_creators d)" "cr_lookup_hash creator = hash_of env (in_creator input)"
    using admitted(2) by (auto simp: find_creator_by_hash_Inr find_Some_iff)
  have index: "0 \<le> cr_next_child_index creator"
    using assms(5) creator(1) by (simp add: store_ok_def references_ok_def)
  have times: "expires = fr_clock fresh + seconds (uint (in_acceptance_seconds input))"
    "deadline = fr_clock fresh + seconds (uint (in_window_seconds input))"
    using assms(4) admitted(1,3)
    by (auto simp: clock_adds_def admission_deadlines_def admission_windows_def split: if_splits)
  show ?thesis
  proof (rule admit_new_rows [OF admitted(5)], goal_cases)
    case (1 generation payment_record re ie ae oe reference intent)
    have rec: "bindr (open_column env (ctx_invoice_payment_record (hash_of env (in_creator input)) (fr_invoice_id fresh))
        re) (\<lambda>b. ok_or (record_from_bytes env b) CorruptOrMissing) = Inr payment_record"
      using open_sealed_column [OF assms(1) _ 1(11)] assms(2,3) by (auto simp: codecs_ok_def nonces_ok_def)
    have opened: "bindr (open_column env (ctx_invoice (hash_of env (in_creator input)) (fr_invoice_id fresh)) ie)
        (decode_intent env) = Inr intent"
      "bindr (open_column env (ctx_outbox_semantic_intent (hash_of env (in_creator input)) (fr_outbox_id fresh)) oe)
        (decode_intent env) = Inr intent"
      using decode_sealed_intent [OF assms(1,2) _ 1(9)] decode_sealed_intent [OF assms(1,2) _ 1(12)]
        dated_intent_Inr [OF 1(7)] assms(3) unfolding nonces_ok_def by blast+
    have "decrypt_assignment env (hash_of env (in_creator input)) (fr_assignment_id fresh) ae =
        Inr (cr_next_child_index creator)"
      using decrypt_encrypt_assignment [OF assms(1,2) _ index 1(8)] assms(3) by (simp add: nonces_ok_def)
    then show ?case
      using 1(10) dated_intent_Inr(2) [OF 1(7)]
      by (intro exI [of _ creator] exI conjI, unfold 1(1-4))
        (rule refl creator opened rec | simp add: times 1(15) del: bindr_eq_Inr)+
  qed
qed

section \<open>A concrete admission\<close>

definition example_dated :: delivery_intent where
  "example_dated = example_quote_intent\<lparr>intent_operation := PaymentRequestProposal
     \<lparr>pt_amount = decimal_amount Btc 500, pt_asset = ''btc'', pt_rates = [], pt_payment_reference = ''ref'',
      pt_proposal_expires_at = Some (dec_show 1000000000), pt_payment_deadline = Some (dec_show 2000000000),
      pt_accepted_endpoint_identifiers = [''btc-bitcoin-p2wpkh''],
      pt_payment_endpoints = [(''btc-bitcoin-p2wpkh'', ''payload'')], pt_metadata = []\<rparr>\<rparr>"

definition example_record :: payment_record where
  "example_record = \<lparr>pr_version = 1, pr_derivation_index = 0,
     pr_bitcoin = Some \<lparr>pd_address = ''bc1q'', pd_required_amount = 500\<rparr>, pr_usdt = None\<rparr>"

definition example_assignment :: reader_assignment_v1 where
  "example_assignment = \<lparr>ra1_version = 1, ra1_child_index = 0\<rparr>"

text \<open>Codecs that know one value each, and a clock without bounds.\<close>

definition example_env :: "(string, string) env" where
  "example_env = \<lparr>env_crypto = example_crypto, env_sdk = example_sdk,
     env_json = (\<lambda>_. Some (JObject [(''value'', JString ''bc1q'')])),
     intent_to_bytes = (\<lambda>x. if x = example_dated then Some ''i'' else None),
     intent_from_bytes = (\<lambda>_. Some example_dated),
     record_to_bytes = (\<lambda>x. if x = example_record then Some ''r'' else None),
     record_from_bytes = (\<lambda>_. Some example_record),
     observation_to_bytes = (\<lambda>_. None), observation_from_bytes = (\<lambda>_. None),
     assignment_to_bytes = (\<lambda>x. if x = example_assignment then Some ''a'' else None),
     assignment_from_bytes = (\<lambda>_. Some example_assignment),
     facts_to_bytes = (\<lambda>_ _. None), facts_take_from_bytes = (\<lambda>_. None), outpoint_from_str = (\<lambda>_. None),
     time_checked_add = (\<lambda>t x. Some (t + x))\<rparr>"

definition example_db :: db where
  "example_db = \<lparr>db_creators = [\<lparr>cr_id = 1, cr_lookup_hash = hash_of example_env ''creator'',
       cr_next_child_index = 0, cr_account_generation = 0\<rparr>],
     db_assignments = [], db_invoices = [], db_outbox = [], db_observations = [], db_timely = [], db_usdt = [],
     db_generations = [], db_lifecycles = [], db_address_owners = [], db_buyer_contacts = [], db_provider_v2 = [],
     db_current_samples = [], db_first_evidence = [], db_preparations = [], db_settlements = [],
     db_rotation_items = [], db_drains = [], db_drain_items = [], db_drain_cancellations = []\<rparr>"

definition example_input :: invoice_input where
  "example_input = \<lparr>in_creator = ''creator'', in_reader = ''pubkyreader'', in_bundle_binding = ''bundle'',
     in_lock_binding = ''lock'', in_payment_binding = ''payment'', in_expected_generation = Some 0,
     in_for_child_index = (\<lambda>_. Inr example_quote_intent), in_acceptance_seconds = 1, in_window_seconds = 2\<rparr>"

definition example_fresh :: create_fresh where
  "example_fresh = \<lparr>fr_assignment_id = 11, fr_invoice_id = 12, fr_outbox_id = 13,
     fr_assignment_nonce = replicate 24 (CHR ''n''), fr_record_nonce = replicate 24 (CHR ''n''),
     fr_invoice_nonce = replicate 24 (CHR ''n''), fr_outbox_nonce = replicate 24 (CHR ''n''),
     fr_clock = 0, fr_transaction_now = 0\<rparr>"

lemma example_env_fields [simp]:
  "env_crypto example_env = example_crypto" "env_sdk example_env = example_sdk"
  "intent_to_bytes example_env example_dated = Some ''i''"
  "record_to_bytes example_env example_record = Some ''r''"
  "assignment_to_bytes example_env example_assignment = Some ''a''"
  "time_checked_add example_env t x = Some (t + x)"
  by (simp_all add: example_env_def)

lemma example_env_ok:
  "aead_correct (prims (env_crypto example_env))" "codecs_ok example_env" "clock_adds example_env"
  "nonces_ok example_fresh"
  by (simp_all add: example_crypto_def example_prims_ok)
    (auto simp: codecs_ok_def clock_adds_def nonces_ok_def example_env_def example_fresh_def nonce_length_def
      split: if_splits)

lemma example_db_ok: "store_ok example_db"
  by (simp add: store_ok_def keys_ok_def references_ok_def addresses_ok_def deadlines_ok_def example_db_def)

lemma example_hash_length: "length (hash_of example_env x) = 32"
  by (simp add: crypto_lookup_hash_def example_crypto_def example_prims_def)

lemma example_windows: "admission_windows example_input = Inr (1, 2)"
  by (simp add: admission_windows_def example_input_def i64_try_from_def i64_max_def)

lemma example_seal:
  "\<exists>e. seal_column example_env n ctx (Some b) = Inr e"
  by (simp add: seal_column_def encrypt_def example_crypto_def example_prims_def)

lemma example_record_made: "record_from_intent (env_json example_env) 0 example_dated = Inr example_record"
proof -
  have "payment_units (decimal_amount Btc 500) Btc Btc [] = Inr 500"
    by (rule payment_units_own_asset) simp
  then show ?thesis
    by (simp add: record_from_intent_def example_dated_def example_record_def intent_terms_def add_destination_def
        endpoint_address_def json_get_def json_as_str_def bitcoin_endpoint_ids_def criterion_asset_parse_def
        example_env_def del: decimal_amount.simps)
qed

lemma example_dated_intent: "dated_intent example_env example_input 0 1000000000 2000000000 = Inr example_dated"
proof -
  have valid: "intent_validate example_sdk example_dated = Inr ()"
    by (simp add: intent_validate_def example_dated_def example_quote_intent_def example_sdk_def validate_terms_def to_sdk_def
        paykit_app_id_def parse_reader_def parse_canonical_def del: decimal_amount.simps)
  have sdk: "rfc3339_parse example_sdk s = Some (int (dec_value s))"
    "deadline_at example_sdk (deadline_timestamp example_sdk s) = Some s" for s
    by (simp_all add: example_sdk_def)
  have "set_deadlines example_sdk example_quote_intent (dec_show 1000000000) (dec_show 2000000000) =
      bindr (intent_validate example_sdk example_dated) (\<lambda>_. Inr example_dated)"
    unfolding set_deadlines_def sdk by (simp add: example_dated_def example_quote_intent_def Let_def del: decimal_amount.simps)
  then have "set_deadlines example_sdk example_quote_intent (dec_show 1000000000) (dec_show 2000000000) =
      Inr example_dated"
    by (simp add: valid)
  moreover have "intent_reader_pubky example_dated = ''pubkyreader''"
    by (simp add: example_dated_def example_quote_intent_def)
  moreover have "rfc3339_format example_sdk t = Some (dec_show (nat t))" for t
    by (simp add: example_sdk_def)
  ultimately show ?thesis
    using example_record_made valid
    by (simp add: dated_intent_def example_input_def validate_intent_def)
qed

lemma example_admission:
  "\<exists>d'. create_atomic example_env example_fresh example_input example_db =
     Inr (\<lparr>ai_invoice_id = 12, ai_outbox_id = 13, ai_assignment_id = 11, ai_child_index = 0,
       ai_created_at = 0, ai_payment_deadline = 2000000000, ai_replayed = False\<rparr>, d')"
proof -
  obtain ae re ie oe where sealed: 
    "encrypt_assignment example_env (fr_assignment_nonce example_fresh) (hash_of example_env ''creator'') 11 0 = Inr ae"
    "seal_column example_env (fr_record_nonce example_fresh)
      (ctx_invoice_payment_record (hash_of example_env ''creator'') 12) (record_to_bytes example_env example_record) = Inr re"
    "seal_column example_env (fr_invoice_nonce example_fresh)
      (ctx_invoice (hash_of example_env ''creator'') 12) (intent_to_bytes example_env example_dated) = Inr ie"
    "seal_column example_env (fr_outbox_nonce example_fresh)
      (ctx_outbox_semantic_intent (hash_of example_env ''creator'') 13) (intent_to_bytes example_env example_dated) = Inr oe"
    using example_seal unfolding encrypt_assignment_def example_assignment_def [symmetric] example_env_fields by metis
  have reference: "proposal_payment_reference example_sdk example_dated = Inr ''ref''"
    by (simp add: proposal_payment_reference_def example_dated_def example_sdk_def del: decimal_amount.simps)
  have fields: "in_creator example_input = ''creator''" "fr_assignment_id example_fresh = 11"
    "fr_invoice_id example_fresh = 12" "fr_outbox_id example_fresh = 13" "fr_clock example_fresh = 0"
    "in_expected_generation example_input = Some 0"
    by (simp_all add: example_input_def example_fresh_def)
  have find: "find_creator_by_hash example_db (hash_of example_env ''creator'') =
      Inr \<lparr>cr_id = 1, cr_lookup_hash = hash_of example_env ''creator'', cr_next_child_index = 0,
        cr_account_generation = 0\<rparr>"
    using example_hash_length by (simp add: find_creator_by_hash_Inr example_db_def)
  show ?thesis
    using sealed reference example_dated_intent example_record_made find
    by (simp add: create_atomic_def example_windows fields admission_deadlines_def admit_new_def Let_def
        creator_bundle_invoice_def ensure_generation_def find_generation_def load_assignment_def insert_assignment_def
        bump_child_index_def insert_invoice_def invoice_keys_free_def insert_outbox_def i64_max_def example_db_def
        option.case_eq_if del: example_env_fields(3-5) bindr_eq_Inr)
qed

lemma example_deadlines: "admission_deadlines example_env (1, 2) (fr_clock example_fresh) = Inr (1000000000, 2000000000)"
  by (simp add: admission_deadlines_def example_fresh_def)

lemma example_creator:
  "find_creator_by_hash example_db (hash_of example_env (in_creator example_input)) =
     Inr \<lparr>cr_id = 1, cr_lookup_hash = hash_of example_env ''creator'', cr_next_child_index = 0,
       cr_account_generation = 0\<rparr>"
  using example_hash_length by (simp add: find_creator_by_hash_Inr example_db_def example_input_def)

theorem create_atomic_preserves_store_witness:
  "\<exists>r d'. create_atomic example_env example_fresh example_input example_db = Inr (r, d') \<and> store_ok d'"
proof -
  obtain r d' where "create_atomic example_env example_fresh example_input example_db = Inr (r, d')"
    using example_admission by blast
  with create_atomic_preserves_store [OF example_db_ok example_env_ok(3) this] show ?thesis by blast
qed

theorem create_atomic_idempotent_witness:
  "\<exists>r d'. create_atomic example_env example_fresh example_input example_db = Inr (r, d') \<and> \<not> ai_replayed r \<and>
     create_atomic example_env example_fresh example_input d' = Inr (r\<lparr>ai_replayed := True\<rparr>, d')"
proof -
  obtain r d' where run: "create_atomic example_env example_fresh example_input example_db = Inr (r, d')"
    and new: "\<not> ai_replayed r"
    using example_admission by fastforce
  from create_atomic_idempotent [OF example_db_ok example_env_ok(1,2,4) run new example_windows example_deadlines]
    run new show ?thesis by blast
qed

theorem preflight_agrees_witness:
  "exact_replay example_env example_db ''creator'' ''pubkyreader'' ''bundle'' ''payment'' = Inl CorruptOrMissing"
proof -
  have "keys_ok example_db" using example_db_ok by (simp add: store_ok_def)
  moreover have "preflight example_env example_db (in_creator example_input) (in_bundle_binding example_input)
      (in_payment_binding example_input) = PreflightNew"
    by (simp add: preflight_def joined_invoice_def example_db_def Let_def)
  ultimately show ?thesis
    using preflight_agrees [OF _ example_creator example_windows example_deadlines]
    by (simp add: example_input_def)
qed

theorem create_atomic_fenced_witness:
  "create_atomic example_env example_fresh (example_input\<lparr>in_expected_generation := Some 7\<rparr>) example_db =
     Inl StoreConflict"
proof (rule create_atomic_fenced)
  show "find_creator_by_hash example_db
      (hash_of example_env (in_creator (example_input\<lparr>in_expected_generation := Some 7\<rparr>))) =
    Inr \<lparr>cr_id = 1, cr_lookup_hash = hash_of example_env ''creator'', cr_next_child_index = 0,
       cr_account_generation = 0\<rparr>"
    using example_creator by simp
  show "admission_windows (example_input\<lparr>in_expected_generation := Some 7\<rparr>) = Inr (1, 2)"
    using example_windows by (simp add: admission_windows_def)
  show "admission_deadlines example_env (1, 2) (fr_clock example_fresh) = Inr (1000000000, 2000000000)"
    by (rule example_deadlines)
qed (simp_all add: creator_bundle_invoice_def example_db_def)

theorem create_atomic_effect_witness:
  "\<exists>r d' v. create_atomic example_env example_fresh example_input example_db = Inr (r, d') \<and>
     db_invoices d' = [v] \<and> iv_payment_deadline v = 2000000000 \<and> ai_child_index r = 0"
proof -
  obtain r d' where run: "create_atomic example_env example_fresh example_input example_db = Inr (r, d')"
    and new: "\<not> ai_replayed r"
    using example_admission by fastforce
  from create_atomic_effect [OF example_env_ok(1,2,4,3) example_db_ok run new] obtain creator v where
    "creator \<in> set (db_creators example_db)" "ai_child_index r = cr_next_child_index creator"
    "db_invoices d' = db_invoices example_db @ [v]"
    "iv_payment_deadline v = fr_clock example_fresh + seconds (uint (in_window_seconds example_input))"
    by blast
  with run show ?thesis by (simp add: example_db_def example_fresh_def example_input_def)
qed

end
