(* ===== verification/Outbox_Store.thy ===== *)
theory Outbox_Store
  imports Invoice_Admission
begin

text \<open>
  The outbox, \<open>paykit-server/src/persistence/outbox.rs\<close>: which rows are due, leasing them under a
  claim token, the fenced transitions of a claimed row, and the wake-up hints.  The database clock,
  random tokens and the rows other sessions hold locked are arguments; interval arithmetic of the
  database is the argument \<open>pg\<close>.
\<close>

section \<open>Durations and database arithmetic\<close>

record duration =
  dur_secs :: u64
  dur_nanos :: u32

definition lease_seconds :: "duration \<Rightarrow> (persistence_error, int) res" where
  "lease_seconds dur = ok_or (i64_try_from (dur_secs dur)) StoreUnavailable"

definition duration_milliseconds :: "duration \<Rightarrow> (persistence_error, int) res" where
  "duration_milliseconds dur =
     (let millis = uint (dur_secs dur) * 1000 + uint (dur_nanos dur) div 1000000
      in if millis \<le> i64_max then Inr millis else Inl StoreUnavailable)"

text \<open>The database adds an interval to a timestamp or reports that the result is out of range.\<close>

type_synonym pg_add = "int \<Rightarrow> int \<Rightarrow> int option"

definition i32_max :: int where "i32_max = 2147483647"

section \<open>Vocabulary\<close>

datatype outbox_retry_class =
    AdapterUnavailable | RegistryFetch | RegistryMissing | RegistryIncapable | ReaderAuthorizationFetch
  | ReaderAuthorizationMissing | ReaderAuthorizationInvalid | LinkEstablishment | LinkDependency | LinkPending
  | RetryPaymentRequestProposal | RetryPaymentRequestCancellation | ReconciliationPending | Reconciliation

fun retry_class_str :: "outbox_retry_class \<Rightarrow> string" where
  "retry_class_str AdapterUnavailable = ''adapter_unavailable''"
| "retry_class_str RegistryFetch = ''registry_fetch''"
| "retry_class_str RegistryMissing = ''registry_missing''"
| "retry_class_str RegistryIncapable = ''registry_incapable''"
| "retry_class_str ReaderAuthorizationFetch = ''reader_authorization_fetch''"
| "retry_class_str ReaderAuthorizationMissing = ''reader_authorization_missing''"
| "retry_class_str ReaderAuthorizationInvalid = ''reader_authorization_invalid''"
| "retry_class_str LinkEstablishment = ''link_establishment''"
| "retry_class_str LinkDependency = ''link_dependency''"
| "retry_class_str LinkPending = ''link_pending''"
| "retry_class_str RetryPaymentRequestProposal = ''payment_request_proposal''"
| "retry_class_str RetryPaymentRequestCancellation = ''payment_request_cancellation''"
| "retry_class_str ReconciliationPending = ''reconciliation_pending''"
| "retry_class_str Reconciliation = ''reconciliation''"

datatype handoff_result =
    EndpointPublished u64
  | ProposalSent u64 string string
  | CancellationSent u64 string string

fun handoff_outbound_message_id :: "handoff_result \<Rightarrow> u64" where
  "handoff_outbound_message_id (EndpointPublished i) = i"
| "handoff_outbound_message_id (ProposalSent i _ _) = i"
| "handoff_outbound_message_id (CancellationSent i _ _) = i"

fun handoff_identity :: "handoff_result \<Rightarrow> string option \<times> string option" where
  "handoff_identity (EndpointPublished _) = (None, None)"
| "handoff_identity (ProposalSent _ event request) = (Some event, Some request)"
| "handoff_identity (CancellationSent _ event request) = (Some event, Some request)"

record claimed_outbox =
  co_id :: uuid
  co_creator :: uuid
  co_invoice :: "uuid option"
  co_attempt_count :: int
  co_failure_count :: int
  co_claim_token :: uuid
  co_creator_hash :: string
  co_intent_envelope :: string
  co_payment_deadline :: "int option"

record claimed_handoff =
  ch_id :: uuid
  ch_creator :: uuid
  ch_attempt_count :: int
  ch_claim_token :: uuid
  ch_sdk_outbound_message_id :: string
  ch_intent_kind :: string
  ch_creator_hash :: string
  ch_intent_envelope :: string
  ch_payment_deadline :: "int option"

definition handoff_message_id :: "claimed_handoff \<Rightarrow> (persistence_error, u64) res" where
  "handoff_message_id claim = ok_or (parse_uint (ch_sdk_outbound_message_id claim)) CorruptOrMissing"

section \<open>Which rows may be delivered\<close>

text \<open>A proposal is deliverable while its lock generation is current and not drained, or while its
  marketplace preparation is active; other intents always are.\<close>

definition generation_open :: "db \<Rightarrow> uuid \<Rightarrow> bool" where
  "generation_open d invoice =
     list_ex (\<lambda>v. iv_id v = invoice \<and>
       list_ex (\<lambda>g. lg_creator g = iv_creator v \<and> lg_lock_hash g = iv_lock_hash v \<and>
         lg_current_generation g = iv_lock_generation v \<and> lg_active_drain g = None) (db_generations d))
       (db_invoices d)"

definition preparation_active :: "db \<Rightarrow> uuid \<Rightarrow> bool" where
  "preparation_active d preparation =
     list_ex (\<lambda>p. mp_id p = preparation \<and> mp_state p = ''active'') (db_preparations d)"

definition proposal_open :: "db \<Rightarrow> outbox_row \<Rightarrow> bool" where
  "proposal_open d row \<longleftrightarrow>
     ob_intent_kind row \<noteq> ''payment_request_proposal'' \<or>
     ob_proposal_lookup_hash row \<noteq> None \<and>
       ((case ob_invoice row of Some i \<Rightarrow> generation_open d i | None \<Rightarrow> False) \<or>
        (case ob_preparation row of Some p \<Rightarrow> preparation_active d p | None \<Rightarrow> False))"

definition at_or_before :: "int option \<Rightarrow> int \<Rightarrow> bool" where
  "at_or_before t now = (case t of Some x \<Rightarrow> x \<le> now | None \<Rightarrow> False)"

definition row_due :: "int \<Rightarrow> outbox_row \<Rightarrow> bool" where
  "row_due now row \<longleftrightarrow>
     ob_status row = ''queued'' \<and> ob_next_attempt_at row \<le> now \<or>
     ob_status row = ''leased'' \<and> at_or_before (ob_lease_expires_at row) now \<or>
     ob_status row = ''retryable'' \<and> ob_next_attempt_at row \<le> now"

definition systemic_error :: "outbox_row \<Rightarrow> bool" where
  "systemic_error row =
     (case ob_error_class row of
        None \<Rightarrow> False
      | Some e \<Rightarrow> e \<in> {''adapter_unavailable'', ''registry_fetch'', ''reader_authorization_fetch'',
          ''link_dependency'', ''payment_request_proposal'', ''payment_request_cancellation'', ''reconciliation''})"

definition owner_past_deadline :: "db \<Rightarrow> int \<Rightarrow> outbox_row \<Rightarrow> bool" where
  "owner_past_deadline d now row \<longleftrightarrow>
     list_ex (\<lambda>v. ob_invoice row = Some (iv_id v) \<and> iv_payment_deadline v \<le> now) (db_invoices d) \<or>
     list_ex (\<lambda>p. ob_preparation row = Some (mp_id p) \<and> at_or_before (mp_payment_deadline p) now) (db_preparations d)"

definition delivery_available :: "int \<Rightarrow> db \<Rightarrow> bool" where
  "delivery_available now d \<longleftrightarrow>
     \<not> list_ex (\<lambda>row. ob_status row \<in> {''retryable'', ''leased'', ''handed_off''} \<and> systemic_error row \<and>
          \<not> (ob_intent_kind row = ''payment_request_cancellation'' \<and> owner_past_deadline d now row) \<and>
          proposal_open d row) (db_outbox d)"

text \<open>Creators with due work, the longest waiting first.\<close>

definition due_creator_ids :: "uuid list \<Rightarrow> int \<Rightarrow> int \<Rightarrow> db \<Rightarrow> (persistence_error, uuid list) res" where
  "due_creator_ids excluded limit now d =
     (if limit < 0 then Inl StoreUnavailable
      else
        let rows = filter (\<lambda>row. ob_creator row \<notin> set excluded \<and> row_due now row \<and> proposal_open d row) (db_outbox d);
            waiting = (\<lambda>c. Min (ob_next_attempt_at ` {row \<in> set rows. ob_creator row = c}))
        in Inr (take (nat limit) (sort_key (\<lambda>c. (waiting c, c)) (remdups (map ob_creator rows)))))"

section \<open>Claims\<close>

text \<open>
  A claiming statement reads the clock for its conditions and again for the lease; rows that
  another session has locked are skipped, and every claimed row gets a random token.
\<close>

definition claim_candidates ::
  "(outbox_row \<Rightarrow> bool) \<Rightarrow> (uuid \<Rightarrow> bool) \<Rightarrow> int \<Rightarrow> db \<Rightarrow> outbox_row list" where
  "claim_candidates eligible locked limit d =
     take (nat limit) (sort_key (\<lambda>row. (ob_next_attempt_at row, ob_id row))
       (filter (\<lambda>row. eligible row \<and> \<not> locked (ob_id row)) (db_outbox d)))"

definition lease_row :: "uuid \<Rightarrow> uuid \<Rightarrow> int \<Rightarrow> outbox_row \<Rightarrow> outbox_row" where
  "lease_row owner token expiry row =
     row\<lparr>ob_lease_owner := Some owner, ob_claim_token := Some token, ob_lease_expires_at := Some expiry,
         ob_attempt_count := ob_attempt_count row + 1\<rparr>"

text \<open>The leasing update shared by the two claiming statements.\<close>

definition lease_candidates ::
  "pg_add \<Rightarrow> (uuid \<Rightarrow> uuid) \<Rightarrow> uuid \<Rightarrow> int \<Rightarrow> int \<Rightarrow> (outbox_row \<Rightarrow> outbox_row) \<Rightarrow> outbox_row list \<Rightarrow> db
     \<Rightarrow> (persistence_error, outbox_row list \<times> db) res" where
  "lease_candidates pg tokens owner lease later enter candidates d =
     (if candidates = [] then Inr ([], d)
      else
        bindr (ok_or (pg later (seconds lease)) StoreUnavailable) (\<lambda>expiry.
        if list_ex (\<lambda>row. i32_max \<le> ob_attempt_count row) candidates then Inl StoreUnavailable
        else
          let chosen = (\<lambda>row. ob_id row \<in> ob_id ` set candidates);
              d' = d\<lparr>db_outbox := update_where chosen
                (\<lambda>row. enter (lease_row owner (tokens (ob_id row)) expiry row)) (db_outbox d)\<rparr>
          in Inr (filter chosen (db_outbox d'), d')))"

definition invoice_deadline :: "db \<Rightarrow> uuid option \<Rightarrow> int option" where
  "invoice_deadline d invoice =
     Option.bind invoice (\<lambda>i. map_option iv_payment_deadline (find_invoice d i))"

definition claimed_of :: "db \<Rightarrow> outbox_row \<Rightarrow> (persistence_error, claimed_outbox) res" where
  "claimed_of d row =
     bindr (ok_or (ob_claim_token row) StoreUnavailable) (\<lambda>token.
     bindr (ok_or (find_creator d (ob_creator row)) StoreUnavailable) (\<lambda>creator.
     Inr \<lparr>co_id = ob_id row, co_creator = ob_creator row, co_invoice = ob_invoice row,
          co_attempt_count = ob_attempt_count row, co_failure_count = ob_failure_count row,
          co_claim_token = token, co_creator_hash = cr_lookup_hash creator,
          co_intent_envelope = ob_intent_envelope row,
          co_payment_deadline = invoice_deadline d (ob_invoice row)\<rparr>))"

definition claim_matching ::
  "pg_add \<Rightarrow> (uuid \<Rightarrow> uuid) \<Rightarrow> (uuid \<Rightarrow> bool) \<Rightarrow> uuid \<Rightarrow> int \<Rightarrow> duration \<Rightarrow> uuid option \<Rightarrow> int \<Rightarrow> int \<Rightarrow> db
     \<Rightarrow> (persistence_error, claimed_outbox list \<times> db) res" where
  "claim_matching pg tokens locked owner limit lease creator now later d =
     bindr (lease_seconds lease) (\<lambda>secs.
     if limit < 0 then Inl StoreUnavailable
     else
       bindr (lease_candidates pg tokens owner secs later (\<lambda>row. row\<lparr>ob_status := ''leased''\<rparr>)
         (claim_candidates (\<lambda>row. row_due now row \<and> (creator = None \<or> creator = Some (ob_creator row)) \<and>
            proposal_open d row) locked limit d) d) (\<lambda>(rows, d').
       bindr (mapr (claimed_of d') rows) (\<lambda>claims. Inr (claims, d'))))"

definition claim_outbox ::
  "pg_add \<Rightarrow> (uuid \<Rightarrow> uuid) \<Rightarrow> (uuid \<Rightarrow> bool) \<Rightarrow> uuid \<Rightarrow> int \<Rightarrow> duration \<Rightarrow> int \<Rightarrow> int \<Rightarrow> db
     \<Rightarrow> (persistence_error, claimed_outbox list \<times> db) res" where
  "claim_outbox pg tokens locked owner limit lease now later d =
     claim_matching pg tokens locked owner limit lease None now later d"

definition claim_for_creator ::
  "pg_add \<Rightarrow> (uuid \<Rightarrow> uuid) \<Rightarrow> (uuid \<Rightarrow> bool) \<Rightarrow> uuid \<Rightarrow> uuid \<Rightarrow> duration \<Rightarrow> int \<Rightarrow> int \<Rightarrow> db
     \<Rightarrow> (persistence_error, claimed_outbox option \<times> db) res" where
  "claim_for_creator pg tokens locked owner creator lease now later d =
     bindr (claim_matching pg tokens locked owner 1 lease (Some creator) now later d) (\<lambda>(claims, d').
     Inr (if claims = [] then None else Some (last claims), d'))"

definition handoff_due :: "uuid list option \<Rightarrow> int \<Rightarrow> outbox_row \<Rightarrow> bool" where
  "handoff_due creators now row \<longleftrightarrow>
     ob_status row = ''handed_off'' \<and> (case creators of None \<Rightarrow> True | Some cs \<Rightarrow> ob_creator row \<in> set cs) \<and>
     ob_sdk_outbound_message_id row \<noteq> None \<and> ob_next_attempt_at row \<le> now \<and>
     (ob_claim_token row = None \<or> at_or_before (ob_lease_expires_at row) now)"

definition claimed_handoff_of :: "db \<Rightarrow> outbox_row \<Rightarrow> (persistence_error, claimed_handoff) res" where
  "claimed_handoff_of d row =
     bindr (ok_or (ob_claim_token row) StoreUnavailable) (\<lambda>token.
     bindr (ok_or (ob_sdk_outbound_message_id row) StoreUnavailable) (\<lambda>message.
     bindr (ok_or (find_creator d (ob_creator row)) StoreUnavailable) (\<lambda>creator.
     Inr \<lparr>ch_id = ob_id row, ch_creator = ob_creator row, ch_attempt_count = ob_attempt_count row,
          ch_claim_token = token, ch_sdk_outbound_message_id = message, ch_intent_kind = ob_intent_kind row,
          ch_creator_hash = cr_lookup_hash creator, ch_intent_envelope = ob_intent_envelope row,
          ch_payment_deadline = invoice_deadline d (ob_invoice row)\<rparr>)))"

definition claim_reconciliation_for_creators ::
  "pg_add \<Rightarrow> (uuid \<Rightarrow> uuid) \<Rightarrow> (uuid \<Rightarrow> bool) \<Rightarrow> uuid \<Rightarrow> int \<Rightarrow> duration \<Rightarrow> uuid list option \<Rightarrow> int \<Rightarrow> int \<Rightarrow> db
     \<Rightarrow> (persistence_error, claimed_handoff list \<times> db) res" where
  "claim_reconciliation_for_creators pg tokens locked owner limit lease creators now later d =
     bindr (lease_seconds lease) (\<lambda>secs.
     if limit < 0 then Inl StoreUnavailable
     else
       bindr (lease_candidates pg tokens owner secs later id
         (claim_candidates (handoff_due creators now) locked limit d) d) (\<lambda>(rows, d').
       bindr (mapr (claimed_handoff_of d') rows) (\<lambda>claims. Inr (claims, d'))))"

definition claim_reconciliation ::
  "pg_add \<Rightarrow> (uuid \<Rightarrow> uuid) \<Rightarrow> (uuid \<Rightarrow> bool) \<Rightarrow> uuid \<Rightarrow> int \<Rightarrow> duration \<Rightarrow> int \<Rightarrow> int \<Rightarrow> db
     \<Rightarrow> (persistence_error, claimed_handoff list \<times> db) res" where
  "claim_reconciliation pg tokens locked owner limit lease now later d =
     claim_reconciliation_for_creators pg tokens locked owner limit lease None now later d"

section \<open>Fenced transitions\<close>

definition live_claim :: "uuid \<Rightarrow> int \<Rightarrow> outbox_row \<Rightarrow> bool" where
  "live_claim token now row \<longleftrightarrow> ob_claim_token row = Some token \<and>
     (case ob_lease_expires_at row of Some e \<Rightarrow> now < e | None \<Rightarrow> False)"

definition release :: "outbox_row \<Rightarrow> outbox_row" where
  "release row = row\<lparr>ob_lease_owner := None, ob_claim_token := None, ob_lease_expires_at := None\<rparr>"

text \<open>The row of a claim is locked, then updated if it still satisfies the fence; the answer is
  whether one row changed.  A failing computation of a new value fails the statement.\<close>

definition transition_fence ::
  "uuid \<Rightarrow> (outbox_row \<Rightarrow> bool) \<Rightarrow> (outbox_row \<Rightarrow> (persistence_error, outbox_row) res) \<Rightarrow> db
     \<Rightarrow> (persistence_error, bool \<times> db) res" where
  "transition_fence i fence change d =
     (if \<not> list_ex (\<lambda>row. ob_id row = i) (db_outbox d) then Inr (False, d)
      else
        bindr (mapr (\<lambda>row. if ob_id row = i \<and> fence row then change row else Inr row) (db_outbox d)) (\<lambda>rows.
        Inr (length (filter (\<lambda>row. ob_id row = i \<and> fence row) (db_outbox d)) = 1, d\<lparr>db_outbox := rows\<rparr>)))"

text \<open>The check constraint on the identities of a handed-off row.\<close>

definition request_identity_ok :: "outbox_row \<Rightarrow> bool" where
  "request_identity_ok row \<longleftrightarrow>
     ob_intent_kind row = ''endpoint_publication'' \<and> ob_sdk_event_id row = None \<and>
       ob_sdk_payment_request_id row = None \<and> ob_cancellation_target row = None \<or>
     ob_intent_kind row = ''payment_request_proposal'' \<and> ob_cancellation_target row = None \<and>
       ob_proposal_lookup_hash row \<noteq> None \<and>
       (ob_sdk_event_id row = None) = (ob_sdk_payment_request_id row = None) \<or>
     ob_intent_kind row = ''payment_request_cancellation'' \<and> ob_cancellation_target row \<noteq> None \<and>
       ob_proposal_lookup_hash row = None \<and>
       (ob_sdk_event_id row = None) = (ob_sdk_payment_request_id row = None)"

definition renew_claim ::
  "pg_add \<Rightarrow> claimed_outbox \<Rightarrow> duration \<Rightarrow> int \<Rightarrow> db \<Rightarrow> (persistence_error, bool \<times> db) res" where
  "renew_claim pg claim lease now d =
     (if \<not> list_ex (\<lambda>row. ob_id row = co_id claim) (db_outbox d) then Inr (False, d)
      else
        bindr (lease_seconds lease) (\<lambda>secs.
        transition_fence (co_id claim)
          (\<lambda>row. ob_status row = ''leased'' \<and> live_claim (co_claim_token claim) now row \<and> proposal_open d row)
          (\<lambda>row. bindr (ok_or (pg now (seconds secs)) StoreUnavailable) (\<lambda>expiry.
             Inr (row\<lparr>ob_lease_expires_at := Some expiry\<rparr>))) d))"

definition claim_handoff_eligible :: "claimed_outbox \<Rightarrow> int \<Rightarrow> db \<Rightarrow> bool" where
  "claim_handoff_eligible claim now d =
     list_ex (\<lambda>row. ob_id row = co_id claim \<and> ob_status row = ''leased'' \<and>
       live_claim (co_claim_token claim) now row \<and> proposal_open d row) (db_outbox d)"

definition rotation_cancellation_target_is_accepted :: "claimed_outbox \<Rightarrow> db \<Rightarrow> bool" where
  "rotation_cancellation_target_is_accepted claim d =
     list_ex (\<lambda>row. ob_id row = co_id claim \<and> ob_intent_kind row = ''payment_request_cancellation'' \<and>
       \<not> ob_drain_required row \<and>
       list_ex (\<lambda>l. ob_cancellation_target row = Some (lr_payment_request_id l) \<and> lr_invoice l = ob_invoice row \<and>
         lr_preparation l = ob_preparation row \<and>
         lr_request_state l \<in> {''accepted'', ''proof_submitted'', ''active_recurring''}) (db_lifecycles d))
       (db_outbox d)"

definition decrypt_delivery_intent ::
  "('r, 'd) env \<Rightarrow> uuid \<Rightarrow> string \<Rightarrow> string \<Rightarrow> (persistence_error, delivery_intent) res" where
  "decrypt_delivery_intent env i creator_lookup_hash intent_envelope =
     bindr (lookup_hash_from_storage CorruptOrMissing creator_lookup_hash) (\<lambda>creator_hash.
     bindr (open_column env (ctx_outbox_semantic_intent creator_hash i) intent_envelope) (\<lambda>plaintext.
     decode_intent env plaintext))"

definition outbox_delivery_intent :: "('r, 'd) env \<Rightarrow> claimed_outbox \<Rightarrow> (persistence_error, delivery_intent) res" where
  "outbox_delivery_intent env claim =
     decrypt_delivery_intent env (co_id claim) (co_creator_hash claim) (co_intent_envelope claim)"

definition handed_off_delivery_intent ::
  "('r, 'd) env \<Rightarrow> claimed_handoff \<Rightarrow> (persistence_error, delivery_intent) res" where
  "handed_off_delivery_intent env claim =
     decrypt_delivery_intent env (ch_id claim) (ch_creator_hash claim) (ch_intent_envelope claim)"

definition proposal_expired :: "int \<Rightarrow> int \<Rightarrow> bool" where
  "proposal_expired deadline now \<longleftrightarrow> deadline \<le> now"

definition provider_v2_deadline_expired :: "claimed_outbox \<Rightarrow> int \<Rightarrow> db \<Rightarrow> bool" where
  "provider_v2_deadline_expired claim now d =
     list_ex (\<lambda>row. ob_id row = co_id claim \<and> ob_claim_token row = Some (co_claim_token claim) \<and>
       list_ex (\<lambda>v. ob_invoice row = Some (iv_id v) \<and> is_provider_v2 d (iv_id v) \<and> iv_payment_deadline v \<le> now)
         (db_invoices d)) (db_outbox d)"

definition mark_handed_off ::
  "claimed_outbox \<Rightarrow> handoff_result \<Rightarrow> int \<Rightarrow> db \<Rightarrow> (persistence_error, bool \<times> db) res" where
  "mark_handed_off claim result now d =
     transition_fence (co_id claim)
       (\<lambda>row. ob_status row = ''leased'' \<and> live_claim (co_claim_token claim) now row)
       (\<lambda>row.
          let row' = release (row\<lparr>ob_status := ''handed_off'',
                ob_sdk_outbound_message_id := Some (dec_show (unat (handoff_outbound_message_id result))),
                ob_sdk_event_id := fst (handoff_identity result),
                ob_sdk_payment_request_id := snd (handoff_identity result),
                ob_error_class := None, ob_failure_count := 0\<rparr>)
          in if request_identity_ok row' then Inr row' else Inl StoreUnavailable) d"

definition handoff_is_committed :: "claimed_outbox \<Rightarrow> db \<Rightarrow> bool" where
  "handoff_is_committed claim d =
     list_ex (\<lambda>row. ob_id row = co_id claim \<and> ob_creator row = co_creator claim \<and> ob_status row = ''handed_off'')
       (db_outbox d)"

definition rescheduled ::
  "pg_add \<Rightarrow> int \<Rightarrow> int option \<Rightarrow> outbox_row \<Rightarrow> (persistence_error, outbox_row) res" where
  "rescheduled pg now delay row =
     (case delay of
        None \<Rightarrow> Inr row
      | Some x \<Rightarrow> bindr (ok_or (pg now x) StoreUnavailable) (\<lambda>t. Inr (row\<lparr>ob_next_attempt_at := t\<rparr>)))"

definition outbox_transition ::
  "pg_add \<Rightarrow> claimed_outbox \<Rightarrow> string \<Rightarrow> string option \<Rightarrow> int option \<Rightarrow> int \<Rightarrow> db
     \<Rightarrow> (persistence_error, bool \<times> db) res" where
  "outbox_transition pg claim status error_class delay now d =
     transition_fence (co_id claim)
       (\<lambda>row. ob_status row = ''leased'' \<and> live_claim (co_claim_token claim) now row)
       (\<lambda>row. rescheduled pg now (map_option milliseconds delay)
          (release (row\<lparr>ob_status := status, ob_error_class := error_class,
             ob_failure_count := (if error_class = Some ''link_pending'' then 0
               else if status = ''retryable'' then min (ob_failure_count row + 1) i32_max
               else ob_failure_count row)\<rparr>))) d"

definition mark_permanently_failed ::
  "pg_add \<Rightarrow> claimed_outbox \<Rightarrow> int \<Rightarrow> db \<Rightarrow> (persistence_error, bool \<times> db) res" where
  "mark_permanently_failed pg claim = outbox_transition pg claim ''permanently_failed'' (Some ''permanent'') None"

definition mark_proposal_expired ::
  "pg_add \<Rightarrow> claimed_outbox \<Rightarrow> int \<Rightarrow> db \<Rightarrow> (persistence_error, bool \<times> db) res" where
  "mark_proposal_expired pg claim =
     outbox_transition pg claim ''permanently_failed'' (Some ''proposal_expired'') None"

definition mark_cancellation_obsolete ::
  "claimed_outbox \<Rightarrow> int \<Rightarrow> db \<Rightarrow> (persistence_error, bool \<times> db) res" where
  "mark_cancellation_obsolete claim now d =
     transition_fence (co_id claim)
       (\<lambda>row. ob_status row = ''leased'' \<and> live_claim (co_claim_token claim) now row \<and> \<not> ob_drain_required row)
       (\<lambda>row. Inr (release (row\<lparr>ob_status := ''permanently_failed'',
          ob_error_class := Some ''cancellation_obsolete''\<rparr>))) d"

definition mark_retryable ::
  "pg_add \<Rightarrow> claimed_outbox \<Rightarrow> duration \<Rightarrow> outbox_retry_class \<Rightarrow> int \<Rightarrow> db \<Rightarrow> (persistence_error, bool \<times> db) res" where
  "mark_retryable pg claim delay error_class now d =
     bindr (duration_milliseconds delay) (\<lambda>millis.
     outbox_transition pg claim ''retryable'' (Some (retry_class_str error_class)) (Some millis) now d)"

definition reconciliation_transition ::
  "pg_add \<Rightarrow> claimed_handoff \<Rightarrow> string \<Rightarrow> string option \<Rightarrow> int option \<Rightarrow> int \<Rightarrow> db
     \<Rightarrow> (persistence_error, bool \<times> db) res" where
  "reconciliation_transition pg claim status error_class delay now d =
     transition_fence (ch_id claim)
       (\<lambda>row. ob_status row = ''handed_off'' \<and>
          ob_sdk_outbound_message_id row = Some (ch_sdk_outbound_message_id claim) \<and>
          live_claim (ch_claim_token claim) now row)
       (\<lambda>row. rescheduled pg now (map_option seconds delay)
          (release (row\<lparr>ob_status := status, ob_error_class := error_class\<rparr>))) d"

definition mark_delivered :: "pg_add \<Rightarrow> claimed_handoff \<Rightarrow> int \<Rightarrow> db \<Rightarrow> (persistence_error, bool \<times> db) res" where
  "mark_delivered pg claim = reconciliation_transition pg claim ''delivered'' None None"

definition mark_reconciliation_permanently_failed ::
  "pg_add \<Rightarrow> claimed_handoff \<Rightarrow> int \<Rightarrow> db \<Rightarrow> (persistence_error, bool \<times> db) res" where
  "mark_reconciliation_permanently_failed pg claim =
     reconciliation_transition pg claim ''permanently_failed'' (Some ''permanent_sdk_reconciliation'') None"

definition retry_reconciliation ::
  "pg_add \<Rightarrow> claimed_handoff \<Rightarrow> duration \<Rightarrow> outbox_retry_class \<Rightarrow> int \<Rightarrow> db \<Rightarrow> (persistence_error, bool \<times> db) res" where
  "retry_reconciliation pg claim delay error_class now d =
     bindr (lease_seconds delay) (\<lambda>secs.
     reconciliation_transition pg claim ''handed_off'' (Some (retry_class_str error_class)) (Some secs) now d)"

section \<open>Wake-up hints\<close>

record creator_wakeup =
  wk_creators :: "uuid set"
  wk_permit :: bool

definition wakeup_default :: creator_wakeup where
  "wakeup_default = \<lparr>wk_creators = {}, wk_permit = False\<rparr>"

definition wakeup_notify :: "uuid \<Rightarrow> creator_wakeup \<Rightarrow> creator_wakeup" where
  "wakeup_notify creator w = w\<lparr>wk_creators := insert creator (wk_creators w), wk_permit := True\<rparr>"

text \<open>A wait without a permit stays blocked.\<close>

definition wakeup_wait :: "creator_wakeup \<Rightarrow> (uuid list \<times> creator_wakeup) option" where
  "wakeup_wait w =
     (if wk_permit w then Some (sorted_list_of_set (wk_creators w), \<lparr>wk_creators = {}, wk_permit = False\<rparr>)
      else None)"

end
