(* ===== verification/Outbox_Delivery.thy ===== *)
theory Outbox_Delivery
  imports Outbox_Store
begin

text \<open>
  Correctness of the outbox: the delivery states and the contract that every worker operation meets,
  runs of the workers, the fence of a claim, the order in which work is served, and the way from an
  admitted invoice to the worker that delivers its proposal.
\<close>

section \<open>How a row may evolve\<close>

text \<open>The delivery states of a row and the moves between them.\<close>

inductive delivery_step :: "string \<Rightarrow> string \<Rightarrow> bool" where
  claim: "s \<in> {''queued'', ''leased'', ''retryable''} \<Longrightarrow> delivery_step s ''leased''"
| retry: "delivery_step ''leased'' ''retryable''"
| hand_off: "delivery_step ''leased'' ''handed_off''"
| give_up: "delivery_step ''leased'' ''permanently_failed''"
| deliver: "delivery_step ''handed_off'' ''delivered''"
| reconcile_failed: "delivery_step ''handed_off'' ''permanently_failed''"

inductive_cases delivery_step_from_delivered: "delivery_step ''delivered'' s"
inductive_cases delivery_step_from_failed: "delivery_step ''permanently_failed'' s"
inductive_cases delivery_step_from_handed_off: "delivery_step ''handed_off'' s"

lemma delivery_terminal:
  "delivery_step\<^sup>*\<^sup>* s t \<Longrightarrow> s \<in> {''delivered'', ''permanently_failed''} \<Longrightarrow> t = s"
  by (induction rule: rtranclp_induct)
    (auto elim: delivery_step_from_delivered delivery_step_from_failed)

definition settled :: "string \<Rightarrow> bool" where
  "settled s \<longleftrightarrow> s \<in> {''handed_off'', ''delivered'', ''permanently_failed''}"

lemma delivery_after_handoff: "delivery_step\<^sup>*\<^sup>* s t \<Longrightarrow> settled s \<Longrightarrow> settled t"
  by (induction rule: rtranclp_induct)
    (auto simp: settled_def elim: delivery_step_from_delivered delivery_step_from_failed delivery_step_from_handed_off)

definition same_intent :: "outbox_row \<Rightarrow> outbox_row \<Rightarrow> bool" where
  "same_intent row row' \<longleftrightarrow> ob_id row' = ob_id row \<and> ob_creator row' = ob_creator row \<and>
     ob_invoice row' = ob_invoice row \<and> ob_preparation row' = ob_preparation row \<and>
     ob_intent_envelope row' = ob_intent_envelope row \<and> ob_intent_kind row' = ob_intent_kind row \<and>
     ob_proposal_lookup_hash row' = ob_proposal_lookup_hash row \<and>
     ob_cancellation_target row' = ob_cancellation_target row \<and> ob_drain_required row' = ob_drain_required row \<and>
     ob_created_at row' = ob_created_at row"

definition same_identity :: "outbox_row \<Rightarrow> outbox_row \<Rightarrow> bool" where
  "same_identity row row' \<longleftrightarrow> ob_sdk_outbound_message_id row' = ob_sdk_outbound_message_id row \<and>
     ob_sdk_event_id row' = ob_sdk_event_id row \<and> ob_sdk_payment_request_id row' = ob_sdk_payment_request_id row"

definition row_evolves :: "outbox_row \<Rightarrow> outbox_row \<Rightarrow> bool" where
  "row_evolves row row' \<longleftrightarrow> same_intent row row' \<and> delivery_step\<^sup>*\<^sup>* (ob_status row) (ob_status row') \<and>
     (settled (ob_status row) \<longrightarrow> same_identity row row') \<and>
     ob_attempt_count row \<le> ob_attempt_count row'"

lemma row_evolves_refl [simp]: "row_evolves row row"
  by (simp add: row_evolves_def same_intent_def same_identity_def)

lemma same_trans:
  "same_intent a b \<Longrightarrow> same_intent b c \<Longrightarrow> same_intent a c"
  "same_identity a b \<Longrightarrow> same_identity b c \<Longrightarrow> same_identity a c"
  by (simp_all add: same_intent_def same_identity_def)

lemma row_evolves_trans [trans]: "row_evolves a b \<Longrightarrow> row_evolves b c \<Longrightarrow> row_evolves a c"
  unfolding row_evolves_def
  by (meson delivery_after_handoff order_trans rtranclp_trans same_trans)

definition outbox_evolves :: "db \<Rightarrow> db \<Rightarrow> bool" where
  "outbox_evolves d d' \<longleftrightarrow> d' = d\<lparr>db_outbox := db_outbox d'\<rparr> \<and> list_all2 row_evolves (db_outbox d) (db_outbox d')"

lemma outbox_evolves_refl [simp]: "outbox_evolves d d"
  by (simp add: outbox_evolves_def list_all2_refl)

lemma outbox_evolves_trans:
  assumes "outbox_evolves a b" "outbox_evolves b c"
  shows "outbox_evolves a c"
proof -
  have "c = a\<lparr>db_outbox := db_outbox c\<rparr>"
    using assms by (simp add: outbox_evolves_def) (metis db.update_convs(4) db.surjective)
  moreover have "list_all2 row_evolves (db_outbox a) (db_outbox c)"
    using assms list_all2_trans [of row_evolves row_evolves row_evolves] row_evolves_trans
    by (meson outbox_evolves_def)
  ultimately show ?thesis by (simp add: outbox_evolves_def)
qed

lemma outbox_evolves_update:
  "(\<And>row. row \<in> set (db_outbox d) \<Longrightarrow> p row \<Longrightarrow> row_evolves row (f row)) \<Longrightarrow>
     outbox_evolves d (d\<lparr>db_outbox := update_where p f (db_outbox d)\<rparr>)"
  by (simp add: outbox_evolves_def update_where_def list_all2_map2 list.rel_refl_strong)

lemma outbox_evolves_ids: "outbox_evolves d d' \<Longrightarrow> map ob_id (db_outbox d') = map ob_id (db_outbox d)"
proof -
  have "map ob_id ys = map ob_id xs" if "list_all2 row_evolves xs ys" for xs ys
    using that by (induction rule: list_all2_induct) (simp_all add: row_evolves_def same_intent_def)
  then show "outbox_evolves d d' \<Longrightarrow> map ob_id (db_outbox d') = map ob_id (db_outbox d)"
    by (simp add: outbox_evolves_def)
qed

lemma outbox_evolves_tables:
  assumes "outbox_evolves d d'"
  shows "db_invoices d' = db_invoices d" "db_generations d' = db_generations d" "db_creators d' = db_creators d"
proof -
  have "d' = d\<lparr>db_outbox := db_outbox d'\<rparr>" using assms by (simp add: outbox_evolves_def)
  then obtain rows where "d' = d\<lparr>db_outbox := rows\<rparr>" by blast
  then show "db_invoices d' = db_invoices d" "db_generations d' = db_generations d" "db_creators d' = db_creators d"
    by simp_all
qed

text \<open>The contract of every operation on the outbox: whatever it answers, it touches only outbox rows
  and moves each along the delivery states.\<close>

locale outbox_operation =
  fixes operation :: "db \<Rightarrow> (persistence_error, 'a \<times> db) res"
  assumes evolves: "distinct (map ob_id (db_outbox d)) \<Longrightarrow> operation d = Inr (x, d') \<Longrightarrow> outbox_evolves d d'"
begin

lemma keeps_ids:
  assumes "distinct (map ob_id (db_outbox d))" "operation d = Inr (x, d')"
  shows "map ob_id (db_outbox d') = map ob_id (db_outbox d)"
  using outbox_evolves_ids [OF evolves [OF assms]] .

lemma keeps_tables:
  assumes "distinct (map ob_id (db_outbox d))" "operation d = Inr (x, d')"
  shows "db_invoices d' = db_invoices d" "db_generations d' = db_generations d" "db_creators d' = db_creators d"
  using outbox_evolves_tables [OF evolves [OF assms]] by auto

end

lemma transition_fence_evolves:
  assumes "transition_fence i fence change d = Inr (b, d')"
    and "\<And>row row'. fence row \<Longrightarrow> change row = Inr row' \<Longrightarrow> row_evolves row row'"
  shows "outbox_evolves d d'"
proof (cases "list_ex (\<lambda>row. ob_id row = i) (db_outbox d)")
  case True
  with assms(1) obtain rows where d': "d' = d\<lparr>db_outbox := rows\<rparr>"
    and "list_all2 (\<lambda>row row'. (if ob_id row = i \<and> fence row then change row else Inr row) = Inr row')
      (db_outbox d) rows"
    by (auto simp: transition_fence_def mapr_Inr_iff)
  then have "list_all2 row_evolves (db_outbox d) rows"
    using assms(2) by (elim list_all2_mono) (auto split: if_splits)
  then show ?thesis by (simp add: d' outbox_evolves_def)
next
  case False
  with assms(1) show ?thesis by (simp add: transition_fence_def)
qed

lemma delivery_moves:
  "delivery_step\<^sup>*\<^sup>* ''leased'' ''retryable''" "delivery_step\<^sup>*\<^sup>* ''leased'' ''handed_off''"
  "delivery_step\<^sup>*\<^sup>* ''leased'' ''permanently_failed''" "delivery_step\<^sup>*\<^sup>* ''handed_off'' ''delivered''"
  "delivery_step\<^sup>*\<^sup>* ''handed_off'' ''permanently_failed''"
  by (simp_all add: r_into_rtranclp delivery_step.intros)

lemma rescheduled_Inr:
  "rescheduled pg now delay row = Inr row' \<Longrightarrow> \<exists>t. row' = row\<lparr>ob_next_attempt_at := t\<rparr>"
  by (cases delay) (auto simp: rescheduled_def intro: exI [of _ "ob_next_attempt_at row"])

lemma leased_unsettled: "\<not> settled ''leased''" "\<not> settled ''queued''" "\<not> settled ''retryable''"
  by (simp_all add: settled_def)

lemmas evolve_defs = row_evolves_def same_intent_def same_identity_def release_def lease_row_def leased_unsettled
  delivery_moves

interpretation hand_off: outbox_operation "mark_handed_off claim result now" for claim result now
  by unfold_locales
    (unfold mark_handed_off_def, erule transition_fence_evolves, auto simp: evolve_defs Let_def split: if_splits)

interpretation renewal: outbox_operation "renew_claim pg claim lease now" for pg claim lease now
proof unfold_locales
  fix d x d'
  assume "renew_claim pg claim lease now d = Inr (x, d')"
  then consider "d' = d" | secs where "transition_fence (co_id claim)
      (\<lambda>row. ob_status row = ''leased'' \<and> live_claim (co_claim_token claim) now row \<and> proposal_open d row)
      (\<lambda>row. bindr (ok_or (pg now (seconds secs)) StoreUnavailable) (\<lambda>expiry.
         Inr (row\<lparr>ob_lease_expires_at := Some expiry\<rparr>))) d = Inr (x, d')"
    by (auto simp: renew_claim_def split: if_splits)
  then show "outbox_evolves d d'"
    by cases (simp, erule transition_fence_evolves, auto simp: evolve_defs)
qed

lemma outbox_transition_evolves:
  assumes "outbox_transition pg claim status error_class delay now d = Inr (x, d')"
    and "status \<in> {''retryable'', ''permanently_failed''}"
  shows "outbox_evolves d d'"
  using assms(1) unfolding outbox_transition_def
  by (rule transition_fence_evolves) (use assms(2) in \<open>auto simp: evolve_defs dest!: rescheduled_Inr\<close>)

lemma reconciliation_transition_evolves:
  assumes "reconciliation_transition pg claim status error_class delay now d = Inr (x, d')"
    and "status \<in> {''handed_off'', ''delivered'', ''permanently_failed''}"
  shows "outbox_evolves d d'"
  using assms(1) unfolding reconciliation_transition_def
  by (rule transition_fence_evolves) (use assms(2) in \<open>auto simp: evolve_defs dest!: rescheduled_Inr\<close>)

interpretation failing: outbox_operation "mark_permanently_failed pg claim now" for pg claim now
  by unfold_locales (simp add: mark_permanently_failed_def outbox_transition_evolves)

interpretation expiring: outbox_operation "mark_proposal_expired pg claim now" for pg claim now
  by unfold_locales (simp add: mark_proposal_expired_def outbox_transition_evolves)

interpretation retrying: outbox_operation "mark_retryable pg claim delay cls now" for pg claim delay cls now
  by unfold_locales (auto simp: mark_retryable_def intro: outbox_transition_evolves)

interpretation obsoleting: outbox_operation "mark_cancellation_obsolete claim now" for claim now
  by unfold_locales
    (unfold mark_cancellation_obsolete_def, erule transition_fence_evolves, auto simp: evolve_defs)

interpretation delivering: outbox_operation "mark_delivered pg claim now" for pg claim now
  by unfold_locales (simp add: mark_delivered_def reconciliation_transition_evolves)

interpretation reconcile_failing: outbox_operation "mark_reconciliation_permanently_failed pg claim now" for pg claim now
  by unfold_locales (simp add: mark_reconciliation_permanently_failed_def reconciliation_transition_evolves)

interpretation reconcile_retrying: outbox_operation "retry_reconciliation pg claim delay cls now" for pg claim delay cls now
  by unfold_locales (auto simp: retry_reconciliation_def intro: reconciliation_transition_evolves)

lemma lease_candidates_evolves:
  assumes "lease_candidates pg tokens owner lease later enter candidates d = Inr (rows, d')"
    and "\<And>row token expiry. ob_id row \<in> ob_id ` set candidates \<Longrightarrow> row \<in> set (db_outbox d) \<Longrightarrow>
      row_evolves row (enter (lease_row owner token expiry row))"
  shows "outbox_evolves d d'"
  using assms by (auto simp: lease_candidates_def Let_def split: if_splits intro!: outbox_evolves_update)

lemma candidates_eligible:
  "row \<in> set (claim_candidates eligible locked limit d) \<Longrightarrow> row \<in> set (db_outbox d) \<and> eligible row \<and> \<not> locked (ob_id row)"
  by (auto simp: claim_candidates_def dest!: in_set_takeD)

lemma candidate_row:
  assumes "distinct (map ob_id (db_outbox d))" "row \<in> set (db_outbox d)"
    and "ob_id row \<in> ob_id ` set (claim_candidates eligible locked limit d)"
  shows "row \<in> set (claim_candidates eligible locked limit d)"
proof -
  from assms(3) obtain row' where row': "row' \<in> set (claim_candidates eligible locked limit d)" "ob_id row = ob_id row'"
    by auto
  then have "row' = row"
    using assms(1,2) candidates_eligible [OF row'(1)] by (auto simp: distinct_map inj_on_def)
  with row' show ?thesis by simp
qed

lemma due_step: "row_due now row \<Longrightarrow> delivery_step\<^sup>*\<^sup>* (ob_status row) ''leased''"
  by (auto simp: row_due_def intro!: r_into_rtranclp delivery_step.claim)

interpretation claiming: outbox_operation "claim_matching pg tokens locked owner limit lease creator now later"
  for pg tokens locked owner limit lease creator now later
proof unfold_locales
  fix d d' :: db and x
  assume dist: "distinct (map ob_id (db_outbox d))"
  assume "claim_matching pg tokens locked owner limit lease creator now later d = Inr (x, d')"
  then obtain secs rows where leased: "lease_candidates pg tokens owner secs later (\<lambda>row. row\<lparr>ob_status := ''leased''\<rparr>)
      (claim_candidates (\<lambda>row. row_due now row \<and> (creator = None \<or> creator = Some (ob_creator row)) \<and>
        proposal_open d row) locked limit d) d = Inr (rows, d')"
    by (auto simp: claim_matching_def split: if_splits prod.splits)
  show "outbox_evolves d d'"
  proof (rule lease_candidates_evolves [OF leased])
    fix row token expiry
    assume "ob_id row \<in> ob_id ` set (claim_candidates (\<lambda>row. row_due now row \<and>
      (creator = None \<or> creator = Some (ob_creator row)) \<and> proposal_open d row) locked limit d)"
      and "row \<in> set (db_outbox d)"
    then have due: "row_due now row" using candidates_eligible [OF candidate_row [OF dist]] by blast
    then have "\<not> settled (ob_status row)" by (auto simp: row_due_def settled_def)
    with due_step [OF due] show "row_evolves row ((lease_row owner token expiry row)\<lparr>ob_status := ''leased''\<rparr>)"
      by (simp add: evolve_defs)
  qed
qed

interpretation reconcile_claiming:
  outbox_operation "claim_reconciliation_for_creators pg tokens locked owner limit lease creators now later"
  for pg tokens locked owner limit lease creators now later
  by unfold_locales
    (auto simp: claim_reconciliation_for_creators_def evolve_defs split: if_splits prod.splits
      elim!: lease_candidates_evolves)

text \<open>One committed operation of the workers.\<close>

inductive outbox_step :: "db \<Rightarrow> db \<Rightarrow> bool" where
  claim: "claim_matching pg tokens locked owner limit lease creator now later d = Inr (claims, d') \<Longrightarrow> outbox_step d d'"
| renew: "renew_claim pg claim lease now d = Inr (b, d') \<Longrightarrow> outbox_step d d'"
| hand_off: "mark_handed_off claim result now d = Inr (b, d') \<Longrightarrow> outbox_step d d'"
| fail: "mark_permanently_failed pg claim now d = Inr (b, d') \<Longrightarrow> outbox_step d d'"
| expire: "mark_proposal_expired pg claim now d = Inr (b, d') \<Longrightarrow> outbox_step d d'"
| obsolete: "mark_cancellation_obsolete claim now d = Inr (b, d') \<Longrightarrow> outbox_step d d'"
| retry: "mark_retryable pg claim delay cls now d = Inr (b, d') \<Longrightarrow> outbox_step d d'"
| claim_handoff: "claim_reconciliation_for_creators pg tokens locked owner limit lease creators now later d =
    Inr (handoffs, d') \<Longrightarrow> outbox_step d d'"
| deliver: "mark_delivered pg handoff now d = Inr (b, d') \<Longrightarrow> outbox_step d d'"
| fail_handoff: "mark_reconciliation_permanently_failed pg handoff now d = Inr (b, d') \<Longrightarrow> outbox_step d d'"
| retry_handoff: "retry_reconciliation pg handoff delay cls now d = Inr (b, d') \<Longrightarrow> outbox_step d d'"

lemma outbox_step_evolves:
  assumes "outbox_step d d'" "distinct (map ob_id (db_outbox d))"
  shows "outbox_evolves d d'"
  using assms
  by cases (blast intro: claiming.evolves renewal.evolves hand_off.evolves failing.evolves expiring.evolves
      obsoleting.evolves retrying.evolves reconcile_claiming.evolves delivering.evolves reconcile_failing.evolves
      reconcile_retrying.evolves)+

lemma outbox_run_evolves:
  assumes "outbox_step\<^sup>*\<^sup>* d d'" "distinct (map ob_id (db_outbox d))"
  shows "outbox_evolves d d'"
  using assms(1)
proof (induction rule: rtranclp_induct)
  case (step b c)
  have "distinct (map ob_id (db_outbox b))" using outbox_evolves_ids [OF step.IH] assms(2) by simp
  with step show ?case using outbox_evolves_trans outbox_step_evolves by blast
qed simp

section \<open>Claims and their fences\<close>

abbreviation claim_order :: "outbox_row \<Rightarrow> int \<times> uuid" where
  "claim_order row \<equiv> (ob_next_attempt_at row, ob_id row)"

definition claimable :: "uuid option \<Rightarrow> int \<Rightarrow> db \<Rightarrow> outbox_row \<Rightarrow> bool" where
  "claimable creator now d row \<longleftrightarrow>
     row_due now row \<and> (creator = None \<or> creator = Some (ob_creator row)) \<and> proposal_open d row"

lemma claim_matching_claimable:
  "claim_matching pg tokens locked owner limit lease creator now later d =
     bindr (lease_seconds lease) (\<lambda>secs.
     if limit < 0 then Inl StoreUnavailable
     else
       bindr (lease_candidates pg tokens owner secs later (\<lambda>row. row\<lparr>ob_status := ''leased''\<rparr>)
         (claim_candidates (claimable creator now d) locked limit d) d) (\<lambda>(rows, d').
       bindr (mapr (claimed_of d') rows) (\<lambda>claims. Inr (claims, d'))))"
  unfolding claim_matching_def claimable_def by (rule refl)

lemma lease_candidates_rows:
  assumes "lease_candidates pg tokens owner secs later enter candidates d = Inr (rows, d')" "row' \<in> set rows"
    and "\<And>row. ob_id (enter row) = ob_id row"
  obtains row expiry where "row \<in> set (db_outbox d)" "ob_id row \<in> ob_id ` set candidates"
    "pg later (seconds secs) = Some expiry" "row' = enter (lease_row owner (tokens (ob_id row)) expiry row)"
    "row' \<in> set (db_outbox d')"
  using assms
  by (auto simp: lease_candidates_def Let_def update_where_def lease_row_def split: if_splits)

lemma mapr_mem: "mapr f xs = Inr ys \<Longrightarrow> y \<in> set ys \<Longrightarrow> \<exists>x \<in> set xs. f x = Inr y"
  by (induction xs arbitrary: ys) auto

lemma claim_matching_claims:
  assumes "distinct (map ob_id (db_outbox d))"
    and "claim_matching pg tokens locked owner limit lease creator now later d = Inr (claims, d')"
    and "c \<in> set claims"
  obtains row secs expiry row' cr where
    "row \<in> set (claim_candidates (claimable creator now d) locked limit d)"
    "lease_seconds lease = Inr secs" "pg later (seconds secs) = Some expiry"
    "row' = (lease_row owner (tokens (ob_id row)) expiry row)\<lparr>ob_status := ''leased''\<rparr>"
    "row' \<in> set (db_outbox d')" "find_creator d' (ob_creator row) = Some cr"
    "c = \<lparr>co_id = ob_id row, co_creator = ob_creator row, co_invoice = ob_invoice row,
          co_attempt_count = ob_attempt_count row + 1, co_failure_count = ob_failure_count row,
          co_claim_token = tokens (ob_id row), co_creator_hash = cr_lookup_hash cr,
          co_intent_envelope = ob_intent_envelope row,
          co_payment_deadline = invoice_deadline d' (ob_invoice row)\<rparr>"
proof -
  from assms(2) obtain secs rows where secs: "lease_seconds lease = Inr secs"
    and leased: "lease_candidates pg tokens owner secs later (\<lambda>row. row\<lparr>ob_status := ''leased''\<rparr>)
      (claim_candidates (claimable creator now d) locked limit d) d = Inr (rows, d')"
    and claims: "mapr (claimed_of d') rows = Inr claims"
    by (auto simp: claim_matching_claimable split: if_splits prod.splits)
  from mapr_mem [OF claims assms(3)] obtain row' where row': "row' \<in> set rows" "claimed_of d' row' = Inr c"
    by blast
  show ?thesis
  proof (rule lease_candidates_rows [OF leased row'(1)])
    fix row expiry
    assume row: "row \<in> set (db_outbox d)"
      "ob_id row \<in> ob_id ` set (claim_candidates (claimable creator now d) locked limit d)"
      "pg later (seconds secs) = Some expiry"
      "row' = (lease_row owner (tokens (ob_id row)) expiry row)\<lparr>ob_status := ''leased''\<rparr>" "row' \<in> set (db_outbox d')"
    from row'(2) obtain cr where "find_creator d' (ob_creator row) = Some cr"
      "c = \<lparr>co_id = ob_id row, co_creator = ob_creator row, co_invoice = ob_invoice row,
          co_attempt_count = ob_attempt_count row + 1, co_failure_count = ob_failure_count row,
          co_claim_token = tokens (ob_id row), co_creator_hash = cr_lookup_hash cr,
          co_intent_envelope = ob_intent_envelope row,
          co_payment_deadline = invoice_deadline d' (ob_invoice row)\<rparr>"
      by (auto simp: claimed_of_def row(4) lease_row_def)
    then show ?thesis
      by (rule that [OF candidate_row [OF assms(1) row(1,2)] secs row(3-5)])
  qed simp
qed

lemma row_by_id:
  "distinct (map ob_id rows) \<Longrightarrow> a \<in> set rows \<Longrightarrow> b \<in> set rows \<Longrightarrow> ob_id a = ob_id b \<Longrightarrow> a = b"
  by (auto simp: distinct_map inj_on_def)

lemma mapr_unchanged: "(\<And>x. x \<in> set xs \<Longrightarrow> f x = Inr x) \<Longrightarrow> mapr f xs = Inr xs"
  using mapr_cong_Inr [of xs f "\<lambda>x. x"] by simp

lemma transition_fence_miss:
  assumes "\<And>row. row \<in> set (db_outbox d) \<Longrightarrow> ob_id row = i \<Longrightarrow> \<not> fence row"
  shows "transition_fence i fence change d = Inr (False, d)"
proof -
  have "mapr (\<lambda>row. if ob_id row = i \<and> fence row then change row else Inr row) (db_outbox d) = Inr (db_outbox d)"
    using assms by (intro mapr_unchanged) auto
  moreover have "filter (\<lambda>row. ob_id row = i \<and> fence row) (db_outbox d) = []"
    using assms by (auto simp: filter_empty_conv)
  ultimately show ?thesis by (simp add: transition_fence_def)
qed

text \<open>A claim whose token no longer stands, or whose lease has passed, cannot change its row.\<close>

lemma dead_claim_refused:
  assumes "\<And>row. row \<in> set (db_outbox d) \<Longrightarrow> ob_id row = co_id claim \<Longrightarrow>
      \<not> (ob_status row = ''leased'' \<and> live_claim (co_claim_token claim) now row)"
  shows "mark_handed_off claim result now d = Inr (False, d)"
    "outbox_transition pg claim status error_class delay now d = Inr (False, d)"
    "mark_cancellation_obsolete claim now d = Inr (False, d)"
    "\<not> claim_handoff_eligible claim now d"
    "lease_seconds lease = Inr secs \<Longrightarrow> renew_claim pg claim lease now d = Inr (False, d)"
proof -
  show "mark_handed_off claim result now d = Inr (False, d)"
    "outbox_transition pg claim status error_class delay now d = Inr (False, d)"
    "mark_cancellation_obsolete claim now d = Inr (False, d)"
    using assms by (auto simp: mark_handed_off_def outbox_transition_def mark_cancellation_obsolete_def
        intro!: transition_fence_miss)
  show "\<not> claim_handoff_eligible claim now d"
    using assms by (auto simp: claim_handoff_eligible_def list_ex_iff)
  show "renew_claim pg claim lease now d = Inr (False, d)" if "lease_seconds lease = Inr secs"
    using assms that by (auto simp: renew_claim_def intro!: transition_fence_miss)
qed

lemma sorted_take_drop:
  assumes "sorted (map k xs)" "x \<in> set (take n xs)" "y \<in> set (drop n xs)"
  shows "k x \<le> k y"
proof -
  have "sorted (map k (take n xs) @ map k (drop n xs))"
    using assms(1) by (simp flip: map_append)
  then show ?thesis using assms(2,3) by (auto simp: sorted_append)
qed

lemma sorted_take_rest:
  assumes "sorted (map k xs)" "y \<in> set xs" "y \<notin> set (take n xs)"
  shows "length (take n xs) = n \<and> (\<forall>x \<in> set (take n xs). k x \<le> k y)"
proof -
  have late: "y \<in> set (drop n xs)"
    using assms(2,3) by (metis Un_iff append_take_drop_id set_append)
  then have "n < length xs" by (cases "n < length xs") auto
  then show ?thesis using sorted_take_drop [OF assms(1) _ late] by simp
qed

lemma candidates_first:
  assumes "row \<in> set (db_outbox d)" "eligible row" "\<not> locked (ob_id row)"
    and "row \<notin> set (claim_candidates eligible locked limit d)"
  shows "length (claim_candidates eligible locked limit d) = nat limit \<and>
    (\<forall>first \<in> set (claim_candidates eligible locked limit d). claim_order first \<le> claim_order row)"
  unfolding claim_candidates_def
  by (rule sorted_take_rest) (use assms in \<open>simp_all add: claim_candidates_def\<close>)

lemma filter_by_id:
  assumes "distinct (map ob_id xs)" "set cs \<subseteq> set xs" "distinct cs"
  shows "length (filter (\<lambda>row. ob_id row \<in> ob_id ` set cs) xs) = length cs"
proof -
  have "set (filter (\<lambda>row. ob_id row \<in> ob_id ` set cs) xs) = set cs"
    using assms(2) row_by_id [OF assms(1)] unfolding set_filter by blast
  moreover have "distinct xs" using assms(1) by (simp add: distinct_map)
  ultimately show ?thesis using assms(3) by (metis distinct_card distinct_filter)
qed

lemma claim_matching_ids:
  assumes "distinct (map ob_id (db_outbox d))"
    and "claim_matching pg tokens locked owner limit lease creator now later d = Inr (claims, d')"
  shows "co_id ` set claims = ob_id ` set (claim_candidates (claimable creator now d) locked limit d)"
    "length claims = length (claim_candidates (claimable creator now d) locked limit d)"
proof -
  let ?cs = "claim_candidates (claimable creator now d) locked limit d"
  from assms(2) obtain secs rows where
    leased: "lease_candidates pg tokens owner secs later (\<lambda>row. row\<lparr>ob_status := ''leased''\<rparr>) ?cs d = Inr (rows, d')"
    and claims: "mapr (claimed_of d') rows = Inr claims"
    by (auto simp: claim_matching_claimable split: if_splits prod.splits)
  have sub: "set ?cs \<subseteq> set (db_outbox d)" using candidates_eligible by blast
  have dist: "distinct ?cs"
    using assms(1) by (simp add: claim_candidates_def distinct_map)
  have rows: "map ob_id rows = map ob_id (filter (\<lambda>row. ob_id row \<in> ob_id ` set ?cs) (db_outbox d))"
  proof (cases "?cs = []")
    case True
    then show ?thesis using leased by (simp add: lease_candidates_def)
  next
    case False
    have "map ob_id (filter (\<lambda>row. ob_id row \<in> A) (update_where (\<lambda>row. ob_id row \<in> A)
        (\<lambda>row. (lease_row owner (tokens (ob_id row)) e row)\<lparr>ob_status := ''leased''\<rparr>) xs)) =
      map ob_id (filter (\<lambda>row. ob_id row \<in> A) xs)" for A e and xs :: "outbox_row list"
      by (induction xs) (auto simp: lease_row_def)
    with False leased show ?thesis by (auto simp: lease_candidates_def Let_def split: if_splits)
  qed
  have ids: "map co_id claims = map ob_id rows"
    using claims by (induction rows arbitrary: claims) (auto simp: claimed_of_def)
  show "length claims = length ?cs"
    using arg_cong [OF ids, where f = length] arg_cong [OF rows, where f = length] filter_by_id [OF assms(1) sub dist]
    by simp
  have "set (map co_id claims) = set (map ob_id (filter (\<lambda>row. ob_id row \<in> ob_id ` set ?cs) (db_outbox d)))"
    using ids rows by simp
  also have "\<dots> = ob_id ` set ?cs" using sub by force
  finally show "co_id ` set claims = ob_id ` set ?cs" by simp
qed

lemma transition_fence_hit:
  assumes "distinct (map ob_id (db_outbox d))" "transition_fence i fence change d = Inr (True, d')"
    and "row' \<in> set (db_outbox d')" "ob_id row' = i"
    and "\<And>row row'. change row = Inr row' \<Longrightarrow> ob_id row' = ob_id row"
  obtains row where "row \<in> set (db_outbox d)" "ob_id row = i" "fence row" "change row = Inr row'"
proof -
  let ?f = "\<lambda>row. if ob_id row = i \<and> fence row then change row else Inr row"
  from assms(2) obtain rows where rows: "mapr ?f (db_outbox d) = Inr rows" "d' = d\<lparr>db_outbox := rows\<rparr>"
    and one: "length (filter (\<lambda>row. ob_id row = i \<and> fence row) (db_outbox d)) = 1"
    by (auto simp: transition_fence_def split: if_splits)
  then have "filter (\<lambda>row. ob_id row = i \<and> fence row) (db_outbox d) \<noteq> []" by auto
  then obtain row where row: "row \<in> set (db_outbox d)" "ob_id row = i" "fence row"
    unfolding filter_empty_conv by blast
  from mapr_mem [OF rows(1)] assms(3) rows(2) obtain row0 where row0: "row0 \<in> set (db_outbox d)" "?f row0 = Inr row'"
    by auto
  then have "ob_id row0 = i" using assms(4,5) by (auto split: if_splits)
  then have "row0 = row" using row_by_id [OF assms(1)] row row0(1) by blast
  then show ?thesis using that row row0 by simp
qed

lemma mark_handed_off_settles:
  assumes "distinct (map ob_id (db_outbox d))" "mark_handed_off claim result now d = Inr (True, d')"
    and "row' \<in> set (db_outbox d')" "ob_id row' = co_id claim"
  shows "settled (ob_status row')"
  using assms(2) unfolding mark_handed_off_def
  by (rule transition_fence_hit [OF assms(1) _ assms(3,4)])
    (auto simp: release_def settled_def Let_def split: if_splits)

lemma list_all2_in_set2: "list_all2 P xs ys \<Longrightarrow> y \<in> set ys \<Longrightarrow> \<exists>x \<in> set xs. P x y"
  by (induction rule: list_all2_induct) auto

section \<open>Properties of the outbox\<close>

text \<open>C16: Whatever sequence of claims, renewals, hand-offs, retries and reconciliations the workers
  commit, an outbox row keeps its identity, owner and encrypted intent, moves only along the delivery
  states, never leaves a delivered or permanently failed state, and once handed off keeps the message
  and request identifiers of that hand-off; no worker operation touches another table.\<close>

theorem outbox_delivery_monotone:
  assumes "outbox_step\<^sup>*\<^sup>* d d'" "distinct (map ob_id (db_outbox d))" "row \<in> set (db_outbox d)"
  shows "d' = d\<lparr>db_outbox := db_outbox d'\<rparr> \<and>
    (\<exists>row'. filter (\<lambda>r. ob_id r = ob_id row) (db_outbox d') = [row'] \<and> same_intent row row' \<and>
      delivery_step\<^sup>*\<^sup>* (ob_status row) (ob_status row') \<and>
      (ob_status row \<in> {''delivered'', ''permanently_failed''} \<longrightarrow> ob_status row' = ob_status row) \<and>
      (settled (ob_status row) \<longrightarrow> same_identity row row'))"
proof -
  have run: "outbox_evolves d d'" using outbox_run_evolves [OF assms(1,2)] .
  have one: "\<exists>row'. filter (\<lambda>r. ob_id r = ob_id row) ys = [row'] \<and> row_evolves row row'"
    if "list_all2 row_evolves xs ys" "distinct (map ob_id xs)" "row \<in> set xs" for xs ys
    using that
  proof (induction rule: list_all2_induct)
    case (Cons x xs y ys)
    then have y: "ob_id y = ob_id x" by (simp add: row_evolves_def same_intent_def)
    show ?case
    proof (cases "row = x")
      case True
      have "map ob_id ys = map ob_id xs"
        using Cons.hyps(2) by (induction rule: list_all2_induct) (simp_all add: row_evolves_def same_intent_def)
      then have "set (map ob_id ys) = set (map ob_id xs)" by (simp only:)
      then have "ob_id x \<notin> ob_id ` set ys" using Cons.prems(1) by simp
      then have "filter (\<lambda>r. ob_id r = ob_id x) ys = []"
        unfolding filter_empty_conv by (metis image_eqI)
      then show ?thesis using True y Cons.hyps(1) by simp
    next
      case False
      then have "row \<in> set xs" and "ob_id x \<noteq> ob_id row" using Cons.prems by auto
      then show ?thesis using Cons y by simp
    qed
  qed simp
  from one [of "db_outbox d" "db_outbox d'"] run assms(2,3) obtain row' where
    "filter (\<lambda>r. ob_id r = ob_id row) (db_outbox d') = [row']" "row_evolves row row'"
    by (auto simp: outbox_evolves_def)
  then show ?thesis
    using run delivery_terminal unfolding outbox_evolves_def row_evolves_def by blast
qed

text \<open>C17: A delivery that was handed to the payment kit is never claimed for sending again, however
  long the workers run and however leases expire afterwards.\<close>

theorem handed_off_never_reclaimed:
  assumes "distinct (map ob_id (db_outbox d))"
    and "mark_handed_off claim result now d = Inr (True, d1)" "outbox_step\<^sup>*\<^sup>* d1 d2"
    and "claim_matching pg tokens locked owner limit lease creator now' later d2 = Inr (claims, d3)"
  shows "co_id claim \<notin> co_id ` set claims"
proof
  assume "co_id claim \<in> co_id ` set claims"
  have dist1: "distinct (map ob_id (db_outbox d1))" using hand_off.keeps_ids [OF assms(1,2)] assms(1) by simp
  have run: "outbox_evolves d1 d2" using outbox_run_evolves [OF assms(3) dist1] .
  then have dist2: "distinct (map ob_id (db_outbox d2))" using outbox_evolves_ids dist1 by metis
  from claim_matching_ids(1) [OF dist2 assms(4)] \<open>co_id claim \<in> co_id ` set claims\<close> obtain row2 where
    cand: "row2 \<in> set (claim_candidates (claimable creator now' d2) locked limit d2)" and id2: "ob_id row2 = co_id claim"
    by auto
  have row2: "row2 \<in> set (db_outbox d2)" "row_due now' row2"
    using candidates_eligible [OF cand] by (auto simp: claimable_def)
  have "list_all2 row_evolves (db_outbox d1) (db_outbox d2)" using run by (simp add: outbox_evolves_def)
  from list_all2_in_set2 [OF this row2(1)] obtain row1 where
    row1: "row1 \<in> set (db_outbox d1)" "row_evolves row1 row2" by blast
  then have "ob_id row1 = co_id claim" using id2 by (simp add: row_evolves_def same_intent_def)
  moreover have "settled (ob_status row)" if "row \<in> set (db_outbox d1)" "ob_id row = co_id claim" for row
    using mark_handed_off_settles [OF assms(1,2)] that by blast
  ultimately have "settled (ob_status row2)"
    using row1 delivery_after_handoff by (auto simp: row_evolves_def)
  then show False using row2(2) by (auto simp: row_due_def settled_def)
qed

text \<open>C18: A claim takes over its row exclusively: an older claim of the same row can no longer hand
  it off, retry, fail, renew or pass the hand-off check, and the new claim itself loses these rights
  when its lease has passed; the refused calls change nothing.\<close>

theorem claim_fences_older_claims:
  assumes "distinct (map ob_id (db_outbox d))"
    and "claim_matching pg tokens locked owner limit lease creator now later d = Inr (claims, d')" "c \<in> set claims"
    and "co_id old = co_id c"
    and "co_claim_token old \<noteq> co_claim_token c \<or>
      (\<exists>secs expiry. lease_seconds lease = Inr secs \<and> pg later (seconds secs) = Some expiry \<and> expiry \<le> t)"
  shows "mark_handed_off old result t d' = Inr (False, d') \<and>
    outbox_transition pg old status error_class delay t d' = Inr (False, d') \<and>
    mark_cancellation_obsolete old t d' = Inr (False, d') \<and>
    \<not> claim_handoff_eligible old t d' \<and>
    (lease_seconds lease' = Inr secs' \<longrightarrow> renew_claim pg old lease' t d' = Inr (False, d'))"
proof -
  have dist': "distinct (map ob_id (db_outbox d'))" using claiming.keeps_ids [OF assms(1,2)] assms(1) by simp
  have dead: "\<not> (ob_status row = ''leased'' \<and> live_claim (co_claim_token old) t row)"
    if "row \<in> set (db_outbox d')" "ob_id row = co_id old" for row
  proof (rule claim_matching_claims [OF assms(1-3)])
    fix row0 secs expiry row' cr
    assume h: "lease_seconds lease = Inr secs" "pg later (seconds secs) = Some expiry"
      "row' = (lease_row owner (tokens (ob_id row0)) expiry row0)\<lparr>ob_status := ''leased''\<rparr>" "row' \<in> set (db_outbox d')"
      "c = \<lparr>co_id = ob_id row0, co_creator = ob_creator row0, co_invoice = ob_invoice row0,
          co_attempt_count = ob_attempt_count row0 + 1, co_failure_count = ob_failure_count row0,
          co_claim_token = tokens (ob_id row0), co_creator_hash = cr_lookup_hash cr,
          co_intent_envelope = ob_intent_envelope row0,
          co_payment_deadline = invoice_deadline d' (ob_invoice row0)\<rparr>"
    then have "row = row'" using row_by_id [OF dist' that(1) h(4)] that(2) assms(4) by (simp add: lease_row_def)
    then show ?thesis using assms(5) h by (auto simp: live_claim_def lease_row_def)
  qed
  show ?thesis using dead_claim_refused [OF dead] by blast
qed

text \<open>C19: A claim serves the longest waiting work: it takes at most the requested number of rows, each
  due, deliverable and not held by another worker, and leaves a due row behind only when it took that
  many rows that were waiting at least as long.\<close>

theorem claim_takes_first_due:
  assumes "distinct (map ob_id (db_outbox d))"
    and "claim_matching pg tokens locked owner limit lease creator now later d = Inr (claims, d')"
  shows "length claims \<le> nat limit \<and>
    (\<forall>c \<in> set claims. \<exists>row \<in> set (db_outbox d). ob_id row = co_id c \<and> row_due now row \<and> proposal_open d row \<and>
       \<not> locked (ob_id row) \<and> (creator = None \<or> creator = Some (ob_creator row))) \<and>
    (\<forall>row \<in> set (db_outbox d). row_due now row \<longrightarrow> proposal_open d row \<longrightarrow> \<not> locked (ob_id row) \<longrightarrow>
       creator = None \<or> creator = Some (ob_creator row) \<longrightarrow> ob_id row \<notin> co_id ` set claims \<longrightarrow>
       length claims = nat limit \<and>
       (\<forall>first \<in> set (db_outbox d). ob_id first \<in> co_id ` set claims \<longrightarrow>
          (ob_next_attempt_at first, ob_id first) \<le> (ob_next_attempt_at row, ob_id row)))"
proof (intro conjI ballI impI)
  let ?cs = "claim_candidates (claimable creator now d) locked limit d"
  note ids = claim_matching_ids [OF assms]
  show "length claims \<le> nat limit" using ids(2) by (simp add: claim_candidates_def)
  show "\<exists>row \<in> set (db_outbox d). ob_id row = co_id c \<and> row_due now row \<and> proposal_open d row \<and>
       \<not> locked (ob_id row) \<and> (creator = None \<or> creator = Some (ob_creator row))" if "c \<in> set claims" for c
  proof -
    have "co_id c \<in> ob_id ` set ?cs" using ids(1) that by blast
    then obtain row where "row \<in> set ?cs" "ob_id row = co_id c" by force
    then show ?thesis using candidates_eligible [of row "claimable creator now d"] unfolding claimable_def by blast
  qed
  fix row
  assume row: "row \<in> set (db_outbox d)" "row_due now row" "proposal_open d row" "\<not> locked (ob_id row)"
    "creator = None \<or> creator = Some (ob_creator row)" "ob_id row \<notin> co_id ` set claims"
  then have "row \<notin> set ?cs" using ids(1) by blast
  with row have first: "length ?cs = nat limit \<and> (\<forall>first \<in> set ?cs. claim_order first \<le> claim_order row)"
    by (intro candidates_first) (auto simp: claimable_def)
  then show "length claims = nat limit" using ids(2) by simp
  show "(ob_next_attempt_at other, ob_id other) \<le> (ob_next_attempt_at row, ob_id row)"
    if "other \<in> set (db_outbox d)" "ob_id other \<in> co_id ` set claims" for other
    using that first ids(1) candidate_row [OF assms(1) that(1)] by auto
qed

text \<open>Wake-up hints are never lost: a wait that follows any hints returns every hinted creator once,
  in order, and leaves none behind.\<close>

theorem wakeup_keeps_hints:
  assumes "hints \<noteq> []" "finite (wk_creators w)"
  shows "\<exists>woken. wakeup_wait (fold wakeup_notify hints w) = Some (woken, wakeup_default) \<and>
    set woken = wk_creators w \<union> set hints \<and> sorted woken \<and> distinct woken"
proof -
  have creators: "wk_creators (fold wakeup_notify hints w) = wk_creators w \<union> set hints" for w
    by (induction hints arbitrary: w) (auto simp: wakeup_notify_def)
  have "wk_permit (fold wakeup_notify xs w)" if "xs \<noteq> []" for xs w
    using that by (induction xs arbitrary: w rule: rev_induct) (auto simp: wakeup_notify_def)
  with assms creators show ?thesis by (simp add: wakeup_wait_def wakeup_default_def)
qed

theorem wakeup_keeps_hints_witness:
  "\<exists>woken. wakeup_wait (fold wakeup_notify [9, 4, 9] wakeup_default) = Some (woken, wakeup_default) \<and>
     set woken = {4, 9} \<and> sorted woken \<and> distinct woken"
  using wakeup_keeps_hints [of "[9, 4, 9]" wakeup_default] by (auto simp: wakeup_default_def)

section \<open>A concrete claim\<close>

definition example_cancellation :: outbox_row where
  "example_cancellation = (queued_proposal 13 1 12 ''e'' ''h'' 0)
     \<lparr>ob_intent_kind := ''payment_request_cancellation'', ob_cancellation_target := Some ''request'',
      ob_proposal_lookup_hash := None\<rparr>"

definition example_leased :: outbox_row where
  "example_leased = (lease_row 77 113 60000000000 example_cancellation)\<lparr>ob_status := ''leased''\<rparr>"

definition example_queue :: db where
  "example_queue = example_db\<lparr>db_outbox := [example_cancellation]\<rparr>"

definition example_claim :: claimed_outbox where
  "example_claim = \<lparr>co_id = 13, co_creator = 1, co_invoice = Some 12, co_attempt_count = 1, co_failure_count = 0,
     co_claim_token = 113, co_creator_hash = hash_of example_env ''creator'', co_intent_envelope = ''e'',
     co_payment_deadline = None\<rparr>"

abbreviation minute :: duration where
  "minute \<equiv> \<lparr>dur_secs = 60, dur_nanos = 0\<rparr>"

abbreviation exact_add :: pg_add where
  "exact_add \<equiv> \<lambda>t x. Some (t + x)"

lemma example_claimed:
  "claim_matching exact_add (\<lambda>i. i + 100) (\<lambda>_. False) 77 1 minute None 0 0 example_queue =
     Inr ([example_claim], example_queue\<lparr>db_outbox := [example_leased]\<rparr>)"
proof -
  have "claim_candidates (claimable None 0 example_queue) (\<lambda>_. False) 1 example_queue = [example_cancellation]"
    by (simp add: claim_candidates_def example_queue_def claimable_def row_due_def proposal_open_def
        example_cancellation_def queued_proposal_def)
  moreover have "(lease_row 77 113 60000000000 example_cancellation)\<lparr>ob_status := ''leased''\<rparr> = example_leased"
    "ob_id example_cancellation = 13" "ob_id example_leased = 13" "ob_attempt_count example_cancellation = 0"
    by (simp_all add: example_leased_def example_cancellation_def lease_row_def queued_proposal_def)
  moreover have "claimed_of (example_queue\<lparr>db_outbox := [example_leased]\<rparr>) example_leased = Inr example_claim"
    by (simp add: claimed_of_def example_leased_def lease_row_def example_cancellation_def queued_proposal_def
        find_creator_def example_queue_def example_db_def invoice_deadline_def find_invoice_def example_claim_def)
  moreover have "lease_seconds minute = Inr 60" by (simp add: lease_seconds_def i64_try_from_def i64_max_def)
  ultimately show ?thesis
    by (simp add: claim_matching_claimable lease_candidates_def Let_def i32_max_def)
      (simp add: example_queue_def)
qed

lemma example_queue_ids: "distinct (map ob_id (db_outbox example_queue))"
  by (simp add: example_queue_def)

lemma example_row_in_queue: "example_cancellation \<in> set (db_outbox example_queue)"
  by (simp add: example_queue_def)

theorem outbox_delivery_monotone_witness:
  "\<exists>row'. filter (\<lambda>r. ob_id r = 13) (db_outbox (example_queue\<lparr>db_outbox := [example_leased]\<rparr>)) = [row'] \<and>
     same_intent example_cancellation row'"
proof -
  have "outbox_step\<^sup>*\<^sup>* example_queue (example_queue\<lparr>db_outbox := [example_leased]\<rparr>)"
    using outbox_step.claim [OF example_claimed] by (rule r_into_rtranclp)
  moreover have "ob_id example_cancellation = 13" by (simp add: example_cancellation_def)
  ultimately show ?thesis
    using outbox_delivery_monotone [OF _ example_queue_ids example_row_in_queue] by metis
qed

theorem claim_fences_older_claims_witness:
  "mark_handed_off (example_claim\<lparr>co_claim_token := 5\<rparr>) (CancellationSent 1 ''e'' ''r'') 0
     (example_queue\<lparr>db_outbox := [example_leased]\<rparr>) = Inr (False, example_queue\<lparr>db_outbox := [example_leased]\<rparr>)"
  using claim_fences_older_claims [OF example_queue_ids example_claimed, of example_claim
      "example_claim\<lparr>co_claim_token := 5\<rparr>" 0] by (auto simp: example_claim_def)

theorem claim_takes_first_due_witness:
  "\<exists>row \<in> set (db_outbox example_queue). ob_id row = co_id example_claim \<and> row_due 0 row"
  using claim_takes_first_due [OF example_queue_ids example_claimed] by auto

text \<open>The claimed cancellation handed off, then offered to the workers once more.\<close>

definition example_sent :: db where
  "example_sent = example_queue\<lparr>db_outbox := [release (example_leased\<lparr>ob_status := ''handed_off'',
     ob_sdk_outbound_message_id := Some (dec_show 1), ob_sdk_event_id := Some ''e'',
     ob_sdk_payment_request_id := Some ''r'', ob_error_class := None, ob_failure_count := 0\<rparr>)]\<rparr>"

lemma example_handed_off:
  "mark_handed_off example_claim (CancellationSent 1 ''e'' ''r'') 0 (example_queue\<lparr>db_outbox := [example_leased]\<rparr>) =
     Inr (True, example_sent)"
proof -
  have "ob_id example_leased = 13" "ob_status example_leased = ''leased''" "live_claim 113 0 example_leased"
    by (simp_all add: example_leased_def lease_row_def example_cancellation_def live_claim_def)
  moreover have "request_identity_ok (release (example_leased\<lparr>ob_status := ''handed_off'',
     ob_sdk_outbound_message_id := Some (dec_show 1), ob_sdk_event_id := Some ''e'',
     ob_sdk_payment_request_id := Some ''r'', ob_error_class := None, ob_failure_count := 0\<rparr>))"
    by (simp add: request_identity_ok_def release_def example_leased_def lease_row_def example_cancellation_def)
  ultimately show ?thesis
    by (simp add: mark_handed_off_def transition_fence_def example_claim_def example_sent_def Let_def)
qed

theorem handed_off_never_reclaimed_witness:
  "claim_matching exact_add (\<lambda>i. i + 100) (\<lambda>_. False) 77 1 minute None 9 9 example_sent = Inr ([], example_sent) \<and>
   co_id example_claim \<notin> co_id ` set ([] :: claimed_outbox list)"
proof -
  have "claim_candidates (claimable None 9 example_sent) (\<lambda>_. False) 1 example_sent = []"
    by (simp add: claim_candidates_def example_sent_def claimable_def row_due_def release_def)
  moreover have "lease_seconds minute = Inr 60" by (simp add: lease_seconds_def i64_try_from_def i64_max_def)
  ultimately have none: "claim_matching exact_add (\<lambda>i. i + 100) (\<lambda>_. False) 77 1 minute None 9 9 example_sent =
      Inr ([], example_sent)"
    by (simp add: claim_matching_claimable lease_candidates_def)
  have "distinct (map ob_id (db_outbox (example_queue\<lparr>db_outbox := [example_leased]\<rparr>)))" by simp
  from handed_off_never_reclaimed [OF this example_handed_off rtranclp.rtrancl_refl none] none show ?thesis by blast
qed

section \<open>From admission to delivery\<close>

lemma candidates_all:
  assumes "row \<in> set (db_outbox d)" "eligible row" "\<not> locked (ob_id row)" "int (length (db_outbox d)) \<le> limit"
  shows "row \<in> set (claim_candidates eligible locked limit d)"
proof -
  have "length (filter (\<lambda>row. eligible row \<and> \<not> locked (ob_id row)) (db_outbox d)) \<le> nat limit"
    using assms(4) length_filter_le [of "\<lambda>row. eligible row \<and> \<not> locked (ob_id row)" "db_outbox d"] by linarith
  then show ?thesis using assms(1-3) by (simp add: claim_candidates_def)
qed

lemma find_unique_creator:
  assumes "distinct (map cr_id (db_creators d))" "find_creator d i = Some a" "b \<in> set (db_creators d)" "cr_id b = i"
  shows "a = b"
  using assms by (auto simp: find_creator_def find_Some_iff distinct_map inj_on_def)

lemma admitted_generation_open:
  assumes "admit_new env fresh input creator windows deadlines d = Inr (r, d')"
  shows "generation_open d' (fr_invoice_id fresh)"
proof (rule admit_new_Inr [OF assms], goal_cases)
  case (1 generation intent ae re ie oe reference payment_record d1 d2 d3 d4)
  note a = 1(9) and b = 1(10) and v = 1(15) and ob = 1(17)
  have gens: "db_generations d' = db_generations d1"
    by (simp add: frames(1-7) [OF a] frames(8-15) [OF b] frames(16-21) [OF v] frames(22-) [OF ob])
  have "generation \<in> set (db_generations d1)" "lg_creator generation = cr_id creator"
    "lg_lock_hash generation = hash_of env (in_lock_binding input)"
    using 1(2) by (auto simp: find_generation_def find_Some_iff)
  moreover have "new_invoice env fresh input creator windows deadlines (lg_current_generation generation)
      payment_record re ie \<in> set (db_invoices d')"
    using bundles.insert_rows [OF v] by (simp add: frames(22-) [OF ob])
  ultimately show ?case
    using 1(3) gens unfolding generation_open_def list_ex_iff
    by (intro bexI [of _ "new_invoice env fresh input creator windows deadlines (lg_current_generation generation)
      payment_record re ie"] conjI bexI [of _ generation]) simp_all
qed

text \<open>C20: An admitted invoice is delivered as recorded: every claim that is wide enough and not blocked
  by another worker includes the invoice's proposal, and the intent that the worker decrypts from the
  claim is the one stored with the invoice.\<close>

theorem admitted_proposal_reaches_worker:
  assumes "store_ok d" "aead_correct (prims (env_crypto env))" "codecs_ok env" "nonces_ok fresh"
    and "create_atomic env fresh input d = Inr (r, d1)" "\<not> ai_replayed r"
    and "claim_matching pg tokens locked owner limit lease None now later d1 = Inr (claims, d2)"
    and "\<not> locked (ai_outbox_id r)" "fr_transaction_now fresh \<le> now" "int (length (db_outbox d1)) \<le> limit"
  shows "\<exists>c \<in> set claims. \<exists>v \<in> set (db_invoices d1). \<exists>intent. co_id c = ai_outbox_id r \<and> iv_id v = ai_invoice_id r \<and>
    co_invoice c = Some (iv_id v) \<and> outbox_delivery_intent env c = Inr intent \<and>
    bindr (open_column env (ctx_invoice (hash_of env (in_creator input)) (iv_id v)) (iv_invoice_envelope v))
      (decode_intent env) = Inr intent"
  using assms(5)
proof (cases rule: create_atomic_Inr)
  case replayed
  then show ?thesis using assms(6) by simp
next
  case (admitted creator acceptance window expires deadline)
  have keys1: "keys_ok d1" using assms(1) admit_new_keys [OF admitted(5)] by (simp add: store_ok_def)
  then have dist1: "distinct (map ob_id (db_outbox d1))" by (simp add: keys_ok_def)
  have creator: "creator \<in> set (db_creators d)" "cr_lookup_hash creator = hash_of env (in_creator input)"
    and len: "length (hash_of env (in_creator input)) = 32"
    using admitted(2) by (auto simp: find_creator_by_hash_Inr find_Some_iff)
  show ?thesis
  proof (rule admit_new_rows [OF admitted(5)], goal_cases)
    case (1 generation payment_record re ie ae oe reference intent)
    let ?row = "queued_proposal (fr_outbox_id fresh) (cr_id creator) (fr_invoice_id fresh) oe
      (payment_request_proposal_lookup_hash (env_crypto env) reference) (fr_transaction_now fresh)"
    let ?v = "new_invoice env fresh input creator (acceptance, window) (expires, deadline) generation payment_record re ie"
    let ?cs = "claim_candidates (claimable None now d1) locked limit d1"
    have row: "?row \<in> set (db_outbox d1)" by (simp add: 1(3))
    have "claimable None now d1 ?row"
      using admitted_generation_open [OF admitted(5)] assms(9)
      by (simp add: claimable_def row_due_def proposal_open_def) (simp add: queued_proposal_def)
    moreover have "\<not> locked (ob_id ?row)" using assms(8) 1(15) by simp
    ultimately have "?row \<in> set ?cs" using candidates_all [OF row] assms(10) by blast
    then have "ob_id ?row \<in> co_id ` set claims" using claim_matching_ids(1) [OF dist1 assms(7)] by blast
    then obtain c where c: "c \<in> set claims" "co_id c = ob_id ?row" by auto
    have creator1: "creator\<lparr>cr_next_child_index := cr_next_child_index creator + 1\<rparr> \<in> set (db_creators d1)"
      using creator(1) by (force simp: 1(4) set_update_where)
    have opened: "bindr (open_column env (ctx_invoice (hash_of env (in_creator input)) (fr_invoice_id fresh)) ie)
        (decode_intent env) = Inr intent"
      "bindr (open_column env (ctx_outbox_semantic_intent (hash_of env (in_creator input)) (fr_outbox_id fresh)) oe)
        (decode_intent env) = Inr intent"
      using decode_sealed_intent [OF assms(2,3) _ 1(9)] decode_sealed_intent [OF assms(2,3) _ 1(12)]
        dated_intent_Inr [OF 1(7)] assms(4) unfolding nonces_ok_def by blast+
    show ?case
    proof (rule claim_matching_claims [OF dist1 assms(7) c(1)])
      fix row0 secs expiry row' cr
      assume h: "row0 \<in> set ?cs" "find_creator d2 (ob_creator row0) = Some cr"
        "c = \<lparr>co_id = ob_id row0, co_creator = ob_creator row0, co_invoice = ob_invoice row0,
          co_attempt_count = ob_attempt_count row0 + 1, co_failure_count = ob_failure_count row0,
          co_claim_token = tokens (ob_id row0), co_creator_hash = cr_lookup_hash cr,
          co_intent_envelope = ob_intent_envelope row0,
          co_payment_deadline = invoice_deadline d2 (ob_invoice row0)\<rparr>"
      have "row0 = ?row"
        using row_by_id [OF dist1 _ row] candidates_eligible [OF h(1)] c(2) h(3) by simp
      moreover have "cr_lookup_hash cr = hash_of env (in_creator input)"
      proof -
        have "find_creator d1 (cr_id creator) = Some cr"
          using h(2) claiming.keeps_tables(3) [OF dist1 assms(7)] \<open>row0 = ?row\<close> by (simp add: find_creator_def)
        then show ?thesis
          using find_unique_creator [OF _ _ creator1] keys1 creator(2) by (fastforce simp: keys_ok_def)
      qed
      ultimately show ?thesis
        using c(1) h(3) opened 1(15) len
        by (intro bexI [OF _ c(1)] bexI [of _ ?v] exI [of _ intent])
          (simp_all add: outbox_delivery_intent_def decrypt_delivery_intent_def lookup_hash_from_storage_def 1(1)
            del: bindr_eq_Inr)
    qed
  qed
qed

lemma example_admitted_rows:
  obtains r d1 oe h where "create_atomic example_env example_fresh example_input example_db = Inr (r, d1)"
    "\<not> ai_replayed r" "ai_outbox_id r = 13" "db_outbox d1 = [queued_proposal 13 1 12 oe h 0]"
    "generation_open d1 12" "\<exists>c \<in> set (db_creators d1). cr_id c = 1"
proof -
  from example_admission obtain r d1 where run: "create_atomic example_env example_fresh example_input example_db = Inr (r, d1)"
    and r: "\<not> ai_replayed r" "ai_outbox_id r = 13" by fastforce
  from run show ?thesis
  proof (cases rule: create_atomic_Inr)
    case replayed
    then show ?thesis using r by simp
  next
    case (admitted creator acceptance window expires deadline)
    have id: "cr_id creator = 1" using admitted(2) example_creator by simp
    show ?thesis
      using admitted_generation_open [OF admitted(5)] id
      by (rule_tac admit_new_rows [OF admitted(5)], rule_tac that [OF run r])
        (simp_all add: example_db_def example_fresh_def)
  qed
qed

theorem admitted_proposal_reaches_worker_witness:
  "\<exists>r d1 claims d2. create_atomic example_env example_fresh example_input example_db = Inr (r, d1) \<and>
     claim_matching exact_add (\<lambda>i. i + 100) (\<lambda>_. False) 77 1 minute None 0 0 d1 = Inr (claims, d2) \<and>
     (\<exists>c \<in> set claims. co_id c = 13 \<and> (\<exists>intent. outbox_delivery_intent example_env c = Inr intent))"
proof (rule example_admitted_rows)
  fix r d1 oe h
  assume a: "create_atomic example_env example_fresh example_input example_db = Inr (r, d1)" "\<not> ai_replayed r"
    "ai_outbox_id r = 13" "db_outbox d1 = [queued_proposal 13 1 12 oe h 0]" "generation_open d1 12"
    "\<exists>c \<in> set (db_creators d1). cr_id c = 1"
  let ?row = "queued_proposal 13 1 12 oe h 0"
  let ?leased = "(lease_row 77 113 60000000000 ?row)\<lparr>ob_status := ''leased''\<rparr>"
  have cand: "claim_candidates (claimable None 0 d1) (\<lambda>_. False) 1 d1 = [?row]"
    using a(5) by (simp add: claim_candidates_def a(4) claimable_def row_due_def proposal_open_def)
      (simp add: queued_proposal_def)
  have "find (\<lambda>c. cr_id c = 1) (db_creators d1) \<noteq> None" using a(6) unfolding find_None_iff by blast
  then obtain cr where "find (\<lambda>c. cr_id c = 1) (db_creators d1) = Some cr" by blast
  then have "\<exists>c. claimed_of (d1\<lparr>db_outbox := [?leased]\<rparr>) ?leased = Inr c"
    by (simp add: claimed_of_def lease_row_def find_creator_def)
  then obtain c where c: "claimed_of (d1\<lparr>db_outbox := [?leased]\<rparr>) ?leased = Inr c" by blast
  have "ob_id ?leased = 13" "ob_attempt_count ?row = 0" by (simp_all add: lease_row_def queued_proposal_def)
  then have "lease_candidates exact_add (\<lambda>i. i + 100) 77 60 0 (\<lambda>row. row\<lparr>ob_status := ''leased''\<rparr>) [?row] d1 =
      Inr ([?leased], d1\<lparr>db_outbox := [?leased]\<rparr>)"
    by (simp add: lease_candidates_def a(4) i32_max_def)
  moreover have "lease_seconds minute = Inr 60" by (simp add: lease_seconds_def i64_try_from_def i64_max_def)
  ultimately have "claim_matching exact_add (\<lambda>i. i + 100) (\<lambda>_. False) 77 1 minute None 0 0 d1 =
      Inr ([c], d1\<lparr>db_outbox := [?leased]\<rparr>)"
    using c by (simp add: claim_matching_claimable cand)
  with admitted_proposal_reaches_worker [OF example_db_ok example_env_ok(1,2,4) a(1,2) this] a(1,3,4) show ?thesis
    by (intro exI conjI) (assumption, assumption, auto simp: example_fresh_def)
qed

end
