(* ===== verification/Lifecycle_Store.thy ===== *)
theory Lifecycle_Store
  imports Outbox_Delivery
begin

text \<open>
  The payment request lifecycles of persistence/payment\_request\_lifecycles.rs: the attribution of a
  reported request to queued work, the monotone record of its state, and the receive evidence that a
  later decision needs.
\<close>

section \<open>Owners and source positions\<close>

datatype lifecycle_owner = OwnerInvoice uuid | OwnerMarketplace uuid

datatype lifecycle_apply = LifecycleApplied | LifecycleExactReplay | LifecycleNotAttributable

definition lifecycle_owner_of :: "uuid option \<Rightarrow> uuid option \<Rightarrow> (persistence_error, lifecycle_owner) res" where
  "lifecycle_owner_of invoice preparation =
     (case (invoice, preparation) of
        (Some i, None) \<Rightarrow> Inr (OwnerInvoice i)
      | (None, Some p) \<Rightarrow> Inr (OwnerMarketplace p)
      | _ \<Rightarrow> Inl CorruptOrMissing)"

definition validate_projection :: "lifecycle_projection \<Rightarrow> (persistence_error, unit) res" where
  "validate_projection projection =
     guardr (lp_payment_request_id projection = [] \<or> lp_state_event_id projection = Some [] \<or>
        lp_last_stream_item_id projection = None \<and> lp_last_outbound_message_id projection = None)
       StoreInvalidInput"

definition optional_cursor :: "u64 option \<Rightarrow> (persistence_error, int option) res" where
  "optional_cursor value =
     (case value of
        None \<Rightarrow> Inr None
      | Some v \<Rightarrow> bindr (ok_or (i64_try_from v) StoreInvalidInput) (\<lambda>i. Inr (Some i)))"

text \<open>The clock type's constructor from nanoseconds checks its range; the database keeps microseconds.\<close>

definition postgres_timestamp :: "(int \<Rightarrow> int option) \<Rightarrow> int \<Rightarrow> (persistence_error, int) res" where
  "postgres_timestamp from_nanos t =
     (let micros = t div 1000 in ok_or (from_nanos (micros * 1000)) StoreInvalidInput)"

definition cursor_regressed :: "int option \<Rightarrow> int option \<Rightarrow> bool" where
  "cursor_regressed incoming existing =
     (case (incoming, existing) of
        (None, Some _) \<Rightarrow> True
      | (Some i, Some e) \<Rightarrow> i < e
      | _ \<Rightarrow> False)"

definition lifecycle_exact_replay ::
  "lifecycle_row \<Rightarrow> lifecycle_projection \<Rightarrow> int option \<Rightarrow> int option \<Rightarrow> int \<Rightarrow> bool" where
  "lifecycle_exact_replay existing incoming stream_cursor outbound_cursor event_at \<longleftrightarrow>
     lr_payment_request_id existing = lp_payment_request_id incoming \<and>
     lr_request_state existing = request_state_str (lp_request_state incoming) \<and>
     lr_state_event_id existing = lp_state_event_id incoming \<and>
     lr_last_stream_item_id existing = stream_cursor \<and>
     lr_last_outbound_message_id existing = outbound_cursor \<and>
     lr_last_event_at existing = event_at"

section \<open>Attribution\<close>

definition direct_owners ::
  "db \<Rightarrow> uuid \<Rightarrow> string \<Rightarrow> (persistence_error, lifecycle_owner list) res" where
  "direct_owners d creator_id payment_request_id =
     mapr (\<lambda>(invoice, preparation). lifecycle_owner_of invoice preparation)
       (remdups (map (\<lambda>row. (ob_invoice row, ob_preparation row))
         (filter (\<lambda>row. ob_creator row = creator_id \<and> ob_sdk_payment_request_id row = Some payment_request_id \<and>
            (ob_invoice row = None) \<noteq> (ob_preparation row = None)) (db_outbox d))))"

fun semantic_owners ::
  "('r, 'd) env \<Rightarrow> string \<Rightarrow> proposal_correlation \<Rightarrow> outbox_row list \<Rightarrow> lifecycle_owner list
     \<Rightarrow> (persistence_error, lifecycle_owner list) res" where
  "semantic_owners env creator_hash proposal [] owners = Inr owners"
| "semantic_owners env creator_hash proposal (row # rows) owners =
     bindr (decrypt_delivery_intent env (ob_id row) creator_hash (ob_intent_envelope row)) (\<lambda>intent.
     if matches_proposal intent (pc_reader_pubky proposal) (pc_app_id proposal) (pc_terms proposal)
     then bindr (lifecycle_owner_of (ob_invoice row) (ob_preparation row)) (\<lambda>owner.
       semantic_owners env creator_hash proposal rows (if owner \<in> set owners then owners else owners @ [owner]))
     else semantic_owners env creator_hash proposal rows owners)"

definition intent_rows :: "('r, 'd) env \<Rightarrow> db \<Rightarrow> uuid \<Rightarrow> proposal_correlation \<Rightarrow> outbox_row list" where
  "intent_rows env d creator_id proposal =
     sort_key ob_id (filter (\<lambda>row. ob_creator row = creator_id \<and>
       ob_proposal_lookup_hash row =
         Some (payment_request_proposal_lookup_hash (env_crypto env) (pt_payment_reference (pc_terms proposal))))
       (db_outbox d))"

text \<open>The owner of a projection, or none when nothing of the creator's work matches it.\<close>

definition attributed_owner ::
  "('r, 'd) env \<Rightarrow> db \<Rightarrow> uuid \<Rightarrow> lifecycle_projection \<Rightarrow> (persistence_error, lifecycle_owner option) res" where
  "attributed_owner env d creator_id projection =
     bindr (direct_owners d creator_id (lp_payment_request_id projection)) (\<lambda>direct.
     if 1 < length direct then Inl CorruptOrMissing
     else
       bindr (case find_creator d creator_id of
                None \<Rightarrow> Inr []
              | Some c \<Rightarrow> semantic_owners env (cr_lookup_hash c) (lp_proposal projection)
                  (intent_rows env d creator_id (lp_proposal projection)) []) (\<lambda>semantic.
       if semantic = [] \<and> direct = [] then Inr None
       else case semantic of
           [owner] \<Rightarrow> if direct = [] \<or> hd direct = owner then Inr (Some owner) else Inl CorruptOrMissing
         | _ \<Rightarrow> Inl CorruptOrMissing))"

definition settlement_active :: "db \<Rightarrow> uuid \<Rightarrow> (settlement_row \<Rightarrow> bool) \<Rightarrow> bool" where
  "settlement_active d preparation p =
     list_ex (\<lambda>s. ms_preparation s = preparation \<and> p s \<and>
       list_ex (\<lambda>m. mp_id m = ms_preparation s \<and> mp_creator m = ms_creator s \<and> mp_state m = ''active'') (db_preparations d))
       (db_settlements d)"

definition lock_owner :: "db \<Rightarrow> uuid \<Rightarrow> lifecycle_owner \<Rightarrow> (persistence_error, unit) res" where
  "lock_owner d creator_id owner =
     guardr (\<not> (case owner of
         OwnerInvoice i \<Rightarrow> list_ex (\<lambda>v. iv_id v = i \<and> iv_creator v = creator_id) (db_invoices d)
       | OwnerMarketplace p \<Rightarrow> settlement_active d p (\<lambda>s. ms_creator s = creator_id))) CorruptOrMissing"

definition owner_accepts_requests :: "db \<Rightarrow> lifecycle_owner \<Rightarrow> bool" where
  "owner_accepts_requests d owner =
     (case owner of
        OwnerInvoice i \<Rightarrow> generation_open d i
      | OwnerMarketplace p \<Rightarrow> settlement_active d p (\<lambda>_. True))"

section \<open>Applying a projection\<close>

definition new_lifecycle ::
  "lifecycle_owner \<Rightarrow> lifecycle_projection \<Rightarrow> int option \<Rightarrow> int option \<Rightarrow> int \<Rightarrow> lifecycle_row" where
  "new_lifecycle owner projection stream_cursor outbound_cursor event_at =
     \<lparr>lr_payment_request_id = lp_payment_request_id projection,
      lr_invoice = (case owner of OwnerInvoice i \<Rightarrow> Some i | _ \<Rightarrow> None),
      lr_preparation = (case owner of OwnerMarketplace p \<Rightarrow> Some p | _ \<Rightarrow> None),
      lr_request_state = request_state_str (lp_request_state projection),
      lr_state_event_id = lp_state_event_id projection,
      lr_last_stream_item_id = stream_cursor, lr_last_outbound_message_id = outbound_cursor,
      lr_last_event_at = event_at\<rparr>"

definition lifecycle_conflict ::
  "lifecycle_owner \<Rightarrow> lifecycle_owner \<Rightarrow> request_state \<Rightarrow> lifecycle_row \<Rightarrow> lifecycle_projection
     \<Rightarrow> int option \<Rightarrow> int option \<Rightarrow> int \<Rightarrow> bool" where
  "lifecycle_conflict owner existing_owner existing_state existing projection stream_cursor outbound_cursor event_at \<longleftrightarrow>
     existing_owner \<noteq> owner \<or>
     lr_payment_request_id existing \<noteq> lp_payment_request_id projection \<or>
     existing_state = ProposalExpired \<and> lp_request_state projection = Proposed \<or>
     cursor_regressed stream_cursor (lr_last_stream_item_id existing) \<or>
     cursor_regressed outbound_cursor (lr_last_outbound_message_id existing) \<or>
     event_at < lr_last_event_at existing \<or>
     stream_cursor = lr_last_stream_item_id existing \<and> outbound_cursor = lr_last_outbound_message_id existing \<and>
       \<not> (lr_state_event_id existing = lp_state_event_id projection \<and>
          (existing_state = lp_request_state projection \<or>
           cursor_stable_transition_allowed existing_state (lp_request_state projection)))"

definition update_lifecycle ::
  "lifecycle_projection \<Rightarrow> int option \<Rightarrow> int option \<Rightarrow> int \<Rightarrow> lifecycle_row \<Rightarrow> lifecycle_row" where
  "update_lifecycle projection stream_cursor outbound_cursor event_at row =
     row\<lparr>lr_request_state := request_state_str (lp_request_state projection),
         lr_state_event_id := lp_state_event_id projection,
         lr_last_stream_item_id := stream_cursor, lr_last_outbound_message_id := outbound_cursor,
         lr_last_event_at := event_at\<rparr>"

definition find_lifecycle :: "db \<Rightarrow> string \<Rightarrow> lifecycle_row option" where
  "find_lifecycle d i = find (\<lambda>row. lr_payment_request_id row = i) (db_lifecycles d)"

definition record_lifecycle ::
  "lifecycle_owner \<Rightarrow> lifecycle_projection \<Rightarrow> int option \<Rightarrow> int option \<Rightarrow> int \<Rightarrow> db
     \<Rightarrow> (persistence_error, lifecycle_apply \<times> db) res" where
  "record_lifecycle owner projection stream_cursor outbound_cursor event_at d =
     (case find_lifecycle d (lp_payment_request_id projection) of
        Some existing \<Rightarrow>
          if lifecycle_exact_replay existing projection stream_cursor outbound_cursor event_at
          then Inr (LifecycleExactReplay, d)
          else
            bindr (ok_or (request_state_parse (lr_request_state existing)) CorruptOrMissing) (\<lambda>existing_state.
            bindr (lifecycle_owner_of (lr_invoice existing) (lr_preparation existing)) (\<lambda>existing_owner.
            if lifecycle_conflict owner existing_owner existing_state existing projection
                 stream_cursor outbound_cursor event_at
            then Inl StoreConflict
            else Inr (LifecycleApplied,
              d\<lparr>db_lifecycles := update_where (\<lambda>row. lr_payment_request_id row = lp_payment_request_id projection)
                  (update_lifecycle projection stream_cursor outbound_cursor event_at) (db_lifecycles d)\<rparr>)))
      | None \<Rightarrow>
          if owner_accepts_requests d owner
          then Inr (LifecycleApplied, d\<lparr>db_lifecycles := db_lifecycles d @
                 [new_lifecycle owner projection stream_cursor outbound_cursor event_at]\<rparr>)
          else Inl StoreConflict)"

definition apply_lifecycle ::
  "('r, 'd) env \<Rightarrow> (int \<Rightarrow> int option) \<Rightarrow> uuid \<Rightarrow> lifecycle_projection \<Rightarrow> db
     \<Rightarrow> (persistence_error, lifecycle_apply \<times> db) res" where
  "apply_lifecycle env from_nanos creator_id projection d =
     bindr (validate_projection projection) (\<lambda>_.
     bindr (optional_cursor (lp_last_stream_item_id projection)) (\<lambda>stream_cursor.
     bindr (optional_cursor (lp_last_outbound_message_id projection)) (\<lambda>outbound_cursor.
     bindr (postgres_timestamp from_nanos (lp_last_event_at projection)) (\<lambda>event_at.
     bindr (attributed_owner env d creator_id projection) (\<lambda>attributed.
     case attributed of
       None \<Rightarrow> Inr (LifecycleNotAttributable, d)
     | Some owner \<Rightarrow>
         bindr (lock_owner d creator_id owner) (\<lambda>_.
         record_lifecycle owner projection stream_cursor outbound_cursor event_at d))))))"

section \<open>Reading lifecycles\<close>

definition decode_attempts :: "(string \<times> int) list \<Rightarrow> (persistence_error, (request_state \<times> int) list) res" where
  "decode_attempts rows =
     mapr (\<lambda>(s, t). bindr (ok_or (request_state_parse s) CorruptOrMissing) (\<lambda>st. Inr (st, t))) rows"

definition load_lifecycle ::
  "('r, 'd) env \<Rightarrow> db \<Rightarrow> string \<Rightarrow> uuid \<Rightarrow> (persistence_error, persisted_lifecycle option) res" where
  "load_lifecycle env d creator bundle_id =
     (let creator_hash = crypto_lookup_hash (env_crypto env) creator;
          bundle_hash = crypto_lookup_hash (env_crypto env) (uuid_bytes bundle_id);
          owned = (\<lambda>i. list_ex (\<lambda>v. iv_id v = i \<and> iv_bundle_hash v = bundle_hash \<and>
            list_ex (\<lambda>c. cr_id c = iv_creator v \<and> cr_lookup_hash c = creator_hash) (db_creators d)) (db_invoices d))
      in bindr (decode_attempts (map (\<lambda>l. (lr_request_state l, lr_last_event_at l))
           (filter (\<lambda>l. case lr_invoice l of Some i \<Rightarrow> owned i | None \<Rightarrow> False) (db_lifecycles d)))) (\<lambda>attempts.
         Inr (aggregate_lifecycle attempts)))"

definition load_marketplace_lifecycle ::
  "('r, 'd) env \<Rightarrow> db \<Rightarrow> string \<Rightarrow> uuid \<Rightarrow> (persistence_error, persisted_lifecycle option) res" where
  "load_marketplace_lifecycle env d creator preparation_id =
     (let creator_hash = crypto_lookup_hash (env_crypto env) creator;
          settled_by = (\<lambda>p. list_ex (\<lambda>s. ms_preparation s = p \<and>
            list_ex (\<lambda>c. cr_id c = ms_creator s \<and> cr_lookup_hash c = creator_hash) (db_creators d)) (db_settlements d))
      in bindr (decode_attempts (map (\<lambda>l. (lr_request_state l, lr_last_event_at l))
           (filter (\<lambda>l. lr_preparation l = Some preparation_id \<and> settled_by preparation_id) (db_lifecycles d)))) (\<lambda>attempts.
         Inr (aggregate_lifecycle attempts)))"

definition lifecycle_creator_ids :: "db \<Rightarrow> uuid list" where
  "lifecycle_creator_ids d =
     sort (remdups (map ob_creator (filter (\<lambda>row. ob_invoice row \<noteq> None \<or> ob_preparation row \<noteq> None) (db_outbox d))))"

section \<open>Receive evidence\<close>

text \<open>A required target is the counterparty of a proposal.\<close>

fun decode_required_receive_targets ::
  "('r, 'd) env \<Rightarrow> (uuid \<times> string \<times> string) list \<Rightarrow> string list \<Rightarrow> (persistence_error, string list) res" where
  "decode_required_receive_targets env [] targets = Inr targets"
| "decode_required_receive_targets env ((i, creator_hash, envelope) # rows) targets =
     bindr (decrypt_delivery_intent env i creator_hash envelope) (\<lambda>intent.
     case intent_operation intent of
       PaymentRequestProposal _ \<Rightarrow>
         decode_required_receive_targets env rows
           (if intent_reader_pubky intent \<in> set targets then targets else targets @ [intent_reader_pubky intent])
     | PaymentRequestCancellation _ \<Rightarrow> Inl CorruptOrMissing)"

definition receive_evidence_covers :: "string list \<Rightarrow> string list \<Rightarrow> bool" where
  "receive_evidence_covers current evidence = list_all (\<lambda>target. target \<in> set evidence) current"

definition open_request_state :: "string \<Rightarrow> bool" where
  "open_request_state s \<longleftrightarrow> s \<notin> {''proposal_expired'', ''rejected'', ''canceled''}"

text \<open>The proposal of an invoice whose request may still change, the earliest one first.\<close>

definition pending_proposal :: "db \<Rightarrow> invoice_row \<Rightarrow> outbox_row option" where
  "pending_proposal d v =
     (let proposals = sort_key (\<lambda>row. (ob_created_at row, ob_id row))
            (filter (\<lambda>row. ob_invoice row = Some (iv_id v) \<and> ob_intent_kind row = ''payment_request_proposal'' \<and>
               (ob_status row \<noteq> ''permanently_failed'' \<and>
                  \<not> list_ex (\<lambda>l. lr_invoice l = Some (iv_id v)) (db_lifecycles d) \<or>
                list_ex (\<lambda>l. lr_invoice l = Some (iv_id v) \<and> open_request_state (lr_request_state l)) (db_lifecycles d)))
              (db_outbox d))
      in case proposals of [] \<Rightarrow> None | row # _ \<Rightarrow> Some row)"

definition current_generation :: "db \<Rightarrow> invoice_row \<Rightarrow> bool" where
  "current_generation d v =
     list_ex (\<lambda>g. lg_creator g = iv_creator v \<and> lg_lock_hash g = iv_lock_hash v \<and>
       lg_current_generation g = iv_lock_generation v) (db_generations d)"

definition required_receive_rows ::
  "db \<Rightarrow> uuid \<Rightarrow> (invoice_row \<Rightarrow> bool) \<Rightarrow> (uuid \<times> string \<times> string) list" where
  "required_receive_rows d creator_id selected =
     List.map_filter (\<lambda>v.
       case (find_creator d (iv_creator v), pending_proposal d v) of
         (Some c, Some row) \<Rightarrow> Some (ob_id row, cr_lookup_hash c, ob_intent_envelope row)
       | _ \<Rightarrow> None)
       (sort_key iv_id (filter (\<lambda>v. iv_creator v = creator_id \<and> selected v \<and> current_generation d v) (db_invoices d)))"

definition required_receive_targets_for_lock_in_transaction ::
  "('r, 'd) env \<Rightarrow> db \<Rightarrow> uuid \<Rightarrow> lookup_hash \<Rightarrow> (persistence_error, string list) res" where
  "required_receive_targets_for_lock_in_transaction env d creator_id lock_hash =
     decode_required_receive_targets env
       (required_receive_rows d creator_id (\<lambda>v. iv_lock_hash v = lock_hash)) []"

definition required_receive_targets_for_lock ::
  "('r, 'd) env \<Rightarrow> db \<Rightarrow> uuid \<Rightarrow> string \<Rightarrow> (persistence_error, string list) res" where
  "required_receive_targets_for_lock env d creator_id lock_resource =
     (let lock_hash = crypto_lookup_hash (env_crypto env) lock_resource in
      decode_required_receive_targets env
        (required_receive_rows d creator_id (\<lambda>v. iv_lock_hash v = lock_hash)) [])"

definition required_receive_targets_for_bundle_in_transaction ::
  "('r, 'd) env \<Rightarrow> db \<Rightarrow> uuid \<Rightarrow> lookup_hash \<Rightarrow> (persistence_error, string list) res" where
  "required_receive_targets_for_bundle_in_transaction env d creator_id bundle_hash =
     decode_required_receive_targets env
       (required_receive_rows d creator_id (\<lambda>v. iv_bundle_hash v = bundle_hash)) []"

definition required_receive_targets_for_bundle ::
  "('r, 'd) env \<Rightarrow> db \<Rightarrow> uuid \<Rightarrow> string \<Rightarrow> (persistence_error, string list) res" where
  "required_receive_targets_for_bundle env d creator_id bundle_id =
     (let bundle_hash = crypto_lookup_hash (env_crypto env) bundle_id in
      decode_required_receive_targets env
        (required_receive_rows d creator_id (\<lambda>v. iv_bundle_hash v = bundle_hash)) [])"

section \<open>Correctness of applying a projection\<close>

lemma lifecycle_frame [simp]:
  "find_creator (d\<lparr>db_lifecycles := x\<rparr>) = find_creator d"
  "intent_rows env (d\<lparr>db_lifecycles := x\<rparr>) = intent_rows env d"
  "direct_owners (d\<lparr>db_lifecycles := x\<rparr>) = direct_owners d"
  "settlement_active (d\<lparr>db_lifecycles := x\<rparr>) = settlement_active d"
  by (simp_all add: fun_eq_iff find_creator_def intent_rows_def direct_owners_def settlement_active_def)

lemma attribution_frame [simp]:
  "attributed_owner env (d\<lparr>db_lifecycles := x\<rparr>) = attributed_owner env d"
  "lock_owner (d\<lparr>db_lifecycles := x\<rparr>) = lock_owner d"
  unfolding fun_eq_iff attributed_owner_def lock_owner_def lifecycle_frame by (simp_all split: lifecycle_owner.splits)

lemma find_updated_lifecycle:
  "(\<And>row. lr_payment_request_id (f row) = lr_payment_request_id row) \<Longrightarrow>
   find_lifecycle (d\<lparr>db_lifecycles := update_where (\<lambda>row. lr_payment_request_id row = i) f (db_lifecycles d)\<rparr>) j =
     map_option (\<lambda>row. if i = j then f row else row) (find_lifecycle d j)"
proof -
  assume f: "\<And>row. lr_payment_request_id (f row) = lr_payment_request_id row"
  have "find (\<lambda>row. lr_payment_request_id row = j) (update_where (\<lambda>row. lr_payment_request_id row = i) f xs) =
      map_option (\<lambda>row. if i = j then f row else row) (find (\<lambda>row. lr_payment_request_id row = j) xs)" for xs
    by (induction xs) (auto simp: f)
  then show ?thesis by (simp add: find_lifecycle_def)
qed

lemma find_new_lifecycle:
  "find_lifecycle (d\<lparr>db_lifecycles := db_lifecycles d @ [row]\<rparr>) i =
     (case find_lifecycle d i of Some r \<Rightarrow> Some r | None \<Rightarrow> if lr_payment_request_id row = i then Some row else None)"
  by (simp add: find_lifecycle_def find_snoc split: option.splits)

text \<open>A stored request never loses its owner and never goes back in its sources or its time.\<close>

definition lifecycle_advances :: "lifecycle_row \<Rightarrow> lifecycle_row \<Rightarrow> bool" where
  "lifecycle_advances row row' \<longleftrightarrow>
     lr_payment_request_id row' = lr_payment_request_id row \<and> lr_invoice row' = lr_invoice row \<and>
     lr_preparation row' = lr_preparation row \<and>
     \<not> cursor_regressed (lr_last_stream_item_id row') (lr_last_stream_item_id row) \<and>
     \<not> cursor_regressed (lr_last_outbound_message_id row') (lr_last_outbound_message_id row) \<and>
     lr_last_event_at row \<le> lr_last_event_at row'"

lemma lifecycle_advances_refl [simp]: "lifecycle_advances row row"
  by (auto simp: lifecycle_advances_def cursor_regressed_def split: option.splits)

lemma lifecycle_advances_trans:
  "lifecycle_advances a b \<Longrightarrow> lifecycle_advances b c \<Longrightarrow> lifecycle_advances a c"
  by (auto simp: lifecycle_advances_def cursor_regressed_def split: option.splits)

inductive lifecycle_step :: "('r, 'd) env \<Rightarrow> db \<Rightarrow> db \<Rightarrow> bool" for env where
  apply_projection: "apply_lifecycle env from_nanos creator_id projection d = Inr (outcome, d') \<Longrightarrow> lifecycle_step env d d'"

text \<open>The shape of an application that succeeds.\<close>

lemma apply_lifecycle_Inr:
  assumes "apply_lifecycle env from_nanos creator_id projection d = Inr (outcome, d')"
  obtains (unattributed) "outcome = LifecycleNotAttributable" "d' = d"
    "attributed_owner env d creator_id projection = Inr None"
  | (recorded) stream outbound event_at owner where
    "validate_projection projection = Inr ()"
    "optional_cursor (lp_last_stream_item_id projection) = Inr stream"
    "optional_cursor (lp_last_outbound_message_id projection) = Inr outbound"
    "postgres_timestamp from_nanos (lp_last_event_at projection) = Inr event_at"
    "attributed_owner env d creator_id projection = Inr (Some owner)" "lock_owner d creator_id owner = Inr ()"
    "record_lifecycle owner projection stream outbound event_at d = Inr (outcome, d')"
proof -
  from assms obtain stream outbound event_at attributed where h: "validate_projection projection = Inr ()"
    "optional_cursor (lp_last_stream_item_id projection) = Inr stream"
    "optional_cursor (lp_last_outbound_message_id projection) = Inr outbound"
    "postgres_timestamp from_nanos (lp_last_event_at projection) = Inr event_at"
    "attributed_owner env d creator_id projection = Inr attributed"
    "(case attributed of
       None \<Rightarrow> Inr (LifecycleNotAttributable, d)
     | Some owner \<Rightarrow>
         bindr (lock_owner d creator_id owner) (\<lambda>_.
         record_lifecycle owner projection stream outbound event_at d)) = Inr (outcome, d')"
    unfolding apply_lifecycle_def by auto
  show ?thesis
  proof (cases attributed)
    case None
    then show ?thesis using unattributed h by simp
  next
    case (Some owner)
    then show ?thesis using recorded [of stream outbound event_at owner] h by simp
  qed
qed

lemma record_lifecycle_Inr:
  assumes "record_lifecycle owner projection stream outbound event_at d = Inr (outcome, d')"
  obtains (replay) existing where "find_lifecycle d (lp_payment_request_id projection) = Some existing"
    "lifecycle_exact_replay existing projection stream outbound event_at" "outcome = LifecycleExactReplay" "d' = d"
  | (update) existing existing_state where "find_lifecycle d (lp_payment_request_id projection) = Some existing"
    "request_state_parse (lr_request_state existing) = Some existing_state"
    "lifecycle_owner_of (lr_invoice existing) (lr_preparation existing) = Inr owner"
    "\<not> lifecycle_conflict owner owner existing_state existing projection stream outbound event_at"
    "outcome = LifecycleApplied"
    "d' = d\<lparr>db_lifecycles := update_where (\<lambda>row. lr_payment_request_id row = lp_payment_request_id projection)
       (update_lifecycle projection stream outbound event_at) (db_lifecycles d)\<rparr>"
  | (fresh) "find_lifecycle d (lp_payment_request_id projection) = None" "owner_accepts_requests d owner"
    "outcome = LifecycleApplied"
    "d' = d\<lparr>db_lifecycles := db_lifecycles d @ [new_lifecycle owner projection stream outbound event_at]\<rparr>"
proof (cases "find_lifecycle d (lp_payment_request_id projection)")
  case None
  then show ?thesis using assms fresh by (auto simp: record_lifecycle_def split: if_splits)
next
  case (Some existing)
  show ?thesis
  proof (cases "lifecycle_exact_replay existing projection stream outbound event_at")
    case True
    then show ?thesis using replay [OF Some True] assms Some by (simp add: record_lifecycle_def)
  next
    case False
    with assms Some obtain st o' where "request_state_parse (lr_request_state existing) = Some st"
      "lifecycle_owner_of (lr_invoice existing) (lr_preparation existing) = Inr o'"
      "\<not> lifecycle_conflict owner o' st existing projection stream outbound event_at"
      "outcome = LifecycleApplied"
      "d' = d\<lparr>db_lifecycles := update_where (\<lambda>row. lr_payment_request_id row = lp_payment_request_id projection)
         (update_lifecycle projection stream outbound event_at) (db_lifecycles d)\<rparr>"
      by (auto simp: record_lifecycle_def split: if_splits)
    moreover from this(3) have "o' = owner" by (simp add: lifecycle_conflict_def)
    ultimately show ?thesis using update [OF Some] by blast
  qed
qed

lemma lifecycle_owner_of_new [simp]:
  "lifecycle_owner_of (lr_invoice (new_lifecycle owner projection stream outbound event_at))
     (lr_preparation (new_lifecycle owner projection stream outbound event_at)) = Inr owner"
  by (simp add: lifecycle_owner_of_def new_lifecycle_def split: lifecycle_owner.split)

lemma updated_lifecycle [simp]:
  "lr_payment_request_id (update_lifecycle projection stream outbound event_at row) = lr_payment_request_id row"
  "lr_invoice (update_lifecycle projection stream outbound event_at row) = lr_invoice row"
  "lr_preparation (update_lifecycle projection stream outbound event_at row) = lr_preparation row"
  by (simp_all add: update_lifecycle_def)

lemma find_lifecycle_id: "find_lifecycle d i = Some row \<Longrightarrow> lr_payment_request_id row = i"
  unfolding find_lifecycle_def by (auto simp: find_Some_iff)

lemma new_lifecycle_replays [simp]:
  "lifecycle_exact_replay (new_lifecycle owner projection stream outbound event_at) projection stream outbound event_at"
  "lr_payment_request_id (new_lifecycle owner projection stream outbound event_at) = lp_payment_request_id projection"
  by (simp_all add: lifecycle_exact_replay_def new_lifecycle_def)

lemma updated_lifecycle_replays:
  "lr_payment_request_id row = lp_payment_request_id projection \<Longrightarrow>
   lifecycle_exact_replay (update_lifecycle projection stream outbound event_at row) projection stream outbound event_at"
  by (simp add: lifecycle_exact_replay_def update_lifecycle_def)

text \<open>A recorded projection is found again, in the state and at the position it reported, under its owner.\<close>

lemma recorded_lifecycle:
  assumes "record_lifecycle owner projection stream outbound event_at d = Inr (outcome, d')"
  obtains row where "find_lifecycle d' (lp_payment_request_id projection) = Some row"
    "lifecycle_exact_replay row projection stream outbound event_at" "\<exists>x. d' = d\<lparr>db_lifecycles := x\<rparr>"
    "outcome = LifecycleApplied \<Longrightarrow> lifecycle_owner_of (lr_invoice row) (lr_preparation row) = Inr owner"
  using assms
proof (cases rule: record_lifecycle_Inr)
  case (replay existing)
  have same: "\<exists>x. d = d\<lparr>db_lifecycles := x\<rparr>" by (rule exI [of _ "db_lifecycles d"]) simp
  show ?thesis by (rule that [of existing]) (use replay(1-3) same in \<open>simp_all only: replay(4) lifecycle_apply.distinct\<close>)
next
  case (update existing st)
  let ?row = "update_lifecycle projection stream outbound event_at existing"
  have found: "find_lifecycle d' (lp_payment_request_id projection) = Some ?row"
    unfolding update(6) using update(1) by (subst find_updated_lifecycle) simp_all
  show ?thesis
  proof (rule that [OF found updated_lifecycle_replays [OF find_lifecycle_id [OF update(1)]]])
    show "\<exists>x. d' = d\<lparr>db_lifecycles := x\<rparr>" using update(6) by blast
    show "lifecycle_owner_of (lr_invoice ?row) (lr_preparation ?row) = Inr owner" using update(3) by simp
  qed
next
  case fresh
  let ?row = "new_lifecycle owner projection stream outbound event_at"
  have found: "find_lifecycle d' (lp_payment_request_id projection) = Some ?row"
    unfolding fresh(4) using fresh(1) by (simp add: find_new_lifecycle)
  show ?thesis
  proof (rule that [OF found new_lifecycle_replays(1)])
    show "\<exists>x. d' = d\<lparr>db_lifecycles := x\<rparr>" using fresh(4) by blast
    show "lifecycle_owner_of (lr_invoice ?row) (lr_preparation ?row) = Inr owner" by simp
  qed
qed

lemma record_lifecycle_advances:
  assumes "record_lifecycle owner projection stream outbound event_at d = Inr (outcome, d')"
    and "find_lifecycle d i = Some row"
  shows "\<exists>row'. find_lifecycle d' i = Some row' \<and> lifecycle_advances row row'"
  using assms(1)
proof (cases rule: record_lifecycle_Inr)
  case (replay existing)
  then show ?thesis using assms(2) by simp
next
  case (update existing st)
  let ?f = "update_lifecycle projection stream outbound event_at"
  have "find_lifecycle d' i = Some (if lp_payment_request_id projection = i then ?f row else row)"
    unfolding update(6) using assms(2) by (subst find_updated_lifecycle) simp_all
  moreover have "lifecycle_advances row (?f row)" if "lp_payment_request_id projection = i"
    using update(1,4) assms(2) that
    by (auto simp: lifecycle_advances_def lifecycle_conflict_def update_lifecycle_def)
  ultimately show ?thesis by auto
next
  case fresh
  then show ?thesis using assms(2) by (simp add: find_new_lifecycle)
qed

lemma lifecycle_step_advances:
  assumes "lifecycle_step env d d'" and "find_lifecycle d i = Some row"
  shows "\<exists>row'. find_lifecycle d' i = Some row' \<and> lifecycle_advances row row'"
  using assms(1)
proof (cases rule: lifecycle_step.cases)
  case (apply_projection from_nanos creator projection outcome)
  from apply_projection(1) show ?thesis
  proof (cases rule: apply_lifecycle_Inr)
    case unattributed
    then show ?thesis using assms(2) by simp
  next
    case (recorded stream outbound event_at owner)
    show ?thesis by (rule record_lifecycle_advances [OF recorded(7) assms(2)])
  qed
qed

text \<open>C21: Whatever projections are applied in whatever order, a stored payment request stays stored, keeps the invoice
  or settlement it belongs to, and never moves back: its stream position, its outbound position and its event time only
  grow.\<close>

theorem lifecycles_never_regress:
  assumes "(lifecycle_step env)\<^sup>*\<^sup>* d d'" and "find_lifecycle d i = Some row"
  shows "\<exists>row'. find_lifecycle d' i = Some row' \<and> lifecycle_advances row row'"
  using assms
proof (induction arbitrary: row rule: converse_rtranclp_induct)
  case base
  then show ?case by simp
next
  case (step a b)
  from lifecycle_step_advances [OF step(1,4)] obtain r where "find_lifecycle b i = Some r" "lifecycle_advances row r" by blast
  with step(3) lifecycle_advances_trans show ?case by blast
qed

lemma apply_lifecycle_replay:
  assumes "apply_lifecycle env from_nanos creator_id projection d = Inr (outcome, d')"
    and "outcome \<noteq> LifecycleNotAttributable"
  shows "apply_lifecycle env from_nanos creator_id projection d' = Inr (LifecycleExactReplay, d')"
  using assms(1)
proof (cases rule: apply_lifecycle_Inr)
  case unattributed
  then show ?thesis using assms(2) by simp
next
  case (recorded stream outbound event_at owner)
  from recorded_lifecycle [OF recorded(7)] obtain row x where
    row: "find_lifecycle d' (lp_payment_request_id projection) = Some row"
      "lifecycle_exact_replay row projection stream outbound event_at" "d' = d\<lparr>db_lifecycles := x\<rparr>" by blast
  have "attributed_owner env d' creator_id projection = Inr (Some owner)" "lock_owner d' creator_id owner = Inr ()"
    using recorded by (simp_all add: row(3))
  then show ?thesis
    using recorded(1-4) row(1,2) by (simp add: apply_lifecycle_def record_lifecycle_def)
qed

text \<open>C22: Applying a projection is idempotent: once it has been recorded, applying it again reports an exact replay
  and leaves the store as it is.\<close>

theorem apply_lifecycle_idempotent:
  assumes "apply_lifecycle env from_nanos creator_id projection d = Inr (outcome, d')"
    and "outcome \<noteq> LifecycleNotAttributable"
  shows "apply_lifecycle env from_nanos creator_id projection d' = Inr (LifecycleExactReplay, d')"
  by (rule apply_lifecycle_replay [OF assms])

lemma semantic_owners_match:
  "semantic_owners env h proposal rows owners = Inr result \<Longrightarrow> owner \<in> set result \<Longrightarrow> owner \<notin> set owners \<Longrightarrow>
   \<exists>row \<in> set rows. \<exists>intent. decrypt_delivery_intent env (ob_id row) h (ob_intent_envelope row) = Inr intent \<and>
     matches_proposal intent (pc_reader_pubky proposal) (pc_app_id proposal) (pc_terms proposal) \<and>
     lifecycle_owner_of (ob_invoice row) (ob_preparation row) = Inr owner"
proof (induction rows arbitrary: owners)
  case (Cons a rows)
  from Cons.prems(1) obtain intent where intent: "decrypt_delivery_intent env (ob_id a) h (ob_intent_envelope a) = Inr intent"
    by auto
  show ?case
  proof (cases "matches_proposal intent (pc_reader_pubky proposal) (pc_app_id proposal) (pc_terms proposal)")
    case True
    with Cons.prems(1) intent obtain this_owner where this_owner:
      "lifecycle_owner_of (ob_invoice a) (ob_preparation a) = Inr this_owner"
      "semantic_owners env h proposal rows (if this_owner \<in> set owners then owners else owners @ [this_owner]) = Inr result"
      by auto
    show ?thesis
    proof (cases "this_owner = owner")
      case True
      then show ?thesis using intent this_owner(1) \<open>matches_proposal _ _ _ _\<close> by auto
    next
      case False
      with Cons.IH [OF this_owner(2) Cons.prems(2)] Cons.prems(3) show ?thesis by (auto split: if_splits)
    qed
  next
    case False
    with Cons.prems(1) intent have "semantic_owners env h proposal rows owners = Inr result" by simp
    from Cons.IH [OF this Cons.prems(2,3)] show ?thesis by auto
  qed
qed simp

lemma attributed_owner_Some:
  assumes "attributed_owner env d creator_id projection = Inr (Some owner)"
  obtains c owners where "find_creator d creator_id = Some c"
    "semantic_owners env (cr_lookup_hash c) (lp_proposal projection)
       (intent_rows env d creator_id (lp_proposal projection)) [] = Inr owners" "owners = [owner]"
proof -
  from assms obtain direct where direct: "direct_owners d creator_id (lp_payment_request_id projection) = Inr direct"
    unfolding attributed_owner_def by auto
  have few: "\<not> 1 < length direct" using assms direct by (auto simp: attributed_owner_def)
  with assms direct obtain owners where
    owners: "(case find_creator d creator_id of
                None \<Rightarrow> Inr []
              | Some c \<Rightarrow> semantic_owners env (cr_lookup_hash c) (lp_proposal projection)
                  (intent_rows env d creator_id (lp_proposal projection)) []) = Inr owners"
    unfolding attributed_owner_def by auto
  have "owners = [owner]"
    using assms direct few owners
    by (cases owners; cases "tl owners") (auto simp: attributed_owner_def split: if_splits)
  then show ?thesis using that owners by (auto split: option.splits)
qed

text \<open>C23: A payment request is only recorded for work the creator queued: some outbox row of that creator holds, under
  the row's own key, a proposal with exactly the reader, application and terms of the projection, and the request
  is stored under the invoice or settlement of that row.\<close>

theorem lifecycle_attribution_sound:
  assumes "apply_lifecycle env from_nanos creator_id projection d = Inr (LifecycleApplied, d')"
  shows "\<exists>row c ob intent owner.
    find_lifecycle d' (lp_payment_request_id projection) = Some row \<and>
    lifecycle_owner_of (lr_invoice row) (lr_preparation row) = Inr owner \<and>
    find_creator d creator_id = Some c \<and> ob \<in> set (db_outbox d) \<and> ob_creator ob = creator_id \<and>
    decrypt_delivery_intent env (ob_id ob) (cr_lookup_hash c) (ob_intent_envelope ob) = Inr intent \<and>
    matches_proposal intent (pc_reader_pubky (lp_proposal projection)) (pc_app_id (lp_proposal projection))
      (pc_terms (lp_proposal projection)) \<and>
    lifecycle_owner_of (ob_invoice ob) (ob_preparation ob) = Inr owner"
  using assms
proof (cases rule: apply_lifecycle_Inr)
  case unattributed
  then show ?thesis by simp
next
  case (recorded stream outbound event_at owner)
  from attributed_owner_Some [OF recorded(5)] obtain c where c: "find_creator d creator_id = Some c"
    "semantic_owners env (cr_lookup_hash c) (lp_proposal projection)
       (intent_rows env d creator_id (lp_proposal projection)) [] = Inr [owner]" by blast
  from semantic_owners_match [OF c(2)] obtain ob intent where
    "ob \<in> set (intent_rows env d creator_id (lp_proposal projection))"
    "decrypt_delivery_intent env (ob_id ob) (cr_lookup_hash c) (ob_intent_envelope ob) = Inr intent"
    "matches_proposal intent (pc_reader_pubky (lp_proposal projection)) (pc_app_id (lp_proposal projection))
      (pc_terms (lp_proposal projection))"
    "lifecycle_owner_of (ob_invoice ob) (ob_preparation ob) = Inr owner" by auto
  moreover from recorded_lifecycle [OF recorded(7)] obtain row where
    "find_lifecycle d' (lp_payment_request_id projection) = Some row"
    "lifecycle_owner_of (lr_invoice row) (lr_preparation row) = Inr owner" by auto
  ultimately show ?thesis using c(1) by (auto simp: intent_rows_def)
qed

section \<open>A concrete request\<close>

text \<open>One open invoice whose proposal waits in the outbox.\<close>

definition example_invoice :: invoice_row where
  "example_invoice = \<lparr>iv_id = 12, iv_creator = 1, iv_reader_hash = ''r'', iv_bundle_hash = ''b'', iv_lock_hash = ''l'',
     iv_lock_generation = 0, iv_payment_request_hash = ''p'', iv_invoice_envelope = ''i'',
     iv_payment_record_envelope = ''e'', iv_address_hash = None, iv_derivation_hash = ''d'',
     iv_payment_status = ''pending'', iv_confirmation_count = 0, iv_amount_matched = False, iv_created_at = 0,
     iv_proposal_expires_at = 1000000000, iv_payment_deadline = 2000000000, iv_acceptance_seconds = 1,
     iv_window_seconds = 2, iv_account_generation = Some 0, iv_first_matched_at = None,
     iv_first_matched_outpoint = None, iv_expired_at = None\<rparr>"

definition example_open :: "string \<Rightarrow> db" where
  "example_open envelope = example_db\<lparr>db_invoices := [example_invoice],
     db_generations := [\<lparr>lg_creator = 1, lg_lock_hash = ''l'', lg_current_generation = 0, lg_active_drain = None,
       lg_last_cleanup_token = None\<rparr>],
     db_outbox := [queued_proposal 13 1 12 envelope
       (payment_request_proposal_lookup_hash (env_crypto example_env) ''ref'') 0]\<rparr>"

definition example_projection :: lifecycle_projection where
  "example_projection = \<lparr>lp_payment_request_id = ''req'',
     lp_proposal = \<lparr>pc_reader_pubky = intent_reader_pubky example_dated, pc_app_id = intent_app_id example_dated,
       pc_terms = (case intent_operation example_dated of PaymentRequestProposal terms \<Rightarrow> terms)\<rparr>,
     lp_request_state = Proposed, lp_state_event_id = Some ''event'', lp_last_stream_item_id = Some 4,
     lp_last_outbound_message_id = None, lp_last_event_at = 5000\<rparr>"

definition example_lifecycle :: lifecycle_row where
  "example_lifecycle = new_lifecycle (OwnerInvoice 12) example_projection (Some 4) None 5000"

lemma example_open_intent:
  obtains envelope where
    "decrypt_delivery_intent example_env 13 (hash_of example_env ''creator'') envelope = Inr example_dated"
proof -
  have nonce: "length (fr_outbox_nonce example_fresh) = nonce_length"
    using example_env_ok(4) by (simp add: nonces_ok_def)
  obtain envelope where "seal_column example_env (fr_outbox_nonce example_fresh)
      (ctx_outbox_semantic_intent (hash_of example_env ''creator'') 13) (intent_to_bytes example_env example_dated) = Inr envelope"
    using example_seal unfolding example_env_fields by blast
  from decode_sealed_intent [OF example_env_ok(1,2) nonce this] dated_intent_Inr [OF example_dated_intent]
  have "bindr (open_column example_env (ctx_outbox_semantic_intent (hash_of example_env ''creator'') 13) envelope)
      (decode_intent example_env) = Inr example_dated" by blast
  then show ?thesis
    using that [of envelope] example_hash_length
    by (simp add: decrypt_delivery_intent_def lookup_hash_from_storage_def del: bindr_eq_Inr)
qed

lemma example_applied:
  assumes "decrypt_delivery_intent example_env 13 (hash_of example_env ''creator'') envelope = Inr example_dated"
  shows "apply_lifecycle example_env Some 1 example_projection (example_open envelope) =
    Inr (LifecycleApplied, (example_open envelope)\<lparr>db_lifecycles := [example_lifecycle]\<rparr>)"
proof -
  let ?d = "example_open envelope"
  let ?row = "queued_proposal 13 1 12 envelope (payment_request_proposal_lookup_hash (env_crypto example_env) ''ref'') 0"
  have rows: "intent_rows example_env ?d 1 (lp_proposal example_projection) = [?row]"
    by (simp add: intent_rows_def example_open_def queued_proposal_def example_projection_def example_dated_def
        del: decimal_amount.simps)
  have creator: "find_creator ?d 1 = Some \<lparr>cr_id = 1, cr_lookup_hash = hash_of example_env ''creator'',
      cr_next_child_index = 0, cr_account_generation = 0\<rparr>"
    by (simp add: find_creator_def example_open_def example_db_def)
  have matches: "matches_proposal example_dated (pc_reader_pubky (lp_proposal example_projection))
      (pc_app_id (lp_proposal example_projection)) (pc_terms (lp_proposal example_projection))"
    by (simp add: matches_proposal_def example_projection_def example_dated_def del: decimal_amount.simps)
  have row: "ob_id (queued_proposal i c v e h t) = i" "ob_intent_envelope (queued_proposal i c v e h t) = e"
    "ob_invoice (queued_proposal i c v e h t) = Some v" "ob_preparation (queued_proposal i c v e h t) = None" for i c v e h t
    by (simp_all add: queued_proposal_def)
  have direct: "direct_owners ?d 1 (lp_payment_request_id example_projection) = Inr []"
    by (simp add: direct_owners_def example_open_def queued_proposal_def)
  have "semantic_owners example_env (hash_of example_env ''creator'') (lp_proposal example_projection) [?row] [] =
      Inr [OwnerInvoice 12]"
    using assms matches by (simp add: row lifecycle_owner_of_def del: bindr_eq_Inr)
  then have "attributed_owner example_env ?d 1 example_projection = Inr (Some (OwnerInvoice 12))"
    using direct creator rows by (simp add: attributed_owner_def del: bindr_eq_Inr semantic_owners.simps)
  moreover have "record_lifecycle (OwnerInvoice 12) example_projection (Some 4) None 5000 ?d =
      Inr (LifecycleApplied, ?d\<lparr>db_lifecycles := [example_lifecycle]\<rparr>)"
    by (simp add: record_lifecycle_def find_lifecycle_def example_open_def example_db_def owner_accepts_requests_def
        generation_open_def example_invoice_def example_lifecycle_def)
  moreover have "lock_owner ?d 1 (OwnerInvoice 12) = Inr ()"
    by (simp add: lock_owner_def example_open_def example_invoice_def)
  moreover have "validate_projection example_projection = Inr ()"
    "optional_cursor (lp_last_stream_item_id example_projection) = Inr (Some 4)"
    "optional_cursor (lp_last_outbound_message_id example_projection) = Inr None"
    "postgres_timestamp Some (lp_last_event_at example_projection) = Inr 5000"
    by (simp_all add: validate_projection_def example_projection_def optional_cursor_def i64_try_from_def i64_max_def
        postgres_timestamp_def)
  ultimately show ?thesis by (simp add: apply_lifecycle_def del: bindr_eq_Inr)
qed

theorem lifecycles_never_regress_witness:
  "\<exists>envelope d'. (lifecycle_step example_env)\<^sup>*\<^sup>* (example_open envelope) d' \<and>
     find_lifecycle d' ''req'' = Some example_lifecycle \<and>
     (\<exists>row'. find_lifecycle d' ''req'' = Some row' \<and> lifecycle_advances example_lifecycle row')"
proof (rule example_open_intent)
  fix envelope
  assume a: "decrypt_delivery_intent example_env 13 (hash_of example_env ''creator'') envelope = Inr example_dated"
  let ?d = "example_open envelope" and ?d' = "(example_open envelope)\<lparr>db_lifecycles := [example_lifecycle]\<rparr>"
  have step: "lifecycle_step example_env ?d ?d'" by (rule lifecycle_step.apply_projection [OF example_applied [OF a]])
  have found: "find_lifecycle ?d' ''req'' = Some example_lifecycle"
    by (simp add: find_lifecycle_def example_lifecycle_def example_projection_def)
  have "(lifecycle_step example_env)\<^sup>*\<^sup>* ?d' ?d'"
    using lifecycle_step.apply_projection [OF apply_lifecycle_replay [OF example_applied [OF a]]] by blast
  from lifecycles_never_regress [OF this found] found r_into_rtranclp [of "lifecycle_step example_env", OF step]
  show ?thesis by blast
qed

theorem apply_lifecycle_idempotent_witness:
  "\<exists>envelope d'. apply_lifecycle example_env Some 1 example_projection (example_open envelope) = Inr (LifecycleApplied, d') \<and>
     apply_lifecycle example_env Some 1 example_projection d' = Inr (LifecycleExactReplay, d')"
proof (rule example_open_intent)
  fix envelope
  assume a: "decrypt_delivery_intent example_env 13 (hash_of example_env ''creator'') envelope = Inr example_dated"
  from apply_lifecycle_idempotent [OF example_applied [OF a]] example_applied [OF a] show ?thesis by blast
qed

theorem lifecycle_attribution_sound_witness:
  "\<exists>envelope d' row. apply_lifecycle example_env Some 1 example_projection (example_open envelope) = Inr (LifecycleApplied, d') \<and>
     find_lifecycle d' ''req'' = Some row \<and> lr_invoice row = Some 12"
proof (rule example_open_intent)
  fix envelope
  assume a: "decrypt_delivery_intent example_env 13 (hash_of example_env ''creator'') envelope = Inr example_dated"
  have outbox: "ob_invoice ob = Some 12 \<and> ob_preparation ob = None" if "ob \<in> set (db_outbox (example_open envelope))" for ob
    using that by (simp add: example_open_def queued_proposal_def)
  from lifecycle_attribution_sound [OF example_applied [OF a]] obtain row ob owner where
    "find_lifecycle ((example_open envelope)\<lparr>db_lifecycles := [example_lifecycle]\<rparr>) (lp_payment_request_id example_projection) = Some row"
    "lifecycle_owner_of (lr_invoice row) (lr_preparation row) = Inr owner"
    "ob \<in> set (db_outbox (example_open envelope))" "lifecycle_owner_of (ob_invoice ob) (ob_preparation ob) = Inr owner"
    by blast
  moreover from this outbox have "lr_invoice row = Some 12"
    by (auto simp: lifecycle_owner_of_def split: option.splits)
  moreover have "lp_payment_request_id example_projection = ''req''" by (simp add: example_projection_def)
  ultimately show ?thesis using example_applied [OF a] by metis
qed

end
