(* ===== verification/Payment_Evidence.thy ===== *)
theory Payment_Evidence
  imports Lifecycle_Store
begin

text \<open>
  Payment evidence of persistence/invoices.rs, invoices/settlement.rs, invoices/usdt.rs and invoices/provider\_v2.rs:
  applying Bitcoin observations and verified token transfers, projecting them onto the invoice, choosing
  what to observe next, and reading the status of a bundle.
\<close>

section \<open>Observations as they come in\<close>

record observation_input =
  bi_address :: string
  bi_outpoint :: bitcoin_outpoint
  bi_sats :: u64
  bi_confirmations :: u32
  bi_present :: bool

text \<open>The standard library's three-way comparison.\<close>

datatype ordering = OrdLess | OrdEqual | OrdGreater

definition cmp :: "'a::linorder \<Rightarrow> 'a \<Rightarrow> ordering" where
  "cmp a b = (if a < b then OrdLess else if a = b then OrdEqual else OrdGreater)"

definition then_with :: "ordering \<Rightarrow> ordering \<Rightarrow> ordering" where
  "then_with a b = (if a = OrdEqual then b else a)"

definition cmp_for_batch :: "observation_input \<Rightarrow> observation_input \<Rightarrow> ordering" where
  "cmp_for_batch a b =
     then_with (then_with (then_with (then_with (then_with
       (cmp (bi_address a) (bi_address b))
       (cmp (bi_present a) (bi_present b)))
       (cmp (txid (bi_outpoint a)) (txid (bi_outpoint b))))
       (cmp (vout (bi_outpoint a)) (vout (bi_outpoint b))))
       (cmp (bi_sats a) (bi_sats b)))
       (cmp (bi_confirmations a) (bi_confirmations b))"

definition i32_try_from :: "u32 \<Rightarrow> int option" where
  "i32_try_from c = (if uint c \<le> i32_max then Some (uint c) else None)"

definition u32_try_from :: "int \<Rightarrow> u32 option" where
  "u32_try_from n = (if 0 \<le> n \<and> n < 2 ^ 32 then Some (word_of_int n) else None)"

section \<open>Opening stored evidence\<close>

definition open_payment_record ::
  "('r, 'd) env \<Rightarrow> lookup_hash \<Rightarrow> uuid \<Rightarrow> string \<Rightarrow> (persistence_error, payment_record) res" where
  "open_payment_record env creator_hash i envelope =
     bindr (open_column env (ctx_invoice_payment_record creator_hash i) envelope) (\<lambda>plaintext.
     ok_or (record_from_bytes env plaintext) CorruptOrMissing)"

definition parse_canonical_bitcoin_outpoint ::
  "('r, 'd) env \<Rightarrow> string \<Rightarrow> (persistence_error, bitcoin_outpoint) res" where
  "parse_canonical_bitcoin_outpoint env value =
     bindr (ok_or (outpoint_from_str env value) CorruptOrMissing) (\<lambda>outpoint.
     bindr (guardr (canonical_text outpoint \<noteq> value) CorruptOrMissing) (\<lambda>_.
     Inr outpoint))"

definition open_observation ::
  "('r, 'd) env \<Rightarrow> lookup_hash \<Rightarrow> uuid \<Rightarrow> uuid \<Rightarrow> string \<Rightarrow> (persistence_error, bitcoin_observation_v1) res" where
  "open_observation env creator_hash i invoice envelope =
     bindr (open_column env (ctx_bitcoin_observation_for_invoice creator_hash i invoice) envelope) (\<lambda>plaintext.
     ok_or (observation_from_bytes env plaintext) CorruptOrMissing)"

definition decrypt_observation ::
  "('r, 'd) env \<Rightarrow> lookup_hash \<Rightarrow> observation_row \<Rightarrow> (persistence_error, bitcoin_observation_v1) res" where
  "decrypt_observation env creator_hash row =
     (case (bo_invoice row, bo_preparation row) of
        (Some invoice, None) \<Rightarrow>
          bindr (open_observation env creator_hash (bo_id row) invoice (bo_envelope row)) (\<lambda>found.
          bindr (guardr (bo1_version found \<noteq> 1 \<or> is_err (parse_canonical_bitcoin_outpoint env (bo1_outpoint found)) \<or>
            bo_outpoint_hash row \<noteq> bitcoin_outpoint_lookup_hash (env_crypto env) (bo1_outpoint found))
            CorruptOrMissing) (\<lambda>_.
          Inr found))
      | _ \<Rightarrow> Inl CorruptOrMissing)"

text \<open>Envelopes of older receipts hold only the facts; newer ones append the twenty bytes of the sender.\<close>

definition open_transfer_facts ::
  "('r, 'd) env \<Rightarrow> uuid \<Rightarrow> uuid \<Rightarrow> lookup_hash \<Rightarrow> string \<Rightarrow> string
     \<Rightarrow> (persistence_error, transfer_facts \<times> string option) res" where
  "open_transfer_facts env i invoice creator_hash envelope identity_hash =
     bindr (open_column env (ctx_usdt_observation creator_hash i invoice) envelope) (\<lambda>plaintext.
     bindr (ok_or (facts_take_from_bytes env plaintext) CorruptOrMissing) (\<lambda>(facts, suffix).
     bindr (if suffix = [] then Inr None
            else if length suffix = 20 then Inr (Some suffix) else Inl CorruptOrMissing) (\<lambda>sender.
     bindr (guardr (identity_hash \<noteq> usdt_transfer_lookup_hash (env_crypto env) (tf_identity facts))
       CorruptOrMissing) (\<lambda>_.
     Inr (facts, sender)))))"

section \<open>The payment of an invoice on each chain\<close>

record observed_payment =
  op_present :: bool
  op_matched :: bool
  op_timely :: bool
  op_confirmations :: int
  op_finalized :: bool
  op_received_at :: "int option"

definition eligible :: "observed_payment \<Rightarrow> bool" where
  "eligible p \<longleftrightarrow> op_present p \<and> op_matched p \<and> op_timely p"

definition no_payment :: observed_payment where
  "no_payment = \<lparr>op_present = False, op_matched = False, op_timely = False, op_confirmations = 0,
     op_finalized = False, op_received_at = None\<rparr>"

definition active_observation :: "db \<Rightarrow> uuid \<Rightarrow> observation_row option" where
  "active_observation d invoice = find (\<lambda>row. bo_invoice row = Some invoice \<and> bo_active row) (db_observations d)"

definition bitcoin_payment ::
  "('r, 'd) env \<Rightarrow> db \<Rightarrow> uuid \<Rightarrow> lookup_hash \<Rightarrow> payment_record \<Rightarrow> (persistence_error, observed_payment) res" where
  "bitcoin_payment env d invoice creator_hash payment =
     (case (pr_bitcoin payment, active_observation d invoice) of
        (Some destination, Some observation) \<Rightarrow>
          bindr (decrypt_observation env creator_hash observation) (\<lambda>facts.
          let matched = bo_present observation \<and> pd_required_amount destination \<le> bo1_observed_sats facts in
          Inr \<lparr>op_present = bo_present observation, op_matched = matched,
            op_timely = (invoice, bo_outpoint_hash observation) \<in> set (db_timely d),
            op_confirmations = (if \<not> bo_present observation then 0
              else if matched then min (bo_confirmations observation) 6 else bo_confirmations observation),
            op_finalized = False, op_received_at = None\<rparr>)
      | _ \<Rightarrow> Inr no_payment)"

record usdt_invoice =
  ui_id :: uuid
  ui_creator_hash :: string
  ui_record_envelope :: string
  ui_invoice_envelope :: string
  ui_created_at :: int
  ui_deadline :: int

definition usdt_invoice_of :: "db \<Rightarrow> uuid \<Rightarrow> usdt_invoice option" where
  "usdt_invoice_of d invoice =
     (case find_invoice d invoice of
        None \<Rightarrow> None
      | Some v \<Rightarrow> map_option (\<lambda>c. \<lparr>ui_id = iv_id v, ui_creator_hash = cr_lookup_hash c,
          ui_record_envelope = iv_payment_record_envelope v, ui_invoice_envelope = iv_invoice_envelope v,
          ui_created_at = iv_created_at v, ui_deadline = iv_payment_deadline v\<rparr>) (find_creator d (iv_creator v)))"

definition start_of_second :: "int \<Rightarrow> int" where
  "start_of_second t = t - t mod 1000000000"

definition usdt_receipt ::
  "usdt_invoice \<Rightarrow> u64 \<Rightarrow> usdt_observation_row \<Rightarrow> transfer_facts \<Rightarrow> observed_payment" where
  "usdt_receipt row required observation facts =
     \<lparr>op_present = True, op_matched = required \<le> tf_amount facts,
      op_timely = start_of_second (ui_created_at row) \<le> tf_timestamp facts \<and> tf_timestamp facts \<le> ui_deadline row,
      op_confirmations = uo_confirmations observation, op_finalized = uo_finalized observation,
      op_received_at = Some (max (tf_timestamp facts) (ui_created_at row))\<rparr>"

definition receipt_rank :: "string \<times> observed_payment \<Rightarrow> (bool \<times> bool \<times> bool \<times> int) \<times> string" where
  "receipt_rank r = (case r of (identity, p) \<Rightarrow>
     ((eligible p, op_finalized p, op_matched p, op_confirmations p), identity))"

definition prefer_receipt ::
  "(string \<times> observed_payment) option \<Rightarrow> string \<times> observed_payment \<Rightarrow> (string \<times> observed_payment) option" where
  "prefer_receipt selected candidate =
     (case selected of
        None \<Rightarrow> Some candidate
      | Some current \<Rightarrow> if receipt_rank current < receipt_rank candidate then Some candidate else Some current)"

definition usdt_payment ::
  "('r, 'd) env \<Rightarrow> db \<Rightarrow> usdt_invoice \<Rightarrow> lookup_hash \<Rightarrow> u64
     \<Rightarrow> (persistence_error, (string \<times> observed_payment) option) res" where
  "usdt_payment env d row creator_hash required =
     foldr_res (\<lambda>selected observation.
       bindr (open_transfer_facts env (uo_id observation) (ui_id row) creator_hash (uo_envelope observation)
         (uo_transfer_hash observation)) (\<lambda>(facts, _).
       Inr (prefer_receipt selected (tf_identity facts, usdt_receipt row required observation facts))))
       None (filter (\<lambda>o'. uo_invoice o' = Some (ui_id row) \<and> uo_present o') (db_usdt d))"

section \<open>Projecting the payments onto the invoice\<close>

text \<open>The checks of the invoice table on the two instants that evidence writes.\<close>

definition invoice_checks :: "invoice_row \<Rightarrow> bool" where
  "invoice_checks v \<longleftrightarrow>
     (case iv_first_matched_at v of Some t \<Rightarrow> iv_created_at v \<le> t | None \<Rightarrow> True) \<and>
     (case iv_expired_at v of Some t \<Rightarrow> iv_payment_deadline v \<le> t | None \<Rightarrow> True)"

definition update_invoices ::
  "(invoice_row \<Rightarrow> bool) \<Rightarrow> (invoice_row \<Rightarrow> invoice_row) \<Rightarrow> db \<Rightarrow> (persistence_error, db) res" where
  "update_invoices p f d =
     (if list_all (\<lambda>v. p v \<longrightarrow> invoice_checks (f v)) (db_invoices d)
      then Inr (d\<lparr>db_invoices := update_where p f (db_invoices d)\<rparr>)
      else Inl StoreUnavailable)"

definition coalesce :: "'a option \<Rightarrow> 'a option \<Rightarrow> 'a option" where
  "coalesce a b = (case a of Some x \<Rightarrow> Some x | None \<Rightarrow> b)"

text \<open>The database's least ignores missing values.\<close>

definition least :: "int option \<Rightarrow> int option \<Rightarrow> int option" where
  "least a b = (case (a, b) of (Some x, Some y) \<Rightarrow> Some (min x y) | (Some x, None) \<Rightarrow> Some x | (None, _) \<Rightarrow> b)"

definition projected_status :: "observed_payment \<Rightarrow> string" where
  "projected_status p =
     (if \<not> op_present p then ''undetected'' else if op_confirmations p = 0 then ''detected'' else ''confirmed'')"

definition project_columns ::
  "observed_payment \<Rightarrow> int option \<Rightarrow> bool \<Rightarrow> int \<Rightarrow> invoice_row \<Rightarrow> invoice_row" where
  "project_columns bitcoin received_at eligible_now now v =
     v\<lparr>iv_payment_status := projected_status bitcoin, iv_confirmation_count := op_confirmations bitcoin,
       iv_amount_matched := op_matched bitcoin,
       iv_first_matched_at := least (iv_first_matched_at v) received_at,
       iv_expired_at := (if eligible_now then None
         else if iv_payment_deadline v < now then coalesce (iv_expired_at v) (Some now) else iv_expired_at v)\<rparr>"

definition add_buyer_contact :: "uuid \<Rightarrow> int \<Rightarrow> db \<Rightarrow> (persistence_error, db) res" where
  "add_buyer_contact invoice now d =
     (case find_invoice d invoice of
        None \<Rightarrow> Inr d
      | Some v \<Rightarrow>
          if list_ex (\<lambda>b. bc_creator b = iv_creator v \<and> bc_reader_hash b = iv_reader_hash v) (db_buyer_contacts d)
          then Inr d
          else if list_ex (\<lambda>b. bc_invoice b = invoice) (db_buyer_contacts d) then Inl StoreUnavailable
          else Inr (d\<lparr>db_buyer_contacts := db_buyer_contacts d @
            [\<lparr>bc_invoice = invoice, bc_creator = iv_creator v, bc_reader_hash = iv_reader_hash v,
              bc_next_attempt_at = now, bc_completed_at = None\<rparr>]\<rparr>))"

definition project_payments ::
  "('r, 'd) env \<Rightarrow> uuid \<Rightarrow> lookup_hash \<Rightarrow> payment_record \<Rightarrow> int \<Rightarrow> int \<Rightarrow> db \<Rightarrow> (persistence_error, db) res" where
  "project_payments env invoice creator_hash payment now transaction_now d =
     bindr (ok_or (usdt_invoice_of d invoice) StoreUnavailable) (\<lambda>row.
     bindr (bitcoin_payment env d invoice creator_hash payment) (\<lambda>bitcoin.
     bindr (case pr_usdt payment of
              None \<Rightarrow> Inr None
            | Some destination \<Rightarrow>
                bindr (usdt_payment env d row creator_hash (pd_required_amount destination)) (\<lambda>selected.
                Inr (map_option snd selected))) (\<lambda>usdt.
     let usdt_eligible = (case usdt of Some p \<Rightarrow> eligible p | None \<Rightarrow> False);
         eligible_now = (eligible bitcoin \<or> usdt_eligible);
         received_at = (case usdt of Some p \<Rightarrow> if eligible p then op_received_at p else None | None \<Rightarrow> None)
     in bindr (update_invoices (\<lambda>v. iv_id v = invoice) (project_columns bitcoin received_at eligible_now now) d) (\<lambda>d1.
        if eligible_now then add_buyer_contact invoice transaction_now d1 else Inr d1))))"

section \<open>Provider-v2 samples\<close>

definition set_current_sample :: "sample_row \<Rightarrow> db \<Rightarrow> db" where
  "set_current_sample sample d =
     d\<lparr>db_current_samples :=
       (if list_ex (\<lambda>s. sr_invoice s = sr_invoice sample) (db_current_samples d)
        then update_where (\<lambda>s. sr_invoice s = sr_invoice sample) (\<lambda>_. sample) (db_current_samples d)
        else db_current_samples d @ [sample])\<rparr>"

definition add_first_evidence :: "sample_row \<Rightarrow> db \<Rightarrow> db" where
  "add_first_evidence sample d =
     (if list_ex (\<lambda>s. sr_invoice s = sr_invoice sample) (db_first_evidence d) then d
      else d\<lparr>db_first_evidence := db_first_evidence d @ [sample]\<rparr>)"

definition project_provider_v2_sample ::
  "uuid \<Rightarrow> uuid \<Rightarrow> int \<Rightarrow> bool \<Rightarrow> int \<Rightarrow> bool \<Rightarrow> db \<Rightarrow> db" where
  "project_provider_v2_sample invoice observation observed_at present confirmations amount_matched d =
     (case find (\<lambda>p. pv_invoice p = invoice) (db_provider_v2 d) of
        None \<Rightarrow> d
      | Some binding \<Rightarrow>
          let bounded = max 0 (min confirmations 6);
              status = (if \<not> present then ''undetected'' else if bounded = 0 then ''detected'' else ''confirmed'');
              d1 = set_current_sample \<lparr>sr_invoice = invoice,
                sr_observation = (if present then Some observation else None), sr_observed_at = observed_at,
                sr_status = status, sr_confirmations = (if present then bounded else 0),
                sr_amount_matched = (if present then amount_matched else False)\<rparr> d
          in if present \<and> amount_matched \<and> pv_minimum_confirmations binding \<le> bounded \<and> observed_at \<le> pv_deadline binding
             then add_first_evidence \<lparr>sr_invoice = invoice, sr_observation = Some observation,
               sr_observed_at = observed_at, sr_status = status, sr_confirmations = bounded,
               sr_amount_matched = True\<rparr> d1
             else d1)"

section \<open>Applying one observation\<close>

text \<open>A fresh identifier and nonce for a row that may have to be written.\<close>

record observation_fresh =
  of_id :: uuid
  of_nonce :: string

definition invoice_by_address :: "db \<Rightarrow> lookup_hash \<Rightarrow> (invoice_row \<times> creator_row) option" where
  "invoice_by_address d address_hash =
     (case find (\<lambda>v. iv_address_hash v = Some address_hash) (db_invoices d) of
        None \<Rightarrow> None
      | Some v \<Rightarrow> map_option (Pair v) (find_creator d (iv_creator v)))"

definition observation_by_outpoint :: "db \<Rightarrow> lookup_hash \<Rightarrow> observation_row option" where
  "observation_by_outpoint d outpoint_hash = find (\<lambda>row. bo_outpoint_hash row = outpoint_hash) (db_observations d)"

definition check_existing_outpoint ::
  "('r, 'd) env \<Rightarrow> lookup_hash \<Rightarrow> uuid \<Rightarrow> string \<Rightarrow> u64 \<Rightarrow> lookup_hash \<Rightarrow> observation_row option
     \<Rightarrow> (persistence_error, unit) res" where
  "check_existing_outpoint env creator_hash invoice outpoint sats outpoint_hash existing =
     (case existing of
        None \<Rightarrow> Inr ()
      | Some row \<Rightarrow>
          bindr (guardr (bo_invoice row \<noteq> Some invoice \<or> bo_preparation row \<noteq> None) StoreConflict) (\<lambda>_.
          bindr (decrypt_observation env creator_hash row) (\<lambda>found.
          guardr (bo1_outpoint found \<noteq> outpoint \<or> bo1_observed_sats found \<noteq> sats \<or>
            bo_outpoint_hash row \<noteq> outpoint_hash) StoreConflict)))"

definition u32_or_default :: "int \<Rightarrow> u32" where
  "u32_or_default n = (case u32_try_from n of Some c \<Rightarrow> c | None \<Rightarrow> 0)"

definition observation_action_of ::
  "bool \<Rightarrow> (observation_row \<times> bitcoin_observation_v1) option \<Rightarrow> string \<Rightarrow> u64 \<Rightarrow> u32 \<Rightarrow> bool \<Rightarrow> u64
     \<Rightarrow> observation_action option" where
  "observation_action_of provider_v2 active outpoint sats confirmations present required =
     map_option (\<lambda>(row, found).
       if provider_v2 then (if bo1_outpoint found = outpoint \<or> \<not> present then Update else Replace)
       else action_for_values
         (direct_binding_new (bo1_outpoint found) (bo1_observed_sats found)
           (u32_or_default (bo_confirmations row)) (bo_present row))
         outpoint sats confirmations present required) active"

definition retire_active :: "uuid \<Rightarrow> db \<Rightarrow> db" where
  "retire_active invoice d =
     d\<lparr>db_observations := update_where (\<lambda>row. bo_invoice row = Some invoice \<and> bo_active row)
       (\<lambda>row. row\<lparr>bo_active := False\<rparr>) (db_observations d)\<rparr>"

text \<open>Insert or update on the outpoint; at most one row of an invoice is active, and identifiers are unique.\<close>

definition write_observation :: "observation_row \<Rightarrow> db \<Rightarrow> (persistence_error, db) res" where
  "write_observation new d =
     (case observation_by_outpoint d (bo_outpoint_hash new) of
        Some row \<Rightarrow>
          if bo_invoice row \<noteq> bo_invoice new then Inl StoreConflict
          else if list_ex (\<lambda>r. bo_invoice r = bo_invoice new \<and> bo_active r \<and> bo_id r \<noteq> bo_id row) (db_observations d)
          then Inl StoreConflict
          else Inr (d\<lparr>db_observations := update_where (\<lambda>r. bo_outpoint_hash r = bo_outpoint_hash new)
            (\<lambda>r. r\<lparr>bo_confirmations := bo_confirmations new, bo_present := bo_present new, bo_active := True\<rparr>)
            (db_observations d)\<rparr>)
      | None \<Rightarrow>
          if list_ex (\<lambda>r. bo_id r = bo_id new \<or> bo_invoice r = bo_invoice new \<and> bo_active r) (db_observations d)
          then Inl StoreConflict
          else Inr (d\<lparr>db_observations := db_observations d @ [new]\<rparr>))"

definition add_timely :: "uuid \<Rightarrow> lookup_hash \<Rightarrow> db \<Rightarrow> db" where
  "add_timely invoice outpoint_hash d =
     (if (invoice, outpoint_hash) \<in> set (db_timely d) then d
      else d\<lparr>db_timely := db_timely d @ [(invoice, outpoint_hash)]\<rparr>)"

definition record_first_match :: "uuid \<Rightarrow> int \<Rightarrow> lookup_hash \<Rightarrow> db \<Rightarrow> (persistence_error, db) res" where
  "record_first_match invoice observed_at outpoint_hash =
     update_invoices (\<lambda>v. iv_id v = invoice)
       (\<lambda>v. v\<lparr>iv_first_matched_at := coalesce (iv_first_matched_at v) (Some observed_at),
             iv_first_matched_outpoint := coalesce (iv_first_matched_outpoint v) (Some outpoint_hash)\<rparr>)"

text \<open>What an accepted observation writes, in the order of the statements.\<close>

definition store_observation ::
  "('r, 'd) env \<Rightarrow> observation_fresh \<Rightarrow> int \<Rightarrow> observation_input \<Rightarrow> int \<Rightarrow> int \<Rightarrow> invoice_row \<Rightarrow> lookup_hash
     \<Rightarrow> payment_record \<Rightarrow> bool \<Rightarrow> bool \<Rightarrow> uuid \<Rightarrow> lookup_hash \<Rightarrow> db \<Rightarrow> (persistence_error, db) res" where
  "store_observation env fresh transaction_now input observed_at confirmations v creator_hash payment provider_v2
     amount_matched observation_id outpoint_hash d =
     bindr (seal_column env (of_nonce fresh)
        (ctx_bitcoin_observation_for_invoice creator_hash observation_id (iv_id v))
        (observation_to_bytes env \<lparr>bo1_version = 1, bo1_outpoint = canonical_text (bi_outpoint input),
          bo1_observed_sats = bi_sats input\<rparr>)) (\<lambda>envelope.
     bindr (write_observation \<lparr>bo_id = observation_id, bo_invoice = Some (iv_id v), bo_preparation = None,
        bo_envelope = envelope, bo_outpoint_hash = outpoint_hash, bo_confirmations = confirmations,
        bo_present = bi_present input, bo_active = True, bo_first_observed_at = observed_at\<rparr> d) (\<lambda>d1.
     let d2 = (if amount_matched \<and> observed_at \<le> iv_payment_deadline v then add_timely (iv_id v) outpoint_hash d1 else d1)
     in bindr (if amount_matched \<and> \<not> provider_v2 then record_first_match (iv_id v) observed_at outpoint_hash d2
               else Inr d2) (\<lambda>d3.
        bindr (project_payments env (iv_id v) creator_hash payment observed_at transaction_now d3) (\<lambda>d4.
        Inr (project_provider_v2_sample (iv_id v) observation_id observed_at (bi_present input) confirmations
          amount_matched d4)))))"

definition apply_bitcoin_observation_in_tx ::
  "('r, 'd) env \<Rightarrow> observation_fresh \<Rightarrow> int \<Rightarrow> observation_input \<Rightarrow> int \<Rightarrow> db \<Rightarrow> (persistence_error, bool \<times> db) res" where
  "apply_bitcoin_observation_in_tx env fresh transaction_now input observed_at d =
     bindr (ok_or (i32_try_from (bi_confirmations input)) CorruptOrMissing) (\<lambda>confirmations.
     let outpoint = canonical_text (bi_outpoint input);
         address_hash = bitcoin_address_lookup_hash (env_crypto env) (bi_address input);
         present = bi_present input
     in case invoice_by_address d address_hash of
          None \<Rightarrow> Inr (False, d)
        | Some (v, c) \<Rightarrow>
            bindr (lookup_hash_from_storage CorruptOrMissing (cr_lookup_hash c)) (\<lambda>creator_hash.
            bindr (open_payment_record env creator_hash (iv_id v) (iv_payment_record_envelope v)) (\<lambda>payment.
            bindr (ok_or (pr_bitcoin payment) CorruptOrMissing) (\<lambda>destination.
            bindr (guardr (pr_version payment \<noteq> 1 \<or> pd_address destination \<noteq> bi_address input \<or>
                iv_address_hash v \<noteq> Some address_hash) CorruptOrMissing) (\<lambda>_.
            let required = pd_required_amount destination;
                provider_v2 = is_provider_v2 d (iv_id v);
                amount_matched = (present \<and> required \<le> bi_sats input);
                outpoint_hash = bitcoin_outpoint_lookup_hash (env_crypto env) outpoint;
                existing = observation_by_outpoint d outpoint_hash
            in bindr (check_existing_outpoint env creator_hash (iv_id v) outpoint (bi_sats input) outpoint_hash existing) (\<lambda>_.
               bindr (case active_observation d (iv_id v) of
                        None \<Rightarrow> Inr None
                      | Some row \<Rightarrow> bindr (decrypt_observation env creator_hash row) (\<lambda>found. Inr (Some (row, found)))) (\<lambda>active.
               if \<not> provider_v2 \<and> (case active of
                    Some (row, found) \<Rightarrow> bo_present row \<and> 6 \<le> bo_confirmations row \<and> required \<le> bo1_observed_sats found
                  | None \<Rightarrow> False)
               then Inr (True, d)
               else if \<not> present \<and> (case active of Some (row, found) \<Rightarrow> bo1_outpoint found \<noteq> outpoint | None \<Rightarrow> False)
               then Inr (True, d)
               else
                 let action = observation_action_of provider_v2 active outpoint (bi_sats input) (bi_confirmations input)
                       present required
                 in if action = Some Ignore then Inr (True, d)
                    else if active = None \<and> \<not> present then Inr (True, d)
                    else
                      let d1 = (if action = Some Replace then retire_active (iv_id v) d else d);
                          observation_id = (case existing of Some row \<Rightarrow> bo_id row | None \<Rightarrow> of_id fresh)
                      in bindr (store_observation env fresh transaction_now input observed_at confirmations v creator_hash
                            payment provider_v2 amount_matched observation_id outpoint_hash d1) (\<lambda>d2.
                         Inr (True, d2)))))))))"

definition expire_unmatched_at_deadline_in_tx ::
  "('r, 'd) env \<Rightarrow> string \<Rightarrow> int \<Rightarrow> db \<Rightarrow> (persistence_error, db) res" where
  "expire_unmatched_at_deadline_in_tx env address observed_at d =
     update_invoices (\<lambda>v. iv_address_hash v = Some (bitcoin_address_lookup_hash (env_crypto env) address) \<and>
         iv_payment_deadline v = observed_at \<and> iv_first_matched_at v = None \<and> iv_expired_at v = None \<and>
         \<not> is_provider_v2 d (iv_id v))
       (\<lambda>v. v\<lparr>iv_expired_at := Some observed_at\<rparr>) d"

definition apply_bitcoin_observation_with_time ::
  "('r, 'd) env \<Rightarrow> observation_fresh \<Rightarrow> int \<Rightarrow> observation_input \<Rightarrow> int \<Rightarrow> db \<Rightarrow> (persistence_error, bool \<times> db) res" where
  "apply_bitcoin_observation_with_time env fresh transaction_now input observed_at d =
     bindr (apply_bitcoin_observation_in_tx env fresh transaction_now input observed_at d) (\<lambda>(applied, d1).
     bindr (expire_unmatched_at_deadline_in_tx env (bi_address input) observed_at d1) (\<lambda>d2.
     Inr (applied, d2)))"

definition apply_bitcoin_observation_batch_with_time ::
  "('r, 'd) env \<Rightarrow> int \<Rightarrow> (observation_fresh \<times> observation_input) list \<Rightarrow> int \<Rightarrow> db
     \<Rightarrow> (persistence_error, nat \<times> db) res" where
  "apply_bitcoin_observation_batch_with_time env transaction_now observations observed_at d =
     (if observations = [] then Inr (0, d)
      else
        bindr (foldr_res (\<lambda>(applied, d) (fresh, input).
          bindr (apply_bitcoin_observation_in_tx env fresh transaction_now input observed_at d) (\<lambda>(found, d1).
          Inr (if found then applied + 1 else applied, d1))) (0, d) observations) (\<lambda>(applied, d1).
        bindr (foldr_res (\<lambda>d (fresh, input). expire_unmatched_at_deadline_in_tx env (bi_address input) observed_at d)
          d1 observations) (\<lambda>d2.
        Inr (applied, d2))))"

section \<open>What to observe next\<close>

record tracked_output =
  to_outpoint :: bitcoin_outpoint
  to_sats :: u64

record observation_target =
  ot_address :: string
  ot_current :: "tracked_output option"

definition expire_overdue :: "int \<Rightarrow> db \<Rightarrow> (persistence_error, db) res" where
  "expire_overdue observed_at d =
     bindr (update_invoices (\<lambda>v. iv_expired_at v = None \<and> iv_first_matched_at v = None \<and>
         iv_payment_deadline v < observed_at \<and> \<not> is_provider_v2 d (iv_id v))
       (\<lambda>v. v\<lparr>iv_expired_at := Some observed_at\<rparr>) d) (\<lambda>d1.
     update_invoices (\<lambda>v. iv_expired_at v = None \<and> iv_payment_deadline v < observed_at \<and>
         is_provider_v2 d1 (iv_id v) \<and> \<not> list_ex (\<lambda>s. sr_invoice s = iv_id v) (db_first_evidence d1))
       (\<lambda>v. v\<lparr>iv_expired_at := Some observed_at\<rparr>) d1)"

definition timely_final :: "db \<Rightarrow> uuid \<Rightarrow> observation_row option \<Rightarrow> bool" where
  "timely_final d invoice observation =
     (case observation of
        None \<Rightarrow> False
      | Some row \<Rightarrow> (invoice, bo_outpoint_hash row) \<in> set (db_timely d) \<and> bo_present row \<and> 6 \<le> bo_confirmations row)"

definition target_of ::
  "('r, 'd) env \<Rightarrow> creator_row \<Rightarrow> invoice_row \<Rightarrow> observation_row option
     \<Rightarrow> (persistence_error, observation_target option) res" where
  "target_of env c v observation =
     bindr (lookup_hash_from_storage CorruptOrMissing (cr_lookup_hash c)) (\<lambda>creator_hash.
     bindr (open_payment_record env creator_hash (iv_id v) (iv_payment_record_envelope v)) (\<lambda>payment.
     bindr (ok_or (pr_bitcoin payment) CorruptOrMissing) (\<lambda>destination.
     bindr (guardr (pr_version payment \<noteq> 1 \<or>
         iv_address_hash v \<noteq> Some (bitcoin_address_lookup_hash (env_crypto env) (pd_address destination)) \<or>
         iv_derivation_hash v \<noteq>
           bitcoin_derivation_index_lookup_hash (env_crypto env) creator_hash (pr_derivation_index payment))
       CorruptOrMissing) (\<lambda>_.
     bindr (case observation of
              None \<Rightarrow> Inr None
            | Some row \<Rightarrow>
                bindr (open_observation env creator_hash (bo_id row) (iv_id v) (bo_envelope row)) (\<lambda>found.
                bindr (guardr (bo1_version found \<noteq> 1 \<or>
                    bo_outpoint_hash row \<noteq> bitcoin_outpoint_lookup_hash (env_crypto env) (bo1_outpoint found))
                  CorruptOrMissing) (\<lambda>_.
                bindr (parse_canonical_bitcoin_outpoint env (bo1_outpoint found)) (\<lambda>outpoint.
                Inr (Some \<lparr>to_outpoint = outpoint, to_sats = bo1_observed_sats found\<rparr>))))) (\<lambda>current.
     if (case (observation, current) of
           (Some row, Some output) \<Rightarrow>
             bo_present row \<and> 6 \<le> bo_confirmations row \<and> pd_required_amount destination \<le> to_sats output
         | _ \<Rightarrow> False)
     then Inr None
     else Inr (Some \<lparr>ot_address = pd_address destination, ot_current = current\<rparr>))))))"

definition observation_targets_with_time ::
  "('r, 'd) env \<Rightarrow> int \<Rightarrow> db \<Rightarrow> (persistence_error, observation_target list) res \<times> db" where
  "observation_targets_with_time env observed_at d =
     (case expire_overdue observed_at d of
        Inl e \<Rightarrow> (Inl e, d)
      | Inr d1 \<Rightarrow>
          let rows = List.map_filter (\<lambda>v.
                map_option (\<lambda>c. (c, v, active_observation d1 (iv_id v))) (find_creator d1 (iv_creator v)))
                (sort_key iv_id (filter (\<lambda>v. iv_address_hash v \<noteq> None \<and>
                   (\<not> is_provider_v2 d1 (iv_id v) \<or> observed_at < iv_payment_deadline v) \<and>
                   \<not> timely_final d1 (iv_id v) (active_observation d1 (iv_id v))) (db_invoices d1)))
          in (bindr (mapr (\<lambda>(c, v, observation). target_of env c v observation) rows) (\<lambda>targets.
                Inr (List.map_filter id targets)), d1))"

definition fence_observation_targets ::
  "('r, 'd) env \<Rightarrow> db \<Rightarrow> int \<Rightarrow> observation_target list \<Rightarrow> int \<times> observation_target list" where
  "fence_observation_targets env d observed_at targets =
     (observed_at, filter (\<lambda>target.
        let address_hash = bitcoin_address_lookup_hash (env_crypto env) (ot_address target);
            deadline = map_option iv_payment_deadline (find (\<lambda>v. iv_address_hash v = Some address_hash \<and>
              is_provider_v2 d (iv_id v)) (sort_key iv_id (db_invoices d)))
        in (case deadline of None \<Rightarrow> True | Some t \<Rightarrow> observed_at < t)) targets)"

section \<open>Verified token transfers\<close>

record verified_transfer =
  vt_identity :: string
  vt_amount :: u64
  vt_timestamp :: int
  vt_confirmations :: u32
  vt_finalized :: bool
  vt_sender :: string

definition write_receipt :: "usdt_observation_row \<Rightarrow> db \<Rightarrow> (persistence_error, uuid option \<times> db) res" where
  "write_receipt new d =
     (case find (\<lambda>o'. uo_transfer_hash o' = uo_transfer_hash new) (db_usdt d) of
        Some old \<Rightarrow>
          Inr (uo_invoice old, d\<lparr>db_usdt := update_where (\<lambda>o'. uo_transfer_hash o' = uo_transfer_hash new)
            (\<lambda>o'. if uo_invoice o' = uo_invoice new
              then o'\<lparr>uo_envelope := uo_envelope new, uo_confirmations := uo_confirmations new, uo_present := True,
                uo_finalized := uo_finalized new, uo_checked_at := uo_checked_at new\<rparr> else o') (db_usdt d)\<rparr>)
      | None \<Rightarrow>
          if list_ex (\<lambda>o'. uo_id o' = uo_id new) (db_usdt d) then Inl StoreUnavailable
          else Inr (uo_invoice new, d\<lparr>db_usdt := db_usdt d @ [new]\<rparr>))"

definition apply_usdt_transfer ::
  "('r, 'd) env \<Rightarrow> observation_fresh \<Rightarrow> int \<Rightarrow> int \<Rightarrow> usdt_invoice \<Rightarrow> lookup_hash \<Rightarrow> payment_record \<Rightarrow> verified_transfer
     \<Rightarrow> db \<Rightarrow> (persistence_error, bool \<times> db) res" where
  "apply_usdt_transfer env fresh now transaction_now row creator_hash payment transfer d =
     (let transfer_hash = usdt_transfer_lookup_hash (env_crypto env) (vt_identity transfer);
          existing = find (\<lambda>o'. uo_transfer_hash o' = transfer_hash) (db_usdt d)
      in if (case existing of Some o' \<Rightarrow> uo_invoice o' \<noteq> Some (ui_id row) | None \<Rightarrow> False) then Inr (False, d)
         else if (case existing of Some o' \<Rightarrow> uo_finalized o' | None \<Rightarrow> False) then Inr (True, d)
         else
           let i = (case existing of Some o' \<Rightarrow> uo_id o' | None \<Rightarrow> of_id fresh);
               facts = \<lparr>tf_identity = vt_identity transfer, tf_amount = vt_amount transfer, tf_timestamp = vt_timestamp transfer\<rparr>
           in bindr (seal_column env (of_nonce fresh) (ctx_usdt_observation creator_hash i (ui_id row))
                (facts_to_bytes env facts (vt_sender transfer))) (\<lambda>envelope.
              bindr (ok_or (i32_try_from (vt_confirmations transfer)) StoreInvalidInput) (\<lambda>confirmations.
              bindr (write_receipt \<lparr>uo_id = i, uo_invoice = Some (ui_id row), uo_transfer_hash = transfer_hash,
                uo_envelope = envelope, uo_confirmations = confirmations, uo_present = True,
                uo_finalized = vt_finalized transfer, uo_checked_at = transaction_now\<rparr> d) (\<lambda>(owner, d1).
              if owner \<noteq> Some (ui_id row) then Inr (False, d)
              else bindr (project_payments env (ui_id row) creator_hash payment now transaction_now d1) (\<lambda>d2.
                Inr (True, d2))))))"

definition clear_usdt_transfer ::
  "('r, 'd) env \<Rightarrow> int \<Rightarrow> int \<Rightarrow> usdt_invoice \<Rightarrow> lookup_hash \<Rightarrow> payment_record \<Rightarrow> lookup_hash \<Rightarrow> db
     \<Rightarrow> (persistence_error, db) res" where
  "clear_usdt_transfer env now transaction_now row creator_hash payment identity_hash d =
     project_payments env (ui_id row) creator_hash payment now transaction_now
       (d\<lparr>db_usdt := update_where (\<lambda>o'. uo_invoice o' = Some (ui_id row) \<and> uo_transfer_hash o' = identity_hash \<and>
            \<not> uo_finalized o')
          (\<lambda>o'. o'\<lparr>uo_present := False, uo_confirmations := 0, uo_checked_at := transaction_now\<rparr>) (db_usdt d)\<rparr>)"

section \<open>Checking the stored evidence at start-up\<close>

definition check_payment_record ::
  "('r, 'd) env \<Rightarrow> creator_row \<Rightarrow> invoice_row \<Rightarrow> (persistence_error, unit) res" where
  "check_payment_record env c v =
     bindr (lookup_hash_from_storage CorruptOrMissing (cr_lookup_hash c)) (\<lambda>creator_hash.
     bindr (open_payment_record env creator_hash (iv_id v) (iv_payment_record_envelope v)) (\<lambda>found.
     bindr (case pr_usdt found of
              None \<Rightarrow> Inr ()
            | Some destination \<Rightarrow>
                bindr (map_err (\<lambda>_. CorruptOrMissing) (usdt_try_from (pd_address destination))) (\<lambda>_. Inr ())) (\<lambda>_.
     guardr (pr_version found \<noteq> 1 \<or>
       iv_address_hash v \<noteq>
         map_option (\<lambda>destination. bitcoin_address_lookup_hash (env_crypto env) (pd_address destination)) (pr_bitcoin found) \<or>
       iv_derivation_hash v \<noteq>
         bitcoin_derivation_index_lookup_hash (env_crypto env) creator_hash (pr_derivation_index found))
       CorruptOrMissing)))"

definition check_observation ::
  "('r, 'd) env \<Rightarrow> creator_row \<Rightarrow> uuid \<Rightarrow> observation_row \<Rightarrow> (persistence_error, unit) res" where
  "check_observation env c invoice row =
     bindr (lookup_hash_from_storage CorruptOrMissing (cr_lookup_hash c)) (\<lambda>creator_hash.
     bindr (open_observation env creator_hash (bo_id row) invoice (bo_envelope row)) (\<lambda>found.
     guardr (bo1_version found \<noteq> 1 \<or>
       bo_outpoint_hash row \<noteq> bitcoin_outpoint_lookup_hash (env_crypto env) (bo1_outpoint found)) CorruptOrMissing))"

definition check_receipt ::
  "('r, 'd) env \<Rightarrow> creator_row \<Rightarrow> uuid \<Rightarrow> usdt_observation_row \<Rightarrow> (persistence_error, unit) res" where
  "check_receipt env c invoice row =
     bindr (lookup_hash_from_storage CorruptOrMissing (cr_lookup_hash c)) (\<lambda>creator_hash.
     bindr (open_transfer_facts env (uo_id row) invoice creator_hash (uo_envelope row) (uo_transfer_hash row)) (\<lambda>_.
     Inr ()))"

definition invoice_creator :: "db \<Rightarrow> uuid option \<Rightarrow> (uuid \<times> creator_row) option" where
  "invoice_creator d invoice =
     (case invoice of
        None \<Rightarrow> None
      | Some i \<Rightarrow> (case find_invoice d i of
          None \<Rightarrow> None
        | Some v \<Rightarrow> map_option (Pair i) (find_creator d (iv_creator v))))"

definition scan_usdt_observation_integrity :: "('r, 'd) env \<Rightarrow> db \<Rightarrow> (persistence_error, unit) res" where
  "scan_usdt_observation_integrity env d =
     bindr (mapr (\<lambda>(row, i, c). check_receipt env c i row)
       (List.map_filter (\<lambda>row. map_option (Pair row) (invoice_creator d (uo_invoice row))) (db_usdt d))) (\<lambda>_. Inr ())"

definition scan_payment_record_integrity :: "('r, 'd) env \<Rightarrow> db \<Rightarrow> (persistence_error, unit) res" where
  "scan_payment_record_integrity env d =
     bindr (mapr (\<lambda>(c, v). check_payment_record env c v)
       (List.map_filter (\<lambda>v. map_option (\<lambda>c. (c, v)) (find_creator d (iv_creator v))) (db_invoices d))) (\<lambda>_.
     bindr (mapr (\<lambda>(row, i, c). check_observation env c i row)
       (List.map_filter (\<lambda>row. map_option (Pair row) (invoice_creator d (bo_invoice row))) (db_observations d))) (\<lambda>_.
     scan_usdt_observation_integrity env d))"

section \<open>Reading the status of a bundle\<close>

datatype persisted_payment_status =
    StatusUndetected
  | StatusDetected u32 bool
  | StatusConfirmed u32 bool

definition persisted_status_of :: "string \<Rightarrow> int \<Rightarrow> bool \<Rightarrow> (persistence_error, persisted_payment_status) res" where
  "persisted_status_of payment_status confirmation_count amount_matched =
     bindr (ok_or (u32_try_from confirmation_count) CorruptOrMissing) (\<lambda>confirmations.
     if payment_status = ''undetected'' then Inr StatusUndetected
     else if payment_status = ''detected'' then Inr (StatusDetected confirmations amount_matched)
     else if payment_status = ''confirmed'' then Inr (StatusConfirmed confirmations amount_matched)
     else Inl CorruptOrMissing)"

definition payment_status ::
  "('r, 'd) env \<Rightarrow> db \<Rightarrow> string \<Rightarrow> string \<Rightarrow> (persistence_error, persisted_payment_status option) res" where
  "payment_status env d creator bundle_id =
     (case joined_invoice d (hash_of env creator) (hash_of env bundle_id) of
        None \<Rightarrow> Inr None
      | Some v \<Rightarrow> bindr (persisted_status_of (iv_payment_status v) (iv_confirmation_count v) (iv_amount_matched v))
          (\<lambda>s. Inr (Some s)))"

definition invoice_exists :: "('r, 'd) env \<Rightarrow> db \<Rightarrow> string \<Rightarrow> string \<Rightarrow> bool" where
  "invoice_exists env d creator bundle_id = (joined_invoice d (hash_of env creator) (hash_of env bundle_id) \<noteq> None)"

definition connection_binding ::
  "('r, 'd) env \<Rightarrow> db \<Rightarrow> string \<Rightarrow> string \<Rightarrow> (persistence_error, 'r reader_pubky option) res" where
  "connection_binding env d creator bundle_id =
     (case joined_invoice d (hash_of env creator) (hash_of env bundle_id) of
        None \<Rightarrow> Inr None
      | Some v \<Rightarrow>
          bindr (lookup_hash_from_storage CorruptOrMissing (hash_of env creator)) (\<lambda>creator_hash.
          bindr (open_column env (ctx_invoice creator_hash (iv_id v)) (iv_invoice_envelope v)) (\<lambda>plaintext.
          bindr (decode_intent env plaintext) (\<lambda>intent.
          bindr (map_err (\<lambda>_. CorruptOrMissing) (parse_reader (pubky_from_str (env_sdk env)) (pubky_to_str (env_sdk env))
            (intent_reader_pubky intent))) (\<lambda>reader.
          Inr (Some reader))))))"

record bitcoin_payment_status =
  bps_confirmations :: u32
  bps_amount_matched :: bool
  bps_paid_on_time :: bool

record usdt_payment_status_v =
  ups_confirmations :: u32
  ups_amount_matched :: bool
  ups_paid_on_time :: bool
  ups_finalized :: bool

datatype payment_state = PaymentUndetected | PaymentDetected | PaymentConfirmed | PaymentExpired

primrec payment_state_str :: "payment_state \<Rightarrow> string" where
  "payment_state_str PaymentUndetected = ''undetected''"
| "payment_state_str PaymentDetected = ''detected''"
| "payment_state_str PaymentConfirmed = ''confirmed''"
| "payment_state_str PaymentExpired = ''expired''"

record payment_request_status_summary =
  ss_request_state :: request_state
  ss_payment_state :: payment_state
  ss_created_at :: int
  ss_deadline :: int
  ss_bitcoin :: "bitcoin_payment_status option"
  ss_usdt :: "usdt_payment_status_v option"

definition usdt_payment_status ::
  "('r, 'd) env \<Rightarrow> db \<Rightarrow> uuid \<Rightarrow> (persistence_error, usdt_payment_status_v option) res" where
  "usdt_payment_status env d invoice =
     (case usdt_invoice_of d invoice of
        None \<Rightarrow> Inr None
      | Some row \<Rightarrow>
          if \<not> list_ex (\<lambda>o'. uo_invoice o' = Some invoice \<and> uo_present o') (db_usdt d) then Inr None
          else
            bindr (lookup_hash_from_storage CorruptOrMissing (ui_creator_hash row)) (\<lambda>creator_hash.
            bindr (open_payment_record env creator_hash (ui_id row) (ui_record_envelope row)) (\<lambda>payment.
            bindr (ok_or (pr_usdt payment) CorruptOrMissing) (\<lambda>destination.
            bindr (usdt_payment env d row creator_hash (pd_required_amount destination)) (\<lambda>selected.
            case selected of
              None \<Rightarrow> Inr None
            | Some (_, p) \<Rightarrow>
                bindr (ok_or (u32_try_from (op_confirmations p)) CorruptOrMissing) (\<lambda>confirmations.
                Inr (Some \<lparr>ups_confirmations = confirmations, ups_amount_matched = op_matched p,
                  ups_paid_on_time = eligible p, ups_finalized = op_finalized p\<rparr>)))))))"

text \<open>The order of the query: strength of the state, then its instant, then its text.\<close>

definition state_strength :: "string \<Rightarrow> int" where
  "state_strength s =
     (if s = ''invalid_conflict'' then 9 else if s = ''recovery_required'' then 8
      else if s = ''proof_submitted'' then 7 else if s = ''active_recurring'' then 6
      else if s = ''accepted'' then 5 else if s = ''proposed'' then 4
      else if s = ''proposal_expired'' then 0 else if s = ''rejected'' then 0 else if s = ''canceled'' then 0
      else -1)"

definition strongest_request :: "db \<Rightarrow> uuid \<Rightarrow> string option" where
  "strongest_request d invoice =
     (case rev (sort_key (\<lambda>l. (state_strength (lr_request_state l), lr_last_event_at l, lr_request_state l))
         (filter (\<lambda>l. lr_invoice l = Some invoice) (db_lifecycles d))) of
        [] \<Rightarrow> None
      | l # _ \<Rightarrow> Some (lr_request_state l))"

definition terminal_fallback :: "db \<Rightarrow> uuid \<Rightarrow> string option" where
  "terminal_fallback d invoice =
     (if list_ex (\<lambda>r. ri_invoice r = Some invoice \<and> ri_classification r = ''proposal_suppressed'') (db_rotation_items d)
      then Some ''canceled''
      else if list_ex (\<lambda>row. ob_invoice row = Some invoice \<and> ob_intent_kind row = ''payment_request_proposal'' \<and>
         ob_status row = ''permanently_failed'' \<and> ob_error_class row = Some ''proposal_expired'') (db_outbox d)
      then Some ''proposal_expired'' else None)"

definition bitcoin_timely :: "db \<Rightarrow> uuid \<Rightarrow> bool" where
  "bitcoin_timely d invoice =
     list_ex (\<lambda>row. bo_invoice row = Some invoice \<and> bo_active row \<and> bo_present row \<and>
       (invoice, bo_outpoint_hash row) \<in> set (db_timely d)) (db_observations d)"

definition payment_state_of ::
  "invoice_row \<Rightarrow> usdt_payment_status_v option \<Rightarrow> (persistence_error, payment_state) res" where
  "payment_state_of v usdt =
     (let usdt_confirmed = (case usdt of Some p \<Rightarrow> 0 < ups_confirmations p | None \<Rightarrow> False) in
      if iv_expired_at v \<noteq> None then Inr PaymentExpired
      else if iv_payment_status v = ''confirmed'' then Inr PaymentConfirmed
      else if iv_payment_status v \<in> {''undetected'', ''detected''} \<and> usdt_confirmed then Inr PaymentConfirmed
      else if iv_payment_status v = ''detected'' then Inr PaymentDetected
      else if iv_payment_status v = ''undetected'' \<and> usdt \<noteq> None then Inr PaymentDetected
      else if iv_payment_status v = ''undetected'' then Inr PaymentUndetected
      else Inl CorruptOrMissing)"

definition into_summary ::
  "db \<Rightarrow> invoice_row \<Rightarrow> usdt_payment_status_v option \<Rightarrow> (persistence_error, payment_request_status_summary) res" where
  "into_summary d v usdt =
     bindr (ok_or (Option.bind (coalesce (strongest_request d (iv_id v)) (terminal_fallback d (iv_id v))) request_state_parse)
       CorruptOrMissing) (\<lambda>state.
     bindr (payment_state_of v usdt) (\<lambda>payment.
     bindr (ok_or (u32_try_from (iv_confirmation_count v)) CorruptOrMissing) (\<lambda>confirmations.
     Inr \<lparr>ss_request_state = state, ss_payment_state = payment, ss_created_at = iv_created_at v,
       ss_deadline = iv_payment_deadline v,
       ss_bitcoin = (if iv_payment_status v \<noteq> ''undetected''
         then Some \<lparr>bps_confirmations = confirmations, bps_amount_matched = iv_amount_matched v,
           bps_paid_on_time = (iv_amount_matched v \<and> bitcoin_timely d (iv_id v))\<rparr> else None),
       ss_usdt = usdt\<rparr>)))"

definition payment_request_status_by_invoice ::
  "('r, 'd) env \<Rightarrow> db \<Rightarrow> uuid \<Rightarrow> (persistence_error, payment_request_status_summary option) res" where
  "payment_request_status_by_invoice env d invoice =
     (case find_invoice d invoice of
        None \<Rightarrow> Inr None
      | Some v \<Rightarrow>
          if find_creator d (iv_creator v) = None then Inr None
          else
            bindr (usdt_payment_status env d invoice) (\<lambda>usdt.
            bindr (into_summary d v usdt) (\<lambda>summary. Inr (Some summary))))"

definition payment_request_status ::
  "('r, 'd) env \<Rightarrow> db \<Rightarrow> string \<Rightarrow> string \<Rightarrow> (persistence_error, payment_request_status_summary option) res" where
  "payment_request_status env d creator bundle_id =
     (case joined_invoice d (hash_of env creator) (hash_of env bundle_id) of
        None \<Rightarrow> Inr None
      | Some v \<Rightarrow> payment_request_status_by_invoice env d (iv_id v))"

definition payment_request_status_after_receive ::
  "('r, 'd) env \<Rightarrow> db \<Rightarrow> string \<Rightarrow> string \<Rightarrow> string list
     \<Rightarrow> (persistence_error, payment_request_status_summary option) res" where
  "payment_request_status_after_receive env d creator bundle_id evidence =
     (case find (\<lambda>c. cr_lookup_hash c = hash_of env creator) (db_creators d) of
        None \<Rightarrow> Inr None
      | Some c \<Rightarrow>
          (case creator_bundle_invoice d (cr_id c) (hash_of env bundle_id) of
             None \<Rightarrow> Inr None
           | Some v \<Rightarrow>
               bindr (ok_or (find_generation d (cr_id c) (iv_lock_hash v)) StoreUnavailable) (\<lambda>_.
               bindr (required_receive_targets_for_bundle_in_transaction env d (cr_id c) (hash_of env bundle_id)) (\<lambda>current.
               bindr (guardr (\<not> receive_evidence_covers current evidence) StoreUnavailable) (\<lambda>_.
               payment_request_status_by_invoice env d (iv_id v))))))"

record payment_status_response =
  psr_status :: string
  psr_confirmations :: u32
  psr_amount_matched :: bool

datatype payment_status_error = StatusNotFound | StatusUnavailable

definition payment_status_service ::
  "(persistence_error, persisted_payment_status option) res \<Rightarrow> (payment_status_error, payment_status_response) res" where
  "payment_status_service persisted =
     bindr (map_err (\<lambda>_. StatusUnavailable) persisted) (\<lambda>found.
     bindr (ok_or found StatusNotFound) (\<lambda>status.
     Inr (case status of
         StatusUndetected \<Rightarrow> \<lparr>psr_status = ''undetected'', psr_confirmations = 0, psr_amount_matched = False\<rparr>
       | StatusDetected n m \<Rightarrow> \<lparr>psr_status = ''detected'', psr_confirmations = n, psr_amount_matched = m\<rparr>
       | StatusConfirmed n m \<Rightarrow> \<lparr>psr_status = ''confirmed'', psr_confirmations = n, psr_amount_matched = m\<rparr>)))"

section \<open>Invoiced readers\<close>

definition invoiced_readers :: "('r, 'd) env \<Rightarrow> db \<Rightarrow> uuid \<Rightarrow> string list \<Rightarrow> string list" where
  "invoiced_readers env d creator_id candidates =
     filter (\<lambda>reader. list_ex (\<lambda>a. as_creator a = creator_id \<and> as_reader_hash a = hash_of env reader) (db_assignments d))
       candidates"

end
