(* ===== verification/Evidence_Safety.thy ===== *)
theory Evidence_Safety
  imports Payment_Evidence
begin

text \<open>
  Correctness of the payment evidence: the invariant of observations and invoice columns, the contract that every
  operation of the observers meets, runs of the observers, the permanence of a settled payment and the origin
  of an on-time mark, and the agreement of the status query with the lifecycle aggregate.
\<close>

section \<open>The strongest request in the database and in the program\<close>

lemma state_strength_rank: "state_strength (request_state_str st) = int (aggregate_rank st)"
  by (cases st) (simp_all add: state_strength_def)

lemma sort_key_Nil [simp]: "sort_key f xs = [] \<longleftrightarrow> xs = []"
  by (simp flip: length_0_conv)

lemma last_sort_key:
  assumes "xs \<noteq> []"
  shows "last (sort_key f xs) \<in> set xs \<and> (\<forall>x \<in> set xs. f x \<le> f (last (sort_key f xs)))"
proof -
  let ?s = "sort_key f xs"
  have ne: "?s \<noteq> []" using assms by simp
  have "f x \<le> f (last ?s)" if "x \<in> set xs" for x
  proof -
    from that obtain i where i: "i < length ?s" "?s ! i = x" by (metis in_set_conv_nth set_sort)
    then have "map f ?s ! i \<le> map f ?s ! (length ?s - 1)"
      by (intro sorted_nth_mono sorted_sort_key) simp_all
    then show ?thesis using i ne by (simp add: last_conv_nth)
  qed
  moreover have "last ?s \<in> set xs" using last_in_set [OF ne] by simp
  ultimately show ?thesis by blast
qed

text \<open>C27: The status query and the domain agree on the strongest request: ordering the rows in the database and taking
  the first gives the state that the domain's aggregate of the same rows gives.\<close>

theorem strongest_request_aggregates:
  assumes "\<And>l. l \<in> set (db_lifecycles d) \<Longrightarrow> request_state_parse (lr_request_state l) = Some (st l)"
  shows "strongest_request d invoice =
    map_option (request_state_str \<circ> pl_request_state)
      (aggregate_lifecycle (map (\<lambda>l. (st l, lr_last_event_at l))
        (filter (\<lambda>l. lr_invoice l = Some invoice) (db_lifecycles d))))"
proof (cases "filter (\<lambda>l. lr_invoice l = Some invoice) (db_lifecycles d) = []")
  case True
  then show ?thesis by (simp add: strongest_request_def aggregate_lifecycle_def)
next
  case False
  let ?rows = "filter (\<lambda>l. lr_invoice l = Some invoice) (db_lifecycles d)"
  let ?key = "\<lambda>l. (state_strength (lr_request_state l), lr_last_event_at l, lr_request_state l)"
  let ?m = "last (sort_key ?key ?rows)"
  have shown: "lr_request_state l = request_state_str (st l)" if "l \<in> set ?rows" for l
    using assms that state_text.parse_iff by auto
  have m: "?m \<in> set ?rows" "\<And>l. l \<in> set ?rows \<Longrightarrow> ?key l \<le> ?key ?m"
    using last_sort_key [OF False, of ?key] by blast+
  have "sort_key ?key ?rows \<noteq> []" using False by (simp only: sort_key_Nil not_False_eq_True)
  then have "strongest_request d invoice = Some (lr_request_state ?m)"
    by (cases "sort_key ?key ?rows" rule: rev_cases) (auto simp: strongest_request_def)
  moreover have "max_by_key aggregate_key (map (\<lambda>l. (st l, lr_last_event_at l)) ?rows) = Some (st ?m, lr_last_event_at ?m)"
  proof (rule max_by_key_unique)
    show "inj_on aggregate_key (set (map (\<lambda>l. (st l, lr_last_event_at l)) ?rows))"
      using aggregate_key_inj by (rule inj_on_subset) simp
    show "(st ?m, lr_last_event_at ?m) \<in> set (map (\<lambda>l. (st l, lr_last_event_at l)) ?rows)" using m(1) by auto
    fix x assume "x \<in> set (map (\<lambda>l. (st l, lr_last_event_at l)) ?rows)"
    then obtain l where l: "l \<in> set ?rows" "x = (st l, lr_last_event_at l)" by auto
    show "aggregate_key x \<le> aggregate_key (st ?m, lr_last_event_at ?m)"
      using m(2) [OF l(1)] shown [OF l(1)] shown [OF m(1)] l(2)
      by (auto simp: aggregate_key_def state_strength_rank)
  qed
  ultimately show ?thesis using shown [OF m(1)] by (simp add: aggregate_lifecycle_def)
qed

section \<open>How evidence may evolve\<close>

text \<open>The part of an observation that is written once.\<close>

definition same_evidence :: "observation_row \<Rightarrow> observation_row \<Rightarrow> bool" where
  "same_evidence r r' \<longleftrightarrow> bo_id r' = bo_id r \<and> bo_invoice r' = bo_invoice r \<and> bo_preparation r' = bo_preparation r \<and>
     bo_envelope r' = bo_envelope r \<and> bo_outpoint_hash r' = bo_outpoint_hash r \<and>
     bo_first_observed_at r' = bo_first_observed_at r"

definition evidence_grows :: "db \<Rightarrow> db \<Rightarrow> bool" where
  "evidence_grows d d' \<longleftrightarrow>
     (\<forall>r \<in> set (db_observations d). \<exists>r' \<in> set (db_observations d'). same_evidence r r') \<and>
     set (db_timely d) \<subseteq> set (db_timely d') \<and>
     set (db_first_evidence d) \<subseteq> set (db_first_evidence d') \<and>
     (\<forall>u \<in> set (db_usdt d). uo_finalized u \<longrightarrow> u \<in> set (db_usdt d'))"

definition one_active :: "db \<Rightarrow> bool" where
  "one_active d \<longleftrightarrow> (\<forall>r \<in> set (db_observations d). \<forall>s \<in> set (db_observations d).
     bo_active r \<and> bo_active s \<and> bo_invoice r \<noteq> None \<and> bo_invoice r = bo_invoice s \<longrightarrow> r = s)"

text \<open>The Bitcoin columns of an invoice are what its active observation gives.\<close>

definition projected :: "('r, 'd) env \<Rightarrow> db \<Rightarrow> invoice_row \<Rightarrow> bool" where
  "projected env d v \<longleftrightarrow> (\<forall>c creator_hash payment bitcoin.
     find_creator d (iv_creator v) = Some c \<longrightarrow>
     lookup_hash_from_storage CorruptOrMissing (cr_lookup_hash c) = Inr creator_hash \<longrightarrow>
     open_payment_record env creator_hash (iv_id v) (iv_payment_record_envelope v) = Inr payment \<longrightarrow>
     bitcoin_payment env d (iv_id v) creator_hash payment = Inr bitcoin \<longrightarrow>
     iv_payment_status v = projected_status bitcoin \<and> iv_confirmation_count v = op_confirmations bitcoin \<and>
     iv_amount_matched v = op_matched bitcoin)"

definition obs_ok :: "db \<Rightarrow> bool" where
  "obs_ok d \<longleftrightarrow> distinct (map bo_id (db_observations d)) \<and> distinct (map bo_outpoint_hash (db_observations d)) \<and> one_active d"

text \<open>The invariant of the evidence, with the columns checked for a set of invoices.\<close>

definition evidence_ok_on :: "('r, 'd) env \<Rightarrow> uuid set \<Rightarrow> db \<Rightarrow> bool" where
  "evidence_ok_on env J d \<longleftrightarrow> distinct (map iv_id (db_invoices d)) \<and> obs_ok d \<and>
     distinct (map uo_transfer_hash (db_usdt d)) \<and>
     (\<forall>v \<in> set (db_invoices d). iv_id v \<in> J \<longrightarrow> projected env d v)"

definition evidence_ok :: "('r, 'd) env \<Rightarrow> db \<Rightarrow> bool" where
  "evidence_ok env = evidence_ok_on env UNIV"

lemma same_evidence_refl [simp]: "same_evidence r r"
  by (simp add: same_evidence_def)

lemma same_evidence_trans: "same_evidence a b \<Longrightarrow> same_evidence b c \<Longrightarrow> same_evidence a c"
  by (simp add: same_evidence_def)

lemma evidence_grows_same:
  "db_observations d' = db_observations d \<Longrightarrow> db_timely d' = db_timely d \<Longrightarrow> db_first_evidence d' = db_first_evidence d \<Longrightarrow>
   db_usdt d' = db_usdt d \<Longrightarrow> evidence_grows d d'"
  using same_evidence_refl by (auto simp: evidence_grows_def simp del: same_evidence_refl)

lemma evidence_grows_refl [simp]: "evidence_grows d d"
  by (simp add: evidence_grows_same)

lemma evidence_grows_trans: "evidence_grows a b \<Longrightarrow> evidence_grows b c \<Longrightarrow> evidence_grows a c"
  unfolding evidence_grows_def by (meson same_evidence_trans subset_trans)

section \<open>Frames\<close>

lemma find_update_where_other:
  "(\<And>x. x \<in> set xs \<Longrightarrow> p x \<Longrightarrow> \<not> q x \<and> \<not> q (f x)) \<Longrightarrow> find q (update_where p f xs) = find q xs"
  by (induction xs) auto

text \<open>What an invoice's Bitcoin payment depends on.\<close>

definition same_bitcoin :: "db \<Rightarrow> db \<Rightarrow> uuid \<Rightarrow> bool" where
  "same_bitcoin d d' i \<longleftrightarrow> active_observation d' i = active_observation d i \<and>
     (\<forall>h. (i, h) \<in> set (db_timely d') \<longleftrightarrow> (i, h) \<in> set (db_timely d))"

lemma bitcoin_payment_frame:
  "same_bitcoin d d' i \<Longrightarrow> bitcoin_payment env d' i = bitcoin_payment env d i"
  by (simp add: bitcoin_payment_def same_bitcoin_def fun_eq_iff Let_def cong: option.case_cong)

lemma projected_frame:
  assumes "projected env d v" "same_bitcoin d d' (iv_id v)" "db_creators d' = db_creators d"
    and "iv_id v' = iv_id v" "iv_creator v' = iv_creator v"
    and "iv_payment_record_envelope v' = iv_payment_record_envelope v" "iv_payment_status v' = iv_payment_status v"
    and "iv_confirmation_count v' = iv_confirmation_count v" "iv_amount_matched v' = iv_amount_matched v"
  shows "projected env d' v'"
  using assms bitcoin_payment_frame [OF assms(2), of env] by (simp add: projected_def find_creator_def)

lemma update_invoices_Inr:
  "update_invoices p f d = Inr d' \<longleftrightarrow>
     list_all (\<lambda>v. p v \<longrightarrow> invoice_checks (f v)) (db_invoices d) \<and>
     d' = d\<lparr>db_invoices := update_where p f (db_invoices d)\<rparr>"
  by (auto simp: update_invoices_def)

text \<open>An update of other columns of the invoices keeps the invariant.\<close>

lemma update_invoices_evidence:
  assumes "update_invoices p f d = Inr d'" "evidence_ok_on env J d"
    and "\<And>v. iv_id (f v) = iv_id v \<and> iv_creator (f v) = iv_creator v \<and>
      iv_payment_record_envelope (f v) = iv_payment_record_envelope v \<and> iv_payment_status (f v) = iv_payment_status v \<and>
      iv_confirmation_count (f v) = iv_confirmation_count v \<and> iv_amount_matched (f v) = iv_amount_matched v"
  shows "evidence_ok_on env J d'"
proof -
  from assms(1) have d': "d' = d\<lparr>db_invoices := update_where p f (db_invoices d)\<rparr>" by (simp add: update_invoices_Inr)
  have bitcoin: "same_bitcoin d d' i" for i by (simp add: d' same_bitcoin_def active_observation_def)
  have "projected env d' v'" if "v' \<in> set (db_invoices d')" "iv_id v' \<in> J" for v'
  proof -
    from that obtain v where v: "v \<in> set (db_invoices d)" "v' = (if p v then f v else v)" "iv_id v \<in> J"
      using assms(3) by (auto simp: d' set_update_where split: if_splits)
    have "projected env d v" using assms(2) v(1,3) by (simp add: evidence_ok_on_def)
    then show ?thesis by (rule projected_frame) (use assms(3) v(2) bitcoin in \<open>auto simp: d'\<close>)
  qed
  moreover have "map iv_id (db_invoices d') = map iv_id (db_invoices d)"
    using assms(3) by (simp add: d' map_update_where)
  ultimately show ?thesis
    using assms(2) by (auto simp: evidence_ok_on_def d' obs_ok_def one_active_def)
qed

lemma update_invoices_grows: "update_invoices p f d = Inr d' \<Longrightarrow> evidence_grows d d'"
  by (auto simp: update_invoices_Inr intro!: evidence_grows_same)

text \<open>A change of the observations of one invoice keeps the columns of all others right.\<close>

lemma observations_evidence:
  assumes "evidence_ok_on env J d" "obs_ok d'" "db_invoices d' = db_invoices d" "db_creators d' = db_creators d"
    and "\<And>j. j \<noteq> i \<Longrightarrow> same_bitcoin d d' j" "db_usdt d' = db_usdt d"
  shows "evidence_ok_on env (J - {i}) d'"
proof -
  have "projected env d' v" if "v \<in> set (db_invoices d)" "iv_id v \<in> J - {i}" for v
    by (rule projected_frame [of env d v d' v]) (use that assms in \<open>auto simp: evidence_ok_on_def\<close>)
  then show ?thesis using assms by (simp add: evidence_ok_on_def)
qed

section \<open>Projection\<close>

lemma add_buyer_contact_Inr:
  "add_buyer_contact i now d = Inr d' \<Longrightarrow> \<exists>b. d' = d\<lparr>db_buyer_contacts := b\<rparr>"
proof -
  assume a: "add_buyer_contact i now d = Inr d'"
  have "\<exists>b. d = d\<lparr>db_buyer_contacts := b\<rparr>" by (rule exI [of _ "db_buyer_contacts d"]) simp
  with a show ?thesis by (auto simp: add_buyer_contact_def split: option.splits if_splits)
qed

lemma project_payments_Inr:
  assumes "project_payments env i creator_hash payment now tn d = Inr d'"
  obtains bitcoin received eligible_now contacts where "bitcoin_payment env d i creator_hash payment = Inr bitcoin"
    "d' = d\<lparr>db_invoices := update_where (\<lambda>v. iv_id v = i) (project_columns bitcoin received eligible_now now) (db_invoices d),
       db_buyer_contacts := contacts\<rparr>"
    "eligible bitcoin \<Longrightarrow> eligible_now"
proof -
  from assms obtain row bitcoin usdt where b: "usdt_invoice_of d i = Some row"
    "bitcoin_payment env d i creator_hash payment = Inr bitcoin"
    "(let usdt_eligible = (case usdt of Some p \<Rightarrow> eligible p | None \<Rightarrow> False);
         eligible_now = (eligible bitcoin \<or> usdt_eligible);
         received_at = (case usdt of Some p \<Rightarrow> if eligible p then op_received_at p else None | None \<Rightarrow> None)
     in bindr (update_invoices (\<lambda>v. iv_id v = i) (project_columns bitcoin received_at eligible_now now) d) (\<lambda>d1.
        if eligible_now then add_buyer_contact i tn d1 else Inr d1)) = Inr d'"
    unfolding project_payments_def by auto
  let ?el = "eligible bitcoin \<or> (case usdt of Some p \<Rightarrow> eligible p | None \<Rightarrow> False)"
  let ?rc = "case usdt of Some p \<Rightarrow> if eligible p then op_received_at p else None | None \<Rightarrow> None"
  from b(3) obtain d1 where d1: "update_invoices (\<lambda>v. iv_id v = i) (project_columns bitcoin ?rc ?el now) d = Inr d1"
    "(if ?el then add_buyer_contact i tn d1 else Inr d1) = Inr d'"
    unfolding Let_def by auto
  have "\<exists>contacts. d' = d1\<lparr>db_buyer_contacts := contacts\<rparr>"
  proof (cases ?el)
    case True
    then show ?thesis using d1(2) add_buyer_contact_Inr by auto
  next
    case False
    then show ?thesis using d1(2) by (intro exI [of _ "db_buyer_contacts d1"]) simp
  qed
  then obtain contacts where "d' = d1\<lparr>db_buyer_contacts := contacts\<rparr>" by blast
  moreover have "d1 = d\<lparr>db_invoices := update_where (\<lambda>v. iv_id v = i) (project_columns bitcoin ?rc ?el now) (db_invoices d)\<rparr>"
    using d1(1) by (simp add: update_invoices_Inr)
  ultimately show ?thesis using that [where bitcoin = bitcoin and received = ?rc and eligible_now = ?el and contacts = contacts] b(2)
    by simp
qed

lemma project_payments_frame:
  assumes "project_payments env i creator_hash payment now tn d = Inr d'"
  shows "same_bitcoin d d' j" "db_timely d' = db_timely d" "db_creators d' = db_creators d"
    "db_first_evidence d' = db_first_evidence d" "db_usdt d' = db_usdt d" "db_observations d' = db_observations d"
    "db_provider_v2 d' = db_provider_v2 d"
  by (rule project_payments_Inr [OF assms], simp add: same_bitcoin_def active_observation_def)+

lemma project_columns_fields [simp]:
  "iv_id (project_columns b r e n v) = iv_id v" "iv_creator (project_columns b r e n v) = iv_creator v"
  "iv_payment_record_envelope (project_columns b r e n v) = iv_payment_record_envelope v"
  "iv_payment_status (project_columns b r e n v) = projected_status b"
  "iv_confirmation_count (project_columns b r e n v) = op_confirmations b"
  "iv_amount_matched (project_columns b r e n v) = op_matched b"
  by (simp_all add: project_columns_def)

text \<open>Rebuilding the columns of one invoice restores the invariant there and keeps it elsewhere.\<close>

definition opened_for :: "('r, 'd) env \<Rightarrow> db \<Rightarrow> invoice_row \<Rightarrow> lookup_hash \<Rightarrow> payment_record \<Rightarrow> bool" where
  "opened_for env d v creator_hash payment \<longleftrightarrow> (\<exists>c. find_creator d (iv_creator v) = Some c \<and>
     lookup_hash_from_storage CorruptOrMissing (cr_lookup_hash c) = Inr creator_hash \<and>
     open_payment_record env creator_hash (iv_id v) (iv_payment_record_envelope v) = Inr payment)"

lemma project_payments_evidence:
  assumes "project_payments env i creator_hash payment now tn d = Inr d'" "evidence_ok_on env (UNIV - {i}) d"
    and "\<And>v. v \<in> set (db_invoices d) \<Longrightarrow> iv_id v = i \<Longrightarrow> opened_for env d v creator_hash payment"
  shows "evidence_ok env d' \<and> evidence_grows d d'"
proof -
  from project_payments_Inr [OF assms(1)] obtain bitcoin received el contacts where
    b: "bitcoin_payment env d i creator_hash payment = Inr bitcoin" and
    d': "d' = d\<lparr>db_invoices := update_where (\<lambda>v. iv_id v = i) (project_columns bitcoin received el now) (db_invoices d),
       db_buyer_contacts := contacts\<rparr>" by metis
  have bitcoin: "same_bitcoin d d' j" for j by (simp add: d' same_bitcoin_def active_observation_def)
  have "projected env d' v'" if "v' \<in> set (db_invoices d')" for v'
  proof -
    from that obtain v where v: "v \<in> set (db_invoices d)"
      "v' = (if iv_id v = i then project_columns bitcoin received el now v else v)"
      by (auto simp: d' set_update_where)
    show ?thesis
    proof (cases "iv_id v = i")
      case True
      from assms(3) [OF v(1) True] show ?thesis
        using b bitcoin_payment_frame [OF bitcoin, of env] True v(2)
        by (auto simp: projected_def opened_for_def find_creator_def d')
    next
      case False
      then have "projected env d v" using assms(2) v(1) by (simp add: evidence_ok_on_def)
      then show ?thesis by (rule projected_frame) (use v(2) False bitcoin in \<open>auto simp: d'\<close>)
    qed
  qed
  moreover have "map iv_id (db_invoices d') = map iv_id (db_invoices d)" by (simp add: d' map_update_where)
  ultimately show ?thesis
    using assms(2) evidence_grows_same [of d' d]
    by (auto simp: evidence_ok_def evidence_ok_on_def d' obs_ok_def one_active_def)
qed

section \<open>Writing an observation\<close>

lemma row_by_hash:
  "obs_ok d \<Longrightarrow> r \<in> set (db_observations d) \<Longrightarrow> s \<in> set (db_observations d) \<Longrightarrow> bo_outpoint_hash r = bo_outpoint_hash s \<Longrightarrow> r = s"
  by (auto simp: obs_ok_def distinct_map inj_on_def)

lemma observation_row_by_id:
  "obs_ok d \<Longrightarrow> r \<in> set (db_observations d) \<Longrightarrow> s \<in> set (db_observations d) \<Longrightarrow> bo_id r = bo_id s \<Longrightarrow> r = s"
  by (auto simp: obs_ok_def distinct_map inj_on_def)

lemma update_where_evidence:
  "(\<And>r. same_evidence r (f r)) \<Longrightarrow> r \<in> set xs \<Longrightarrow> \<exists>r' \<in> set (update_where p f xs). same_evidence r r'"
  by (rule bexI [of _ "if p r then f r else r"]) (auto simp: set_update_where)

lemma retire_active_laws:
  assumes "obs_ok d"
  shows "obs_ok (retire_active i d)" "evidence_grows d (retire_active i d)" "j \<noteq> i \<Longrightarrow> same_bitcoin d (retire_active i d) j"
proof -
  let ?xs = "update_where (\<lambda>row. bo_invoice row = Some i \<and> bo_active row) (\<lambda>row. row\<lparr>bo_active := False\<rparr>) (db_observations d)"
  have "r \<in> set (db_observations d)" if "r \<in> set ?xs" "bo_active r" for r
    using that by (auto simp: set_update_where split: if_splits)
  then have "one_active (retire_active i d)"
    using assms unfolding obs_ok_def one_active_def retire_active_def by simp blast
  then show "obs_ok (retire_active i d)"
    using assms by (simp add: obs_ok_def retire_active_def map_update_where)
  have "\<exists>r' \<in> set ?xs. same_evidence r r'" if "r \<in> set (db_observations d)" for r
    using that by (intro update_where_evidence) (simp_all add: same_evidence_def)
  then show "evidence_grows d (retire_active i d)" by (simp add: evidence_grows_def retire_active_def)
  show "same_bitcoin d (retire_active i d) j" if "j \<noteq> i"
    using that unfolding same_bitcoin_def active_observation_def retire_active_def
    by (simp, intro find_update_where_other) auto
qed

lemma write_observation_Inr:
  assumes "write_observation new d = Inr d'"
  obtains (updated) row where "observation_by_outpoint d (bo_outpoint_hash new) = Some row" "bo_invoice row = bo_invoice new"
    "\<And>r. r \<in> set (db_observations d) \<Longrightarrow> bo_invoice r = bo_invoice new \<Longrightarrow> bo_active r \<Longrightarrow> bo_id r = bo_id row"
    "d' = d\<lparr>db_observations := update_where (\<lambda>r. bo_outpoint_hash r = bo_outpoint_hash new)
            (\<lambda>r. r\<lparr>bo_confirmations := bo_confirmations new, bo_present := bo_present new, bo_active := True\<rparr>)
            (db_observations d)\<rparr>"
  | (inserted) "observation_by_outpoint d (bo_outpoint_hash new) = None"
    "\<And>r. r \<in> set (db_observations d) \<Longrightarrow> bo_id r \<noteq> bo_id new"
    "\<And>r. r \<in> set (db_observations d) \<Longrightarrow> bo_invoice r = bo_invoice new \<Longrightarrow> \<not> bo_active r"
    "d' = d\<lparr>db_observations := db_observations d @ [new]\<rparr>"
proof (cases "observation_by_outpoint d (bo_outpoint_hash new)")
  case None
  then show ?thesis using assms inserted by (auto simp: write_observation_def list_ex_iff split: if_splits)
next
  case (Some row)
  then show ?thesis using assms updated [OF Some] by (auto simp: write_observation_def list_ex_iff split: if_splits)
qed

text \<open>Reactivating the row of an output, and adding an active row, when no other row of the invoice is active.\<close>

lemma one_active_updated:
  assumes "one_active d" and same_hash: "\<And>r. r \<in> set (db_observations d) \<Longrightarrow> p r \<Longrightarrow> r = row"
    and idle: "\<And>r. r \<in> set (db_observations d) \<Longrightarrow> bo_invoice r = bo_invoice row \<Longrightarrow> bo_active r \<Longrightarrow> r = row"
    and "p row" and f: "\<And>r. bo_invoice (f r) = bo_invoice r"
  shows "one_active (d\<lparr>db_observations := update_where p f (db_observations d)\<rparr>)"
  unfolding one_active_def
proof (intro ballI impI)
  fix r' s'
  assume in': "r' \<in> set (db_observations (d\<lparr>db_observations := update_where p f (db_observations d)\<rparr>))"
      "s' \<in> set (db_observations (d\<lparr>db_observations := update_where p f (db_observations d)\<rparr>))"
    and same: "bo_active r' \<and> bo_active s' \<and> bo_invoice r' \<noteq> None \<and> bo_invoice r' = bo_invoice s'"
  from in' obtain r s where rs: "r \<in> set (db_observations d)" "r' = (if p r then f r else r)"
    "s \<in> set (db_observations d)" "s' = (if p s then f s else s)"
    by (auto simp: set_update_where)
  consider "p r" "p s" | "p r" "\<not> p s" | "\<not> p r" "p s" | "\<not> p r" "\<not> p s" by blast
  then show "r' = s'"
  proof cases
    case 1
    then show ?thesis using same_hash [OF rs(1)] same_hash [OF rs(3)] rs(2,4) by simp
  next
    case 2
    have "r = row" by (rule same_hash [OF rs(1) 2(1)])
    with 2 same rs(2,4) f have "bo_invoice s = bo_invoice row" "bo_active s" by simp_all
    then have "s = row" by (rule idle [OF rs(3)])
    then show ?thesis using 2 \<open>p row\<close> by simp
  next
    case 3
    have "s = row" by (rule same_hash [OF rs(3) 3(2)])
    with 3 same rs(2,4) f have "bo_invoice r = bo_invoice row" "bo_active r" by simp_all
    then have "r = row" by (rule idle [OF rs(1)])
    then show ?thesis using 3 \<open>p row\<close> by simp
  next
    case 4
    then have eq: "r' = r" "s' = s" using rs by simp_all
    then show ?thesis using assms(1) same rs(1,3) unfolding one_active_def eq by blast
  qed
qed

lemma one_active_inserted:
  assumes "one_active d" and idle: "\<And>r. r \<in> set (db_observations d) \<Longrightarrow> bo_invoice r = bo_invoice new \<Longrightarrow> \<not> bo_active r"
  shows "one_active (d\<lparr>db_observations := db_observations d @ [new]\<rparr>)"
proof -
  have "r = s" if "r \<in> insert new (set (db_observations d))" "s \<in> insert new (set (db_observations d))"
    "bo_active r \<and> bo_active s \<and> bo_invoice r \<noteq> None \<and> bo_invoice r = bo_invoice s" for r s
    using that idle [of r] idle [of s] assms(1) unfolding one_active_def by auto
  moreover have "set (db_observations (d\<lparr>db_observations := db_observations d @ [new]\<rparr>)) = insert new (set (db_observations d))"
    by simp
  ultimately show ?thesis unfolding one_active_def by blast
qed

lemma write_observation_obs_ok:
  assumes "write_observation new d = Inr d'" "obs_ok d"
  shows "obs_ok d'"
  using assms(1)
proof (cases rule: write_observation_Inr)
  case (updated row)
  have row: "row \<in> set (db_observations d)" "bo_outpoint_hash row = bo_outpoint_hash new"
    using updated(1) by (auto simp: observation_by_outpoint_def find_Some_iff)
  have "one_active d'"
    unfolding updated(4)
  proof (rule one_active_updated [where row = row])
    show "one_active d" using assms(2) by (simp add: obs_ok_def)
    show "r = row" if "r \<in> set (db_observations d)" "bo_outpoint_hash r = bo_outpoint_hash new" for r
      using row_by_hash [OF assms(2) that(1) row(1)] that(2) row(2) by simp
    show "r = row" if "r \<in> set (db_observations d)" "bo_invoice r = bo_invoice row" "bo_active r" for r
      using observation_row_by_id [OF assms(2) that(1) row(1)] updated(3) [OF that(1) _ that(3)] that(2) updated(2) by simp
  qed (use row in simp_all)
  then show ?thesis using assms(2) by (simp add: obs_ok_def updated(4) map_update_where)
next
  case inserted
  have "bo_outpoint_hash new \<notin> bo_outpoint_hash ` set (db_observations d)"
    using inserted(1) by (auto simp: observation_by_outpoint_def find_None_iff)
  moreover have "bo_id new \<notin> bo_id ` set (db_observations d)"
  proof
    assume "bo_id new \<in> bo_id ` set (db_observations d)"
    then obtain r where "r \<in> set (db_observations d)" "bo_id new = bo_id r" by (rule imageE)
    with inserted(2) [of r] show False by simp
  qed
  moreover have "one_active d'"
    unfolding inserted(4) by (rule one_active_inserted) (use assms(2) inserted(3) in \<open>auto simp: obs_ok_def\<close>)
  ultimately show ?thesis using assms(2) by (simp add: obs_ok_def inserted(4))
qed

lemma write_observation_laws:
  assumes "write_observation new d = Inr d'" "obs_ok d" "bo_invoice new = Some i" "bo_active new"
  shows "obs_ok d'" "evidence_grows d d'" "j \<noteq> i \<Longrightarrow> same_bitcoin d d' j"
    "\<exists>x. d' = d\<lparr>db_observations := x\<rparr>"
proof -
  show "obs_ok d'" by (rule write_observation_obs_ok [OF assms(1,2)])
  have "evidence_grows d d' \<and> (j \<noteq> i \<longrightarrow> same_bitcoin d d' j) \<and> (\<exists>x. d' = d\<lparr>db_observations := x\<rparr>)"
    using assms(1)
  proof (cases rule: write_observation_Inr)
    case (updated row)
    have row: "row \<in> set (db_observations d)" "bo_outpoint_hash row = bo_outpoint_hash new"
      using updated(1) by (auto simp: observation_by_outpoint_def find_Some_iff)
    have only: "bo_invoice r = Some i" if "r \<in> set (db_observations d)" "bo_outpoint_hash r = bo_outpoint_hash new" for r
      using row_by_hash [OF assms(2) that(1) row(1)] that(2) row(2) updated(2) assms(3) by simp
    have "\<exists>r' \<in> set (db_observations d'). same_evidence r r'" if "r \<in> set (db_observations d)" for r
      unfolding updated(4) using that by (simp, intro update_where_evidence) (simp_all add: same_evidence_def)
    moreover have "same_bitcoin d d' j" if "j \<noteq> i"
      unfolding same_bitcoin_def active_observation_def updated(4)
      using that only by (simp, intro find_update_where_other) auto
    ultimately show ?thesis using updated(4) by (auto simp: evidence_grows_def)
  next
    case inserted
    have "same_bitcoin d d' j" if "j \<noteq> i"
      using that assms(3) by (simp add: same_bitcoin_def active_observation_def inserted(4) find_snoc split: option.splits)
    then show ?thesis using inserted(4) same_evidence_refl
      by (auto simp: evidence_grows_def simp del: same_evidence_refl)
  qed
  then show "evidence_grows d d'" "j \<noteq> i \<Longrightarrow> same_bitcoin d d' j" "\<exists>x. d' = d\<lparr>db_observations := x\<rparr>" by blast+
qed

lemma add_timely_laws:
  "obs_ok (add_timely i h d) = obs_ok d" "db_invoices (add_timely i h d) = db_invoices d"
  "db_creators (add_timely i h d) = db_creators d" "db_observations (add_timely i h d) = db_observations d"
  "evidence_grows d (add_timely i h d)"
  "j \<noteq> i \<Longrightarrow> same_bitcoin d (add_timely i h d) j" "db_usdt (add_timely i h d) = db_usdt d" "set (db_timely (add_timely i h d)) = insert (i, h) (set (db_timely d))"
  using same_evidence_refl
  by (auto simp: add_timely_def obs_ok_def one_active_def evidence_grows_def same_bitcoin_def active_observation_def
      simp del: same_evidence_refl)

lemma project_provider_v2_sample_shape:
  "\<exists>samples first. project_provider_v2_sample i obs t present n m d = d\<lparr>db_current_samples := samples, db_first_evidence := first\<rparr> \<and>
     set (db_first_evidence d) \<subseteq> set first"
proof -
  have "d\<lparr>db_current_samples := db_current_samples d, db_first_evidence := db_first_evidence d\<rparr> = d" by simp
  then have same: "\<exists>samples first. d = d\<lparr>db_current_samples := samples, db_first_evidence := first\<rparr> \<and> set (db_first_evidence d) \<subseteq> set first"
    by (metis subset_refl)
  have "\<exists>samples first. set_current_sample s d = d\<lparr>db_current_samples := samples, db_first_evidence := first\<rparr> \<and>
      set (db_first_evidence d) \<subseteq> set first" for s
    by (rule exI, rule exI [of _ "db_first_evidence d"]) (simp add: set_current_sample_def)
  moreover have "\<exists>samples first. add_first_evidence e (set_current_sample s d) =
      d\<lparr>db_current_samples := samples, db_first_evidence := first\<rparr> \<and> set (db_first_evidence d) \<subseteq> set first" for s e
    by (rule exI [of _ "db_current_samples (set_current_sample s d)"],
        rule exI [of _ "db_first_evidence (add_first_evidence e (set_current_sample s d))"])
      (auto simp: add_first_evidence_def set_current_sample_def)
  ultimately show ?thesis
    using same by (auto simp: project_provider_v2_sample_def Let_def split: option.splits)
qed

lemma record_first_match_laws:
  assumes "record_first_match i t h d = Inr d'"
  shows "evidence_ok_on env J d \<Longrightarrow> evidence_ok_on env J d'" "evidence_grows d d'" "same_bitcoin d d' j"
    "db_creators d' = db_creators d" "db_timely d' = db_timely d"
    "v' \<in> set (db_invoices d') \<Longrightarrow> \<exists>v \<in> set (db_invoices d). iv_id v' = iv_id v \<and> iv_creator v' = iv_creator v \<and>
       iv_payment_record_envelope v' = iv_payment_record_envelope v"
proof -
  note u = assms [unfolded record_first_match_def]
  show "evidence_ok_on env J d \<Longrightarrow> evidence_ok_on env J d'" by (rule update_invoices_evidence [OF u]) simp_all
  show "evidence_grows d d'" by (rule update_invoices_grows [OF u])
  show "same_bitcoin d d' j" "db_creators d' = db_creators d" "db_timely d' = db_timely d"
    using u by (simp_all add: update_invoices_Inr same_bitcoin_def active_observation_def)
  show "v' \<in> set (db_invoices d') \<Longrightarrow> \<exists>v \<in> set (db_invoices d). iv_id v' = iv_id v \<and> iv_creator v' = iv_creator v \<and>
       iv_payment_record_envelope v' = iv_payment_record_envelope v"
    using u by (auto simp: update_invoices_Inr set_update_where split: if_splits)
qed

lemma store_observation_Inr:
  assumes "store_observation env fresh tn input t n v ch payment provider matched oid h d = Inr d'"
  obtains new d1 d2 d3 d4 where "write_observation new d = Inr d1" "bo_invoice new = Some (iv_id v)" "bo_active new"
    "d2 = (if matched \<and> t \<le> iv_payment_deadline v then add_timely (iv_id v) h d1 else d1)"
    "d3 = d2 \<or> record_first_match (iv_id v) t h d2 = Inr d3"
    "project_payments env (iv_id v) ch payment t tn d3 = Inr d4"
    "d' = project_provider_v2_sample (iv_id v) oid t (bi_present input) n matched d4"
proof -
  from assms obtain envelope d1 d3 d4 where
    w: "write_observation \<lparr>bo_id = oid, bo_invoice = Some (iv_id v), bo_preparation = None,
        bo_envelope = envelope, bo_outpoint_hash = h, bo_confirmations = n,
        bo_present = bi_present input, bo_active = True, bo_first_observed_at = t\<rparr> d = Inr d1"
    and f: "(if matched \<and> \<not> provider then record_first_match (iv_id v) t h
        (if matched \<and> t \<le> iv_payment_deadline v then add_timely (iv_id v) h d1 else d1)
      else Inr (if matched \<and> t \<le> iv_payment_deadline v then add_timely (iv_id v) h d1 else d1)) = Inr d3"
    and p: "project_payments env (iv_id v) ch payment t tn d3 = Inr d4"
    and d': "d' = project_provider_v2_sample (iv_id v) oid t (bi_present input) n matched d4"
    unfolding store_observation_def Let_def by auto
  from f have "d3 = (if matched \<and> t \<le> iv_payment_deadline v then add_timely (iv_id v) h d1 else d1) \<or>
      record_first_match (iv_id v) t h (if matched \<and> t \<le> iv_payment_deadline v then add_timely (iv_id v) h d1 else d1) = Inr d3"
    by (cases "matched \<and> \<not> provider") auto
  from that [OF w _ _ refl this p d'] show ?thesis by simp
qed

lemma evidence_ok_samples:
  "evidence_ok env (d\<lparr>db_current_samples := a, db_first_evidence := b\<rparr>) = evidence_ok env d"
proof -
  have "bitcoin_payment env (d\<lparr>db_current_samples := a, db_first_evidence := b\<rparr>) i = bitcoin_payment env d i" for i
    by (rule bitcoin_payment_frame) (simp add: same_bitcoin_def active_observation_def)
  then show ?thesis
    by (simp add: evidence_ok_def evidence_ok_on_def obs_ok_def one_active_def projected_def find_creator_def)
qed

lemma store_observation_laws:
  assumes "store_observation env fresh tn input t n v ch payment provider matched oid h d = Inr d'"
    and "evidence_ok_on env (UNIV - {iv_id v}) d"
    and "\<And>w. w \<in> set (db_invoices d) \<Longrightarrow> iv_id w = iv_id v \<Longrightarrow> opened_for env d w ch payment"
  shows "evidence_ok env d'" "evidence_grows d d'" "j \<noteq> iv_id v \<Longrightarrow> same_bitcoin d d' j"
    "x \<in> set (db_timely d') \<Longrightarrow> x \<notin> set (db_timely d) \<Longrightarrow> x = (iv_id v, h) \<and> matched \<and> t \<le> iv_payment_deadline v"
proof -
  from store_observation_Inr [OF assms(1)] obtain new d1 d2 d3 d4 where
    w: "write_observation new d = Inr d1" "bo_invoice new = Some (iv_id v)" "bo_active new"
    and d2: "d2 = (if matched \<and> t \<le> iv_payment_deadline v then add_timely (iv_id v) h d1 else d1)"
    and f: "d3 = d2 \<or> record_first_match (iv_id v) t h d2 = Inr d3"
    and p: "project_payments env (iv_id v) ch payment t tn d3 = Inr d4"
    and d': "d' = project_provider_v2_sample (iv_id v) oid t (bi_present input) n matched d4" by blast
  have obs: "obs_ok d" using assms(2) by (simp add: evidence_ok_on_def)
  note wl = write_observation_laws [OF w(1) obs w(2,3)]
  from wl(4) obtain y where d1: "d1 = d\<lparr>db_observations := y\<rparr>" by blast
  have e1: "evidence_ok_on env (UNIV - {iv_id v}) d1"
    using observations_evidence [OF assms(2) wl(1), of "iv_id v"] wl(3) by (simp add: d1)
  have e2: "evidence_ok_on env (UNIV - {iv_id v}) d2"
    using e1 observations_evidence [OF e1, of d2 "iv_id v"] add_timely_laws
    by (auto simp: d2 evidence_ok_on_def)
  have s2: "same_bitcoin d d2 j" if "j \<noteq> iv_id v" for j
    using wl(3) [of j] add_timely_laws(6) [of j "iv_id v" d1 h] that by (auto simp: d2 same_bitcoin_def)
  have e3: "evidence_ok_on env (UNIV - {iv_id v}) d3" using f e2 record_first_match_laws(1) by metis
  have s3: "same_bitcoin d2 d3 j" for j
    using f record_first_match_laws(3) by (auto simp: same_bitcoin_def)
  have g: "evidence_grows d d1" "evidence_grows d1 d2" "evidence_grows d2 d3"
    using wl(2) add_timely_laws(5) f record_first_match_laws(2) by (auto simp: d2)
  have opened: "opened_for env d3 u ch payment" if "u \<in> set (db_invoices d3)" "iv_id u = iv_id v" for u
  proof -
    have c: "db_creators d3 = db_creators d" "db_invoices d2 = db_invoices d"
      using f record_first_match_laws(4) add_timely_laws by (auto simp: d2 d1)
    from that f record_first_match_laws(6) obtain u0 where "u0 \<in> set (db_invoices d)" "iv_id u = iv_id u0"
      "iv_creator u = iv_creator u0" "iv_payment_record_envelope u = iv_payment_record_envelope u0"
      unfolding c(2) [symmetric] by metis
    with assms(3) [of u0] that(2) show ?thesis by (simp add: opened_for_def find_creator_def c)
  qed
  from project_payments_evidence [OF p e3 opened] have e4: "evidence_ok env d4" "evidence_grows d3 d4" by blast+
  note s4 = project_payments_frame [OF p]
  from project_provider_v2_sample_shape obtain a b where
    sh: "d' = d4\<lparr>db_current_samples := a, db_first_evidence := b\<rparr>" "set (db_first_evidence d4) \<subseteq> set b"
    unfolding d' by blast
  show "evidence_ok env d'" using e4(1) by (simp add: sh evidence_ok_samples)
  have "evidence_grows d4 d'" using sh same_evidence_refl by (auto simp: evidence_grows_def simp del: same_evidence_refl)
  then show "evidence_grows d d'" using g e4(2) evidence_grows_trans by blast
  show "same_bitcoin d d' j" if "j \<noteq> iv_id v"
    using s2 [OF that] s3 [of j] s4(1) [of j] by (simp add: same_bitcoin_def sh active_observation_def)
  show "x = (iv_id v, h) \<and> matched \<and> t \<le> iv_payment_deadline v" if "x \<in> set (db_timely d')" "x \<notin> set (db_timely d)"
  proof -
    have "db_timely d' = db_timely d2" using f record_first_match_laws(5) s4(2) by (auto simp: sh)
    with that show ?thesis using add_timely_laws(8) [of "iv_id v" h d1] by (auto simp: d2 d1 split: if_splits)
  qed
qed

text \<open>A final payment: seen, at least six confirmations, at least the required amount.\<close>

definition final_output :: "('r, 'd) env \<Rightarrow> lookup_hash \<Rightarrow> u64 \<Rightarrow> observation_row \<Rightarrow> bool" where
  "final_output env creator_hash required row \<longleftrightarrow> bo_present row \<and> 6 \<le> bo_confirmations row \<and>
     (\<exists>found. decrypt_observation env creator_hash row = Inr found \<and> required \<le> bo1_observed_sats found)"

abbreviation address_hash_of :: "('r, 'd) env \<Rightarrow> observation_input \<Rightarrow> lookup_hash" where
  "address_hash_of env input \<equiv> bitcoin_address_lookup_hash (env_crypto env) (bi_address input)"

abbreviation outpoint_hash_of :: "('r, 'd) env \<Rightarrow> observation_input \<Rightarrow> lookup_hash" where
  "outpoint_hash_of env input \<equiv> bitcoin_outpoint_lookup_hash (env_crypto env) (canonical_text (bi_outpoint input))"

lemma apply_observation_Inr:
  assumes "apply_bitcoin_observation_in_tx env fresh tn input t d = Inr (b, d')"
  obtains (kept) "d' = d"
  | (stored) v c n ch payment destination d1 oid where
    "invoice_by_address d (address_hash_of env input) = Some (v, c)"
    "lookup_hash_from_storage CorruptOrMissing (cr_lookup_hash c) = Inr ch"
    "open_payment_record env ch (iv_id v) (iv_payment_record_envelope v) = Inr payment"
    "pr_bitcoin payment = Some destination"
    "\<And>row. active_observation d (iv_id v) = Some row \<Longrightarrow> \<not> is_provider_v2 d (iv_id v) \<Longrightarrow>
       \<not> final_output env ch (pd_required_amount destination) row"
    "d1 = d \<or> d1 = retire_active (iv_id v) d"
    "store_observation env fresh tn input t n v ch payment (is_provider_v2 d (iv_id v))
       (bi_present input \<and> pd_required_amount destination \<le> bi_sats input) oid (outpoint_hash_of env input) d1 = Inr d'"
proof (cases "invoice_by_address d (address_hash_of env input)")
  case None
  then show ?thesis using assms kept by (auto simp: apply_bitcoin_observation_in_tx_def Let_def)
next
  case (Some vc)
  obtain v c where vc: "vc = (v, c)" by fastforce
  let ?h = "outpoint_hash_of env input" and ?existing = "observation_by_outpoint d (outpoint_hash_of env input)"
  from assms Some obtain n ch payment destination active where
    o: "lookup_hash_from_storage CorruptOrMissing (cr_lookup_hash c) = Inr ch"
    "open_payment_record env ch (iv_id v) (iv_payment_record_envelope v) = Inr payment"
    "pr_bitcoin payment = Some destination"
    and active: "(case active_observation d (iv_id v) of
                        None \<Rightarrow> Inr None
                      | Some row \<Rightarrow> bindr (decrypt_observation env ch row) (\<lambda>found. Inr (Some (row, found)))) = Inr active"
    and rest: "(if \<not> is_provider_v2 d (iv_id v) \<and> (case active of
                    Some (row, found) \<Rightarrow> bo_present row \<and> 6 \<le> bo_confirmations row \<and> pd_required_amount destination \<le> bo1_observed_sats found
                  | None \<Rightarrow> False)
               then Inr (True, d)
               else if \<not> bi_present input \<and> (case active of Some (row, found) \<Rightarrow> bo1_outpoint found \<noteq> canonical_text (bi_outpoint input) | None \<Rightarrow> False)
               then Inr (True, d)
               else
                 let action = observation_action_of (is_provider_v2 d (iv_id v)) active (canonical_text (bi_outpoint input)) (bi_sats input) (bi_confirmations input)
                       (bi_present input) (pd_required_amount destination)
                 in if action = Some Ignore then Inr (True, d)
                    else if active = None \<and> \<not> bi_present input then Inr (True, d)
                    else
                      let d1 = (if action = Some Replace then retire_active (iv_id v) d else d);
                          observation_id = (case ?existing of Some row \<Rightarrow> bo_id row | None \<Rightarrow> of_id fresh)
                      in bindr (store_observation env fresh tn input t n v ch
                            payment (is_provider_v2 d (iv_id v)) (bi_present input \<and> pd_required_amount destination \<le> bi_sats input) observation_id ?h d1) (\<lambda>d2.
                         Inr (True, d2))) = Inr (b, d')"
    unfolding apply_bitcoin_observation_in_tx_def Let_def vc by (simp only: option.case prod.case bindr_eq_Inr ok_or_eq_Inr) blast
  have not_final: "\<not> final_output env ch (pd_required_amount destination) row"
    if "active_observation d (iv_id v) = Some row"
      "\<not> (case active of Some (row, found) \<Rightarrow> bo_present row \<and> 6 \<le> bo_confirmations row \<and> pd_required_amount destination \<le> bo1_observed_sats found
                  | None \<Rightarrow> False)" for row
    using active that by (auto simp: final_output_def)
  show ?thesis
  proof (cases "d' = d")
    case True
    then show ?thesis by (rule kept)
  next
    case False
    let ?d1 = "if observation_action_of (is_provider_v2 d (iv_id v)) active (canonical_text (bi_outpoint input)) (bi_sats input) (bi_confirmations input)
                       (bi_present input) (pd_required_amount destination) = Some Replace then retire_active (iv_id v) d else d"
    let ?oid = "case ?existing of Some row \<Rightarrow> bo_id row | None \<Rightarrow> of_id fresh"
    from False rest have s: "store_observation env fresh tn input t n v ch payment (is_provider_v2 d (iv_id v))
       (bi_present input \<and> pd_required_amount destination \<le> bi_sats input) ?oid ?h ?d1 = Inr d'"
      and nf: "is_provider_v2 d (iv_id v) \<or> \<not> (case active of Some (row, found) \<Rightarrow> bo_present row \<and> 6 \<le> bo_confirmations row \<and> pd_required_amount destination \<le> bo1_observed_sats found
                  | None \<Rightarrow> False)"
      unfolding Let_def by (auto split: if_splits)
    show ?thesis
    proof (rule stored [OF _ o _ _ s])
      show "invoice_by_address d (address_hash_of env input) = Some (v, c)" using Some vc by simp
      show "\<not> final_output env ch (pd_required_amount destination) row"
        if "active_observation d (iv_id v) = Some row" "\<not> is_provider_v2 d (iv_id v)" for row
        using not_final [OF that(1)] nf that(2) by blast
      show "?d1 = d \<or> ?d1 = retire_active (iv_id v) d" by simp
    qed
  qed
qed

section \<open>The contract of every operation on evidence\<close>

definition same_invoice :: "invoice_row \<Rightarrow> invoice_row \<Rightarrow> bool" where
  "same_invoice v v' \<longleftrightarrow> iv_id v' = iv_id v \<and> iv_creator v' = iv_creator v \<and>
     iv_payment_record_envelope v' = iv_payment_record_envelope v \<and> iv_payment_deadline v' = iv_payment_deadline v"

definition invoices_stay :: "db \<Rightarrow> db \<Rightarrow> bool" where
  "invoices_stay d d' \<longleftrightarrow> db_creators d' = db_creators d \<and> db_provider_v2 d' = db_provider_v2 d \<and>
     list_all2 same_invoice (db_invoices d) (db_invoices d')"

lemma invoices_stay_refl [simp]: "invoices_stay d d"
  by (simp add: invoices_stay_def list_all2_same same_invoice_def)

lemma invoices_stay_trans: "invoices_stay a b \<Longrightarrow> invoices_stay b c \<Longrightarrow> invoices_stay a c"
proof -
  have "same_invoice u v \<Longrightarrow> same_invoice v w \<Longrightarrow> same_invoice u w" for u v w by (simp add: same_invoice_def)
  then have chain: "list_all2 same_invoice xs ys \<Longrightarrow> list_all2 same_invoice ys zs \<Longrightarrow> list_all2 same_invoice xs zs" for xs ys zs
    by (rule list_all2_trans)
  assume "invoices_stay a b" "invoices_stay b c"
  then show "invoices_stay a c" unfolding invoices_stay_def using chain [of "db_invoices a" "db_invoices b"] by simp
qed

lemma invoices_stay_member:
  "invoices_stay d d' \<Longrightarrow> v \<in> set (db_invoices d) \<Longrightarrow> \<exists>v' \<in> set (db_invoices d'). same_invoice v v'"
  unfolding invoices_stay_def list_all2_conv_all_nth by (metis in_set_conv_nth)

text \<open>A regular invoice whose active output is final.\<close>

definition settled ::
  "('r, 'd) env \<Rightarrow> db \<Rightarrow> invoice_row \<Rightarrow> lookup_hash \<Rightarrow> payment_record \<Rightarrow> payment_destination \<Rightarrow> observation_row \<Rightarrow> bool" where
  "settled env d v ch payment destination row \<longleftrightarrow> v \<in> set (db_invoices d) \<and> \<not> is_provider_v2 d (iv_id v) \<and>
     opened_for env d v ch payment \<and> pr_bitcoin payment = Some destination \<and>
     active_observation d (iv_id v) = Some row \<and> final_output env ch (pd_required_amount destination) row"

locale evidence_operation =
  fixes env :: "('r, 'd) env" and op :: "db \<Rightarrow> db \<Rightarrow> bool"
  assumes keeps_ok: "op d d' \<Longrightarrow> evidence_ok env d \<Longrightarrow> evidence_ok env d'"
    and grows: "op d d' \<Longrightarrow> evidence_ok env d \<Longrightarrow> evidence_grows d d'"
    and stay: "op d d' \<Longrightarrow> evidence_ok env d \<Longrightarrow> invoices_stay d d'"
    and keeps_final: "op d d' \<Longrightarrow> evidence_ok env d \<Longrightarrow> settled env d v ch payment destination row \<Longrightarrow>
      active_observation d' (iv_id v) = Some row"
begin

lemma keeps_settled:
  assumes "op d d'" "evidence_ok env d" "settled env d v ch payment destination row"
  obtains v' where "settled env d' v' ch payment destination row" "iv_id v' = iv_id v"
proof -
  have v: "v \<in> set (db_invoices d)" using assms(3) by (simp add: settled_def)
  note s = stay [OF assms(1,2)]
  from invoices_stay_member [OF s v] obtain v' where v': "v' \<in> set (db_invoices d')" "same_invoice v v'" by blast
  have "settled env d' v' ch payment destination row"
    using assms(3) v' s keeps_final [OF assms]
    by (simp add: settled_def same_invoice_def invoices_stay_def is_provider_v2_def opened_for_def find_creator_def)
  with v'(2) that show ?thesis by (simp add: same_invoice_def)
qed

lemma run_ok:
  assumes "op\<^sup>*\<^sup>* d d'" "evidence_ok env d"
  shows "evidence_ok env d' \<and> evidence_grows d d'"
  using assms
proof (induction rule: rtranclp_induct)
  case (step y z)
  then show ?case using keeps_ok grows evidence_grows_trans by blast
qed simp

lemma run_settled:
  assumes "op\<^sup>*\<^sup>* d d'" "evidence_ok env d" "settled env d v ch payment destination row"
  shows "\<exists>v'. settled env d' v' ch payment destination row \<and> iv_id v' = iv_id v"
  using assms(1)
proof (induction rule: rtranclp_induct)
  case base
  then show ?case using assms(3) by blast
next
  case (step y z)
  then obtain w where w: "settled env y w ch payment destination row" "iv_id w = iv_id v" by blast
  from keeps_settled [OF step(2) _ w(1)] run_ok [OF step(1) assms(2)] w(2) show ?case by metis
qed

end

section \<open>Each operation meets the contract\<close>

lemma same_invoice_map: "(\<And>v. same_invoice v (f v)) \<Longrightarrow> list_all2 same_invoice xs (update_where p f xs)"
  by (auto simp: update_where_def list_all2_map2 list_all2_same same_invoice_def)

lemma update_invoices_stay:
  "update_invoices p f d = Inr d' \<Longrightarrow> (\<And>v. same_invoice v (f v)) \<Longrightarrow> invoices_stay d d'"
  by (auto simp: update_invoices_Inr invoices_stay_def intro: same_invoice_map)

lemma project_payments_stay:
  assumes "project_payments env i ch payment now tn d = Inr d'"
  shows "invoices_stay d d'"
  by (rule project_payments_Inr [OF assms])
    (simp add: invoices_stay_def, intro same_invoice_map, simp add: same_invoice_def project_columns_def)

text \<open>An operation that only moves the instants of expiry.\<close>

lemma expiry_laws:
  assumes "update_invoices p (\<lambda>v. v\<lparr>iv_expired_at := x\<rparr>) d = Inr d'"
  shows "evidence_ok env d \<Longrightarrow> evidence_ok env d'" "evidence_grows d d'" "invoices_stay d d'"
    "active_observation d' i = active_observation d i"
proof -
  show "evidence_ok env d \<Longrightarrow> evidence_ok env d'"
    unfolding evidence_ok_def by (rule update_invoices_evidence [OF assms]) simp_all
  show "evidence_grows d d'" by (rule update_invoices_grows [OF assms])
  show "invoices_stay d d'" by (rule update_invoices_stay [OF assms]) (simp add: same_invoice_def)
  show "active_observation d' i = active_observation d i"
    using assms by (simp add: update_invoices_Inr active_observation_def)
qed

definition observes :: "('r, 'd) env \<Rightarrow> db \<Rightarrow> db \<Rightarrow> bool" where
  "observes env d d' \<longleftrightarrow> (\<exists>fresh tn input t b. apply_bitcoin_observation_in_tx env fresh tn input t d = Inr (b, d'))"

definition expires :: "('r, 'd) env \<Rightarrow> db \<Rightarrow> db \<Rightarrow> bool" where
  "expires env d d' \<longleftrightarrow> (\<exists>address t. expire_unmatched_at_deadline_in_tx env address t d = Inr d')"

definition plans :: "('r, 'd) env \<Rightarrow> db \<Rightarrow> db \<Rightarrow> bool" where
  "plans env d d' \<longleftrightarrow> (\<exists>t. snd (observation_targets_with_time env t d) = d')"

text \<open>Token evidence is applied to an invoice read from the store, with the record opened for it.\<close>

definition reads_invoice :: "('r, 'd) env \<Rightarrow> db \<Rightarrow> usdt_invoice \<Rightarrow> lookup_hash \<Rightarrow> payment_record \<Rightarrow> bool" where
  "reads_invoice env d row ch payment \<longleftrightarrow> usdt_invoice_of d (ui_id row) = Some row \<and>
     lookup_hash_from_storage CorruptOrMissing (ui_creator_hash row) = Inr ch \<and>
     open_payment_record env ch (ui_id row) (ui_record_envelope row) = Inr payment"

definition credits :: "('r, 'd) env \<Rightarrow> db \<Rightarrow> db \<Rightarrow> bool" where
  "credits env d d' \<longleftrightarrow> (\<exists>fresh now tn row ch payment transfer b. reads_invoice env d row ch payment \<and>
     apply_usdt_transfer env fresh now tn row ch payment transfer d = Inr (b, d'))"

definition withdraws :: "('r, 'd) env \<Rightarrow> db \<Rightarrow> db \<Rightarrow> bool" where
  "withdraws env d d' \<longleftrightarrow> (\<exists>now tn row ch payment h. reads_invoice env d row ch payment \<and>
     clear_usdt_transfer env now tn row ch payment h d = Inr d')"

lemma reads_invoice_opened:
  assumes "reads_invoice env d row ch payment" "distinct (map iv_id (db_invoices d))"
    and "v \<in> set (db_invoices d)" "iv_id v = ui_id row"
  shows "opened_for env d v ch payment"
proof -
  from assms(1) obtain w c where w: "find_invoice d (ui_id row) = Some w" "find_creator d (iv_creator w) = Some c"
    "row = \<lparr>ui_id = iv_id w, ui_creator_hash = cr_lookup_hash c, ui_record_envelope = iv_payment_record_envelope w,
      ui_invoice_envelope = iv_invoice_envelope w, ui_created_at = iv_created_at w, ui_deadline = iv_payment_deadline w\<rparr>"
    unfolding reads_invoice_def usdt_invoice_of_def by (auto split: option.splits)
  have "w \<in> set (db_invoices d)" "iv_id w = ui_id row" using w(1) by (auto simp: find_invoice_def find_Some_iff)
  then have "w = v" using assms(2-4) by (auto simp: distinct_map inj_on_def)
  then show ?thesis using assms(1) w(2,3) by (auto simp: reads_invoice_def opened_for_def)
qed

lemma invoice_by_address_Some:
  "invoice_by_address d h = Some (v, c) \<Longrightarrow>
     v \<in> set (db_invoices d) \<and> iv_address_hash v = Some h \<and> find_creator d (iv_creator v) = Some c"
  by (auto simp: invoice_by_address_def find_Some_iff split: option.splits)

lemma store_observation_stay:
  assumes "store_observation env fresh tn input t n v ch payment provider matched oid h d = Inr d'" "obs_ok d"
  shows "invoices_stay d d'"
proof -
  from store_observation_Inr [OF assms(1)] obtain new d1 d2 d3 d4 where
    w: "write_observation new d = Inr d1" "bo_invoice new = Some (iv_id v)" "bo_active new"
    and d2: "d2 = (if matched \<and> t \<le> iv_payment_deadline v then add_timely (iv_id v) h d1 else d1)"
    and f: "d3 = d2 \<or> record_first_match (iv_id v) t h d2 = Inr d3"
    and p: "project_payments env (iv_id v) ch payment t tn d3 = Inr d4"
    and d': "d' = project_provider_v2_sample (iv_id v) oid t (bi_present input) n matched d4" by blast
  from write_observation_laws(4) [OF w(1) assms(2) w(2,3)] have "invoices_stay d d1"
    by (auto simp: invoices_stay_def list_all2_same same_invoice_def)
  moreover have "invoices_stay d1 d2"
    by (simp add: d2 add_timely_def invoices_stay_def list_all2_same same_invoice_def)
  moreover have "invoices_stay d2 d3"
    using f update_invoices_stay [OF _ , of _ _ d2 d3] by (auto simp: record_first_match_def same_invoice_def)
  moreover have "invoices_stay d3 d4" by (rule project_payments_stay [OF p])
  moreover from project_provider_v2_sample_shape obtain a b where
    "d' = d4\<lparr>db_current_samples := a, db_first_evidence := b\<rparr>" unfolding d' by blast
  then have "invoices_stay d4 d'" by (simp add: invoices_stay_def list_all2_same same_invoice_def)
  ultimately show ?thesis using invoices_stay_trans by blast
qed

lemma observes_laws:
  assumes "apply_bitcoin_observation_in_tx env fresh tn input t d = Inr (b, d')" "evidence_ok env d"
  shows "evidence_ok env d'" "evidence_grows d d'" "invoices_stay d d'"
    "settled env d v ch payment destination row \<Longrightarrow> active_observation d' (iv_id v) = Some row"
    "x \<in> set (db_timely d') \<Longrightarrow> x \<notin> set (db_timely d) \<Longrightarrow>
      \<exists>v \<in> set (db_invoices d). \<exists>ch payment destination. iv_address_hash v = Some (address_hash_of env input) \<and>
        opened_for env d v ch payment \<and> pr_bitcoin payment = Some destination \<and> x = (iv_id v, outpoint_hash_of env input) \<and>
        bi_present input \<and> pd_required_amount destination \<le> bi_sats input \<and> t \<le> iv_payment_deadline v"
proof -
  have "evidence_ok env d' \<and> evidence_grows d d' \<and> invoices_stay d d' \<and>
    (settled env d v ch payment destination row \<longrightarrow> active_observation d' (iv_id v) = Some row) \<and>
    (x \<in> set (db_timely d') \<longrightarrow> x \<notin> set (db_timely d) \<longrightarrow>
      (\<exists>v \<in> set (db_invoices d). \<exists>ch payment destination. iv_address_hash v = Some (address_hash_of env input) \<and>
        opened_for env d v ch payment \<and> pr_bitcoin payment = Some destination \<and> x = (iv_id v, outpoint_hash_of env input) \<and>
        bi_present input \<and> pd_required_amount destination \<le> bi_sats input \<and> t \<le> iv_payment_deadline v))"
    using assms(1)
  proof (cases rule: apply_observation_Inr)
    case kept
    then show ?thesis using assms(2) by (simp add: settled_def)
  next
    case (stored w c n ch' payment' destination' d1 oid)
    let ?i = "iv_id w"
    from invoice_by_address_Some [OF stored(1)] have w: "w \<in> set (db_invoices d)"
      "iv_address_hash w = Some (address_hash_of env input)" "find_creator d (iv_creator w) = Some c" by blast+
    have ids: "distinct (map iv_id (db_invoices d))" and obs: "obs_ok d"
      using assms(2) by (simp_all add: evidence_ok_def evidence_ok_on_def)
    have opened: "opened_for env d w ch' payment'" using w(3) stored(2,3) by (auto simp: opened_for_def)
    have d1: "obs_ok d1" "evidence_grows d d1" "\<And>j. j \<noteq> ?i \<Longrightarrow> same_bitcoin d d1 j" "db_invoices d1 = db_invoices d"
      "db_creators d1 = db_creators d" "db_timely d1 = db_timely d" "invoices_stay d d1" "db_usdt d1 = db_usdt d"
      using stored(6) obs retire_active_laws [OF obs]
      by (auto simp: same_bitcoin_def retire_active_def invoices_stay_def list_all2_same same_invoice_def)
    have ok1: "evidence_ok_on env (UNIV - {?i}) d1"
      using observations_evidence [of env UNIV d d1 ?i] assms(2) d1 by (simp add: evidence_ok_def)
    have only: "u = w" if "u \<in> set (db_invoices d)" "iv_id u = ?i" for u
      using ids that w(1) by (auto simp: distinct_map inj_on_def)
    have op1: "opened_for env d1 u ch' payment'" if "u \<in> set (db_invoices d1)" "iv_id u = ?i" for u
      using only [of u] that opened d1(4,5) by (simp add: opened_for_def find_creator_def)
    note laws = store_observation_laws [OF stored(7) ok1 op1]
    have "active_observation d' (iv_id v) = Some row" if s: "settled env d v ch payment destination row"
    proof (cases "iv_id v = ?i")
      case True
      then have "v = w" using only s by (simp add: settled_def)
      with s opened have "ch = ch'" "payment = payment'" by (auto simp: settled_def opened_for_def)
      with s stored(4,5) \<open>v = w\<close> have False by (auto simp: settled_def)
      then show ?thesis ..
    next
      case False
      then show ?thesis using s laws(3) [OF _ _ False] d1(3) [OF False]
        by (simp add: settled_def same_bitcoin_def)
    qed
    moreover have "invoices_stay d1 d'" by (rule store_observation_stay [OF stored(7) d1(1)])
    then have "invoices_stay d d'" using d1(7) invoices_stay_trans by blast
    moreover have "evidence_grows d d'" using laws(2) d1(2) evidence_grows_trans by blast
    moreover have "x \<in> set (db_timely d') \<longrightarrow> x \<notin> set (db_timely d) \<longrightarrow> x = (?i, outpoint_hash_of env input) \<and>
        (bi_present input \<and> pd_required_amount destination' \<le> bi_sats input) \<and> t \<le> iv_payment_deadline w"
      using laws(4) d1(6) by simp
    ultimately show ?thesis using laws(1) w(1,2) opened stored(4) by blast
  qed
  then show "evidence_ok env d'" "evidence_grows d d'" "invoices_stay d d'"
    "settled env d v ch payment destination row \<Longrightarrow> active_observation d' (iv_id v) = Some row"
    "x \<in> set (db_timely d') \<Longrightarrow> x \<notin> set (db_timely d) \<Longrightarrow>
      \<exists>v \<in> set (db_invoices d). \<exists>ch payment destination. iv_address_hash v = Some (address_hash_of env input) \<and>
        opened_for env d v ch payment \<and> pr_bitcoin payment = Some destination \<and> x = (iv_id v, outpoint_hash_of env input) \<and>
        bi_present input \<and> pd_required_amount destination \<le> bi_sats input \<and> t \<le> iv_payment_deadline v"
    by blast+
qed

interpretation observing: evidence_operation env "observes env" for env :: "('r, 'd) env"
proof
  fix d d' :: db and v ch payment destination row
  assume "observes env d d'"
  then obtain fresh tn input t b where a: "apply_bitcoin_observation_in_tx env fresh tn input t d = Inr (b, d')"
    by (auto simp: observes_def)
  show "invoices_stay d d'" if "evidence_ok env d" using observes_laws [OF a that] by blast
  show "evidence_ok env d'" if "evidence_ok env d" using observes_laws [OF a that] by blast
  show "evidence_grows d d'" if "evidence_ok env d" using observes_laws [OF a that] by blast
  show "active_observation d' (iv_id v) = Some row" if "evidence_ok env d" "settled env d v ch payment destination row"
    using observes_laws(4) [OF a that] .
qed

interpretation expiring: evidence_operation env "expires env" for env :: "('r, 'd) env"
proof
  fix d d' :: db and v ch payment destination row
  assume "expires env d d'"
  then obtain address t where "expire_unmatched_at_deadline_in_tx env address t d = Inr d'" by (auto simp: expires_def)
  note laws = expiry_laws [OF this [unfolded expire_unmatched_at_deadline_in_tx_def]]
  show "evidence_ok env d'" if "evidence_ok env d" using laws(1) that .
  show "evidence_grows d d'" "invoices_stay d d'" by (rule laws)+
  show "active_observation d' (iv_id v) = Some row" if "settled env d v ch payment destination row"
    using that laws(4) by (simp add: settled_def)
qed

lemma expire_overdue_laws:
  assumes "expire_overdue t d = Inr d'"
  shows "evidence_ok env d \<Longrightarrow> evidence_ok env d'" "evidence_grows d d'" "invoices_stay d d'"
    "active_observation d' i = active_observation d i"
proof -
  from assms obtain d1 where d1:
    "update_invoices (\<lambda>v. iv_expired_at v = None \<and> iv_first_matched_at v = None \<and>
       iv_payment_deadline v < t \<and> \<not> is_provider_v2 d (iv_id v)) (\<lambda>v. v\<lparr>iv_expired_at := Some t\<rparr>) d = Inr d1"
    "update_invoices (\<lambda>v. iv_expired_at v = None \<and> iv_payment_deadline v < t \<and>
         is_provider_v2 d1 (iv_id v) \<and> \<not> list_ex (\<lambda>s. sr_invoice s = iv_id v) (db_first_evidence d1))
       (\<lambda>v. v\<lparr>iv_expired_at := Some t\<rparr>) d1 = Inr d'"
    unfolding expire_overdue_def bindr_eq_Inr by blast
  note l1 = expiry_laws [OF d1(1)] and l2 = expiry_laws [OF d1(2)]
  show "evidence_ok env d \<Longrightarrow> evidence_ok env d'" using l1(1) l2(1) by blast
  show "evidence_grows d d'" using l1(2) l2(2) evidence_grows_trans by blast
  show "invoices_stay d d'" using l1(3) l2(3) invoices_stay_trans by blast
  show "active_observation d' i = active_observation d i" using l1(4) l2(4) by simp
qed

interpretation planning: evidence_operation env "plans env" for env :: "('r, 'd) env"
proof
  fix d d' :: db and v ch payment destination row
  assume "plans env d d'"
  then obtain t where t: "snd (observation_targets_with_time env t d) = d'" by (auto simp: plans_def)
  then have p: "d' = d \<or> expire_overdue t d = Inr d'"
    by (cases "expire_overdue t d") (auto simp: observation_targets_with_time_def Let_def)
  show "evidence_ok env d'" if "evidence_ok env d" using p that expire_overdue_laws(1) by blast
  show "evidence_grows d d'" using p expire_overdue_laws(2) by auto
  show "invoices_stay d d'" using p expire_overdue_laws(3) by auto
  show "active_observation d' (iv_id v) = Some row" if "settled env d v ch payment destination row"
    using that p expire_overdue_laws(4) by (auto simp: settled_def)
qed

lemma evidence_ok_receipts:
  assumes "evidence_ok_on env J d" "distinct (map uo_transfer_hash u)"
  shows "evidence_ok_on env J (d\<lparr>db_usdt := u\<rparr>)"
proof -
  have "bitcoin_payment env (d\<lparr>db_usdt := u\<rparr>) i = bitcoin_payment env d i" for i
    by (rule bitcoin_payment_frame) (simp add: same_bitcoin_def active_observation_def)
  then have "projected env (d\<lparr>db_usdt := u\<rparr>) v = projected env d v" for v
    by (simp add: projected_def find_creator_def)
  moreover have "obs_ok (d\<lparr>db_usdt := u\<rparr>) = obs_ok d" by (simp add: obs_ok_def one_active_def)
  ultimately show ?thesis using assms by (simp add: evidence_ok_on_def)
qed

text \<open>Changing receipts that are not final, then rebuilding the columns of their invoice.\<close>

lemma receipt_laws:
  assumes "evidence_ok env d" "reads_invoice env d row ch payment" "distinct (map uo_transfer_hash u)"
    and "\<And>o'. o' \<in> set (db_usdt d) \<Longrightarrow> uo_finalized o' \<Longrightarrow> o' \<in> set u"
    and "project_payments env (ui_id row) ch payment now tn (d\<lparr>db_usdt := u\<rparr>) = Inr d'"
  shows "evidence_ok env d'" "evidence_grows d d'" "invoices_stay d d'" "active_observation d' i = active_observation d i"
proof -
  have ids: "distinct (map iv_id (db_invoices d))" using assms(1) by (simp add: evidence_ok_def evidence_ok_on_def)
  have "evidence_ok_on env (UNIV - {ui_id row}) (d\<lparr>db_usdt := u\<rparr>)"
    using evidence_ok_receipts [of env UNIV d u] assms(1,3) by (simp add: evidence_ok_def evidence_ok_on_def)
  moreover have "opened_for env (d\<lparr>db_usdt := u\<rparr>) v ch payment" if "v \<in> set (db_invoices (d\<lparr>db_usdt := u\<rparr>))" "iv_id v = ui_id row" for v
    using reads_invoice_opened [OF assms(2) ids] that by (simp add: opened_for_def find_creator_def)
  ultimately have laws: "evidence_ok env d'" "evidence_grows (d\<lparr>db_usdt := u\<rparr>) d'"
    using project_payments_evidence [OF assms(5)] by blast+
  show "evidence_ok env d'" by (rule laws)
  have "evidence_grows d (d\<lparr>db_usdt := u\<rparr>)"
    using assms(4) same_evidence_refl by (auto simp: evidence_grows_def simp del: same_evidence_refl)
  then show "evidence_grows d d'" using laws(2) evidence_grows_trans by blast
  have "invoices_stay d (d\<lparr>db_usdt := u\<rparr>)" by (simp add: invoices_stay_def list_all2_same same_invoice_def)
  then show "invoices_stay d d'" using project_payments_stay [OF assms(5)] invoices_stay_trans by blast
  show "active_observation d' i = active_observation d i"
    using project_payments_frame(6) [OF assms(5)] by (simp add: active_observation_def)
qed

lemma write_receipt_Inr:
  assumes "write_receipt new d = Inr (owner, d')" "distinct (map uo_transfer_hash (db_usdt d))"
    and "\<And>o'. find (\<lambda>o'. uo_transfer_hash o' = uo_transfer_hash new) (db_usdt d) = Some o' \<Longrightarrow> \<not> uo_finalized o'"
  obtains u where "d' = d\<lparr>db_usdt := u\<rparr>" "distinct (map uo_transfer_hash u)"
    "\<And>o'. o' \<in> set (db_usdt d) \<Longrightarrow> uo_finalized o' \<Longrightarrow> o' \<in> set u"
proof (cases "find (\<lambda>o'. uo_transfer_hash o' = uo_transfer_hash new) (db_usdt d)")
  case None
  then have "uo_transfer_hash new \<notin> uo_transfer_hash ` set (db_usdt d)" by (auto simp: find_None_iff)
  with None assms(1,2) that [of "db_usdt d @ [new]"] show ?thesis
    by (simp add: write_receipt_def split: if_splits)
next
  case (Some old)
  let ?p = "\<lambda>o'. uo_transfer_hash o' = uo_transfer_hash new"
  let ?f = "\<lambda>o'. if uo_invoice o' = uo_invoice new
              then o'\<lparr>uo_envelope := uo_envelope new, uo_confirmations := uo_confirmations new, uo_present := True,
                uo_finalized := uo_finalized new, uo_checked_at := uo_checked_at new\<rparr> else o'"
  have old: "old \<in> set (db_usdt d)" "?p old" using Some by (auto simp: find_Some_iff)
  have kept: "o' \<in> set (update_where ?p ?f (db_usdt d))" if "o' \<in> set (db_usdt d)" "uo_finalized o'" for o'
  proof -
    have "\<not> ?p o'"
    proof
      assume "?p o'"
      then have "o' = old" using assms(2) old that(1) by (auto simp: distinct_map inj_on_def)
      then show False using assms(3) [OF Some] that(2) by simp
    qed
    then show ?thesis using that(1) by (auto simp: set_update_where)
  qed
  have "map uo_transfer_hash (update_where ?p ?f (db_usdt d)) = map uo_transfer_hash (db_usdt d)"
    by (rule map_update_where) simp
  then have dist: "distinct (map uo_transfer_hash (update_where ?p ?f (db_usdt d)))" using assms(2) by (simp only:)
  have "d' = d\<lparr>db_usdt := update_where ?p ?f (db_usdt d)\<rparr>" using assms(1) Some by (simp add: write_receipt_def)
  from that [OF this dist kept] show ?thesis .
qed

interpretation crediting: evidence_operation env "credits env" for env :: "('r, 'd) env"
proof
  fix d d' :: db and v ch payment destination row
  assume "credits env d d'"
  then obtain fresh now tn r ch' payment' transfer b where r: "reads_invoice env d r ch' payment'"
    and a: "apply_usdt_transfer env fresh now tn r ch' payment' transfer d = Inr (b, d')"
    by (auto simp: credits_def)
  have laws: "evidence_ok env d' \<and> evidence_grows d d' \<and> invoices_stay d d' \<and> active_observation d' i = active_observation d i"
    if ok: "evidence_ok env d" for i
  proof (cases "d' = d")
    case False
    let ?h = "usdt_transfer_lookup_hash (env_crypto env) (vt_identity transfer)"
    from a False obtain new owner d1 where new: "write_receipt new d = Inr (owner, d1)" "uo_transfer_hash new = ?h"
      "project_payments env (ui_id r) ch' payment' now tn d1 = Inr d'"
      "\<And>o'. find (\<lambda>o'. uo_transfer_hash o' = ?h) (db_usdt d) = Some o' \<Longrightarrow> \<not> uo_finalized o'"
      unfolding apply_usdt_transfer_def Let_def by (auto split: if_splits option.splits)
    have dist: "distinct (map uo_transfer_hash (db_usdt d))" using ok by (simp add: evidence_ok_def evidence_ok_on_def)
    from write_receipt_Inr [OF new(1) dist] new(2,4) obtain u where u: "d1 = d\<lparr>db_usdt := u\<rparr>"
      "distinct (map uo_transfer_hash u)" "\<And>o'. o' \<in> set (db_usdt d) \<Longrightarrow> uo_finalized o' \<Longrightarrow> o' \<in> set u" by metis
    from receipt_laws [OF ok r u(2,3) new(3) [unfolded u(1)]] show ?thesis by blast
  qed (use ok in simp)
  show "evidence_ok env d'" if "evidence_ok env d" using laws that by blast
  show "evidence_grows d d'" if "evidence_ok env d" using laws that by blast
  show "invoices_stay d d'" if "evidence_ok env d" using laws that by blast
  show "active_observation d' (iv_id v) = Some row" if "evidence_ok env d" "settled env d v ch payment destination row"
    using laws that by (simp add: settled_def)
qed

interpretation withdrawing: evidence_operation env "withdraws env" for env :: "('r, 'd) env"
proof
  fix d d' :: db and v ch payment destination row
  assume "withdraws env d d'"
  then obtain now tn r ch' payment' h where r: "reads_invoice env d r ch' payment'"
    and a: "clear_usdt_transfer env now tn r ch' payment' h d = Inr d'"
    by (auto simp: withdraws_def)
  let ?u = "update_where (\<lambda>o'. uo_invoice o' = Some (ui_id r) \<and> uo_transfer_hash o' = h \<and> \<not> uo_finalized o')
          (\<lambda>o'. o'\<lparr>uo_present := False, uo_confirmations := 0, uo_checked_at := tn\<rparr>) (db_usdt d)"
  have kept: "o' \<in> set ?u" if "o' \<in> set (db_usdt d)" "uo_finalized o'" for o'
    using that by (auto simp: set_update_where)
  have laws: "evidence_ok env d' \<and> evidence_grows d d' \<and> invoices_stay d d' \<and> active_observation d' i = active_observation d i"
    if ok: "evidence_ok env d" for i
  proof -
    have "distinct (map uo_transfer_hash ?u)"
      using ok by (simp add: evidence_ok_def evidence_ok_on_def map_update_where)
    from receipt_laws [OF ok r this kept a [unfolded clear_usdt_transfer_def]] show ?thesis by blast
  qed
  show "evidence_ok env d'" if "evidence_ok env d" using laws that by blast
  show "evidence_grows d d'" if "evidence_ok env d" using laws that by blast
  show "invoices_stay d d'" if "evidence_ok env d" using laws that by blast
  show "active_observation d' (iv_id v) = Some row" if "evidence_ok env d" "settled env d v ch payment destination row"
    using laws that by (simp add: settled_def)
qed

section \<open>Runs of the observers\<close>

inductive evidence_step :: "('r, 'd) env \<Rightarrow> db \<Rightarrow> db \<Rightarrow> bool" for env where
  observe: "apply_bitcoin_observation_in_tx env fresh tn input t d = Inr (b, d') \<Longrightarrow> evidence_step env d d'"
| expire: "expire_unmatched_at_deadline_in_tx env address t d = Inr d' \<Longrightarrow> evidence_step env d d'"
| plan: "observation_targets_with_time env t d = (r, d') \<Longrightarrow> evidence_step env d d'"
| credit: "reads_invoice env d row ch payment \<Longrightarrow>
    apply_usdt_transfer env fresh now tn row ch payment transfer d = Inr (b, d') \<Longrightarrow> evidence_step env d d'"
| withdraw: "reads_invoice env d row ch payment \<Longrightarrow>
    clear_usdt_transfer env now tn row ch payment h d = Inr d' \<Longrightarrow> evidence_step env d d'"

lemma evidence_step_cases:
  "evidence_step env d d' \<Longrightarrow> observes env d d' \<or> expires env d d' \<or> plans env d d' \<or> credits env d d' \<or> withdraws env d d'"
  by (cases rule: evidence_step.cases)
    (auto simp: observes_def expires_def plans_def credits_def withdraws_def dest: arg_cong [of _ _ snd])

interpretation evidence: evidence_operation env "evidence_step env" for env :: "('r, 'd) env"
proof
  fix d d' :: db and v ch payment destination row
  assume step: "evidence_step env d d'" and ok: "evidence_ok env d"
  note cs = evidence_step_cases [OF step]
  show "evidence_ok env d'"
    using cs observing.keeps_ok [OF _ ok] expiring.keeps_ok [OF _ ok] planning.keeps_ok [OF _ ok]
      crediting.keeps_ok [OF _ ok] withdrawing.keeps_ok [OF _ ok] by blast
  show "evidence_grows d d'"
    using cs observing.grows [OF _ ok] expiring.grows [OF _ ok] planning.grows [OF _ ok]
      crediting.grows [OF _ ok] withdrawing.grows [OF _ ok] by blast
  show "invoices_stay d d'"
    using cs observing.stay [OF _ ok] expiring.stay [OF _ ok] planning.stay [OF _ ok]
      crediting.stay [OF _ ok] withdrawing.stay [OF _ ok] by blast
  show "active_observation d' (iv_id v) = Some row" if "settled env d v ch payment destination row"
    using cs observing.keeps_final [OF _ ok that] expiring.keeps_final [OF _ ok that] planning.keeps_final [OF _ ok that]
      crediting.keeps_final [OF _ ok that] withdrawing.keeps_final [OF _ ok that] by blast
qed

text \<open>The two entry points of the Bitcoin observer are runs of these steps.\<close>

lemma apply_with_time_run:
  assumes "apply_bitcoin_observation_with_time env fresh tn input t d = Inr (b, d')"
  shows "(evidence_step env)\<^sup>*\<^sup>* d d'"
proof -
  from assms obtain d1 where "apply_bitcoin_observation_in_tx env fresh tn input t d = Inr (b, d1)"
    "expire_unmatched_at_deadline_in_tx env (bi_address input) t d1 = Inr d'"
    unfolding apply_bitcoin_observation_with_time_def by auto
  from evidence_step.observe [OF this(1)] evidence_step.expire [OF this(2)] show ?thesis by (meson r_into_rtranclp rtranclp_trans)
qed

lemma apply_batch_run:
  assumes "apply_bitcoin_observation_batch_with_time env tn observations t d = Inr (n, d')"
  shows "(evidence_step env)\<^sup>*\<^sup>* d d'"
proof (cases "observations = []")
  case True
  then show ?thesis using assms by (simp add: apply_bitcoin_observation_batch_with_time_def)
next
  case False
  let ?apply = "\<lambda>(applied, d) (fresh, input).
          bindr (apply_bitcoin_observation_in_tx env fresh tn input t d) (\<lambda>(found, d1).
          Inr (if found then applied + 1 else applied, d1))"
  let ?expire = "\<lambda>d (fresh, input). expire_unmatched_at_deadline_in_tx env (bi_address input) t d"
  from assms False obtain d1 where d1: "foldr_res ?apply (0, d) observations = Inr (n, d1)"
    "foldr_res ?expire d1 observations = Inr d'"
    unfolding apply_bitcoin_observation_batch_with_time_def by auto
  have "(evidence_step env)\<^sup>*\<^sup>* d (snd s)" if "foldr_res ?apply (m, d) obs = Inr s" for m obs s
    using that
  proof (induction obs arbitrary: m d)
    case (Cons o' obs)
    obtain fresh input where o': "o' = (fresh, input)" by fastforce
    from Cons.prems obtain b d2 where d2: "apply_bitcoin_observation_in_tx env fresh tn input t d = Inr (b, d2)"
      "foldr_res ?apply (if b then m + 1 else m, d2) obs = Inr s" by (auto simp: o')
    from evidence_step.observe [OF d2(1)] Cons.IH [OF d2(2)] show ?case by (rule converse_rtranclp_into_rtranclp)
  qed auto
  from this [OF d1(1)] have first: "(evidence_step env)\<^sup>*\<^sup>* d d1" by simp
  have "(evidence_step env)\<^sup>*\<^sup>* d1 s" if "foldr_res ?expire d1 obs = Inr s" for obs s
    using that
  proof (induction obs arbitrary: d1)
    case (Cons o' obs)
    obtain fresh input where o': "o' = (fresh, input)" by fastforce
    from Cons.prems obtain d2 where d2: "expire_unmatched_at_deadline_in_tx env (bi_address input) t d1 = Inr d2"
      "foldr_res ?expire d2 obs = Inr s" by (auto simp: o')
    from evidence_step.expire [OF d2(1)] Cons.IH [OF d2(2)] show ?case by (rule converse_rtranclp_into_rtranclp)
  qed simp
  from this [OF d1(2)] first show ?thesis by (meson rtranclp_trans)
qed

text \<open>C24: Whatever the Bitcoin and token observers do, the Bitcoin columns of every invoice stay what its one active
  output gives, no output and no transfer is recorded twice, and evidence is never rewritten: recorded outputs,
  on-time marks, first threshold evidence and final token receipts all stay.\<close>

theorem evidence_consistent:
  assumes "(evidence_step env)\<^sup>*\<^sup>* d d'" and "evidence_ok env d"
  shows "evidence_ok env d' \<and> evidence_grows d d'"
  by (rule evidence.run_ok [OF assms])

text \<open>C25: Once a regular invoice is paid by an output with six confirmations and the required amount, no later
  observation changes that: the same output stays active and the invoice reads as confirmed, with six confirmations
  and the amount matched.\<close>

theorem settled_payment_immutable:
  assumes "(evidence_step env)\<^sup>*\<^sup>* d d'" and "evidence_ok env d" and "settled env d v ch payment destination row"
  shows "active_observation d' (iv_id v) = Some row \<and>
    (\<exists>v' \<in> set (db_invoices d'). iv_id v' = iv_id v \<and> iv_payment_status v' = ''confirmed'' \<and>
       iv_confirmation_count v' = 6 \<and> iv_amount_matched v')"
proof -
  from evidence.run_settled [OF assms] obtain v' where v': "settled env d' v' ch payment destination row" "iv_id v' = iv_id v"
    by blast
  have "evidence_ok env d'" using evidence.run_ok [OF assms(1,2)] by blast
  with v'(1) have "projected env d' v'" by (simp add: settled_def evidence_ok_def evidence_ok_on_def)
  moreover from v'(1) obtain found where found: "decrypt_observation env ch row = Inr found"
    "pd_required_amount destination \<le> bo1_observed_sats found" "bo_present row" "6 \<le> bo_confirmations row"
    by (auto simp: settled_def final_output_def)
  moreover obtain bitcoin where "bitcoin_payment env d' (iv_id v') ch payment = Inr bitcoin"
    "op_present bitcoin" "op_confirmations bitcoin = 6" "op_matched bitcoin"
    using v'(1) found by (simp add: bitcoin_payment_def settled_def Let_def)
  ultimately have "iv_payment_status v' = ''confirmed'' \<and> iv_confirmation_count v' = 6 \<and> iv_amount_matched v'"
    using v'(1) by (auto simp: projected_def settled_def opened_for_def projected_status_def)
  with v' show ?thesis by (auto simp: settled_def)
qed

text \<open>Where an on-time mark comes from.\<close>

definition paid_on_time_by :: "('r, 'd) env \<Rightarrow> db \<Rightarrow> observation_input \<Rightarrow> int \<Rightarrow> uuid \<times> lookup_hash \<Rightarrow> bool" where
  "paid_on_time_by env d input t x \<longleftrightarrow> (\<exists>v \<in> set (db_invoices d). \<exists>ch payment destination.
     iv_address_hash v = Some (address_hash_of env input) \<and> opened_for env d v ch payment \<and>
     pr_bitcoin payment = Some destination \<and> x = (iv_id v, outpoint_hash_of env input) \<and>
     bi_present input \<and> pd_required_amount destination \<le> bi_sats input \<and> t \<le> iv_payment_deadline v)"

lemma step_timely:
  assumes "evidence_step env d d'" "evidence_ok env d" "x \<in> set (db_timely d')" "x \<notin> set (db_timely d)"
  shows "\<exists>fresh tn input t b. apply_bitcoin_observation_in_tx env fresh tn input t d = Inr (b, d') \<and> paid_on_time_by env d input t x"
  using assms(1)
proof (cases rule: evidence_step.cases)
  case (observe fresh tn input t b)
  from observes_laws(5) [OF observe assms(2-4)] observe show ?thesis unfolding paid_on_time_by_def by blast
next
  case (expire address t)
  then show ?thesis using assms(3,4) by (auto simp: expire_unmatched_at_deadline_in_tx_def update_invoices_Inr)
next
  case (plan t r)
  then have "d' = d \<or> expire_overdue t d = Inr d'"
    by (cases "expire_overdue t d") (auto simp: observation_targets_with_time_def Let_def)
  then show ?thesis using assms(3,4) by (auto simp: expire_overdue_def update_invoices_Inr)
next
  case (credit row ch payment fresh now tn transfer b)
  have "db_timely d' = db_timely d"
  proof (cases "d' = d")
    case False
    from credit(2) False obtain new owner d1 where w: "write_receipt new d = Inr (owner, d1)"
      "project_payments env (ui_id row) ch payment now tn d1 = Inr d'"
      unfolding apply_usdt_transfer_def Let_def by (auto split: if_splits option.splits)
    show ?thesis
      using w(1) project_payments_frame(2) [OF w(2)] by (auto simp: write_receipt_def split: option.splits if_splits)
  qed simp
  then show ?thesis using assms(3,4) by simp
next
  case (withdraw row ch payment now tn h)
  then show ?thesis
    using assms(3,4) project_payments_frame(2) [OF withdraw(2) [unfolded clear_usdt_transfer_def]] by simp
qed

text \<open>C26: An invoice counts as paid on time by an output only when, at some point of the run, an observation showed that
  output present at the invoice's own address with at least the required amount, at an instant no later than the
  invoice's deadline.\<close>

theorem on_time_mark_traced:
  assumes "(evidence_step env)\<^sup>*\<^sup>* d d'" and "evidence_ok env d" and "x \<in> set (db_timely d')" and "x \<notin> set (db_timely d)"
  shows "\<exists>d1 d2 fresh tn input t b. (evidence_step env)\<^sup>*\<^sup>* d d1 \<and>
    apply_bitcoin_observation_in_tx env fresh tn input t d1 = Inr (b, d2) \<and> (evidence_step env)\<^sup>*\<^sup>* d2 d' \<and>
    paid_on_time_by env d1 input t x"
  using assms(1,3)
proof (induction rule: rtranclp_induct)
  case base
  then show ?case using assms(4) by simp
next
  case (step y z)
  show ?case
  proof (cases "x \<in> set (db_timely y)")
    case True
    from step.IH [OF True] step(2) show ?thesis by (meson rtranclp.rtrancl_into_rtrancl)
  next
    case False
    have "evidence_ok env y" using evidence.run_ok [OF step(1) assms(2)] by blast
    from step_timely [OF step(2) this step(4) False] step(1) show ?thesis by blast
  qed
qed

section \<open>A concrete payment\<close>

definition paid_outpoint :: bitcoin_outpoint where
  "paid_outpoint = \<lparr>txid = replicate 64 (CHR ''a''), vout = 0\<rparr>"

definition paid_observation :: bitcoin_observation_v1 where
  "paid_observation = \<lparr>bo1_version = 1, bo1_outpoint = canonical_text paid_outpoint, bo1_observed_sats = 500\<rparr>"

definition evidence_env :: "(string, string) env" where
  "evidence_env = example_env\<lparr>observation_to_bytes := (\<lambda>x. if x = paid_observation then Some ''o'' else None),
     observation_from_bytes := (\<lambda>_. Some paid_observation), outpoint_from_str := (\<lambda>_. Some paid_outpoint)\<rparr>"

definition paid_input :: observation_input where
  "paid_input = \<lparr>bi_address = ''bc1q'', bi_outpoint = paid_outpoint, bi_sats = 500, bi_confirmations = 6, bi_present = True\<rparr>"

definition payable_invoice :: "string \<Rightarrow> invoice_row" where
  "payable_invoice envelope = example_invoice\<lparr>iv_payment_status := ''undetected'', iv_payment_record_envelope := envelope,
     iv_address_hash := Some (address_hash_of evidence_env paid_input)\<rparr>"

definition payable_db :: "string \<Rightarrow> db" where
  "payable_db envelope = example_db\<lparr>db_invoices := [payable_invoice envelope]\<rparr>"

definition paid_row :: "string \<Rightarrow> observation_row" where
  "paid_row envelope = \<lparr>bo_id = 21, bo_invoice = Some 12, bo_preparation = None, bo_envelope = envelope,
     bo_outpoint_hash = outpoint_hash_of evidence_env paid_input, bo_confirmations = 6, bo_present = True,
     bo_active = True, bo_first_observed_at = 5\<rparr>"

definition paid_invoice :: "string \<Rightarrow> invoice_row" where
  "paid_invoice envelope = (payable_invoice envelope)\<lparr>iv_payment_status := ''confirmed'', iv_confirmation_count := 6,
     iv_amount_matched := True, iv_first_matched_at := Some 5,
     iv_first_matched_outpoint := Some (outpoint_hash_of evidence_env paid_input)\<rparr>"

definition paid_db :: "string \<Rightarrow> string \<Rightarrow> db" where
  "paid_db envelope observation = (payable_db envelope)\<lparr>db_invoices := [paid_invoice envelope],
     db_observations := [paid_row observation], db_timely := [(12, outpoint_hash_of evidence_env paid_input)],
     db_buyer_contacts := [\<lparr>bc_invoice = 12, bc_creator = 1, bc_reader_hash = ''r'', bc_next_attempt_at = 0, bc_completed_at = None\<rparr>]\<rparr>"

abbreviation paid_creator :: lookup_hash where
  "paid_creator \<equiv> hash_of example_env ''creator''"

lemma evidence_env_fields [simp]:
  "env_crypto evidence_env = example_crypto" "record_from_bytes evidence_env bytes = Some example_record"
  "observation_from_bytes evidence_env bytes = Some paid_observation" "outpoint_from_str evidence_env s = Some paid_outpoint"
  "observation_to_bytes evidence_env paid_observation = Some ''o''"
  by (simp_all add: evidence_env_def) (simp add: example_env_def)

lemma paid_observation_fields [simp]:
  "bo1_version paid_observation = 1" "bo1_outpoint paid_observation = canonical_text paid_outpoint"
  "bo1_observed_sats paid_observation = 500"
  by (simp_all add: paid_observation_def)

lemma paid_input_fields [simp]:
  "bi_address paid_input = ''bc1q''" "bi_outpoint paid_input = paid_outpoint" "bi_sats paid_input = 500"
  "bi_confirmations paid_input = 6" "bi_present paid_input"
  by (simp_all add: paid_input_def)

lemma evidence_seal:
  assumes "length nonce = nonce_length"
  obtains e where "seal_column evidence_env nonce ctx (Some bytes) = Inr e" "open_column evidence_env ctx e = Inr bytes"
proof -
  have "seal_column evidence_env nonce ctx (Some bytes) = seal_column example_env nonce ctx (Some bytes)"
    by (simp add: seal_column_def)
  with example_seal obtain e where e: "seal_column evidence_env nonce ctx (Some bytes) = Inr e" by metis
  have "aead_correct (prims (env_crypto evidence_env))" using example_env_ok(1) by simp
  from open_sealed_column [OF this assms e] that [OF e] show ?thesis by blast
qed

lemma paid_creator_hash: "lookup_hash_from_storage CorruptOrMissing paid_creator = Inr paid_creator"
  using example_hash_length by (simp add: lookup_hash_from_storage_def)

lemma payable_creator:
  "find_creator (payable_db e) 1 = Some \<lparr>cr_id = 1, cr_lookup_hash = paid_creator, cr_next_child_index = 0,
     cr_account_generation = 0\<rparr>"
  by (simp add: find_creator_def payable_db_def example_db_def)

lemma payable_ok: "evidence_ok evidence_env (payable_db e)"
proof -
  have "bitcoin_payment evidence_env (payable_db e) i ch p = Inr no_payment" for i ch p
    by (simp add: bitcoin_payment_def active_observation_def payable_db_def example_db_def split: option.split)
  then have "projected evidence_env (payable_db e) (payable_invoice e)"
    by (auto simp: projected_def payable_invoice_def example_invoice_def) (simp_all add: no_payment_def projected_status_def)
  then show ?thesis
    by (simp add: evidence_ok_def evidence_ok_on_def obs_ok_def one_active_def) (simp add: payable_db_def example_db_def)
qed

lemma paid_row_opens:
  assumes "open_column evidence_env (ctx_bitcoin_observation_for_invoice paid_creator 21 12) observation = Inr bytes"
  shows "decrypt_observation evidence_env paid_creator (paid_row observation) = Inr paid_observation"
  using assms
  by (simp add: decrypt_observation_def paid_row_def open_observation_def parse_canonical_bitcoin_outpoint_def
      not_is_err_iff [symmetric] is_err_def)

lemma paid_store:
  assumes "seal_column evidence_env nonce (ctx_bitcoin_observation_for_invoice paid_creator 21 12) (Some ''o'') = Inr observation"
    "open_column evidence_env (ctx_bitcoin_observation_for_invoice paid_creator 21 12) observation = Inr ''o''"
  shows "store_observation evidence_env \<lparr>of_id = 21, of_nonce = nonce\<rparr> 0 paid_input 5 6 (payable_invoice e) paid_creator
    example_record False True 21 (outpoint_hash_of evidence_env paid_input) (payable_db e) = Inr (paid_db e observation)"
proof -
  let ?h = "outpoint_hash_of evidence_env paid_input"
  let ?d1 = "(payable_db e)\<lparr>db_observations := [paid_row observation]\<rparr>"
  let ?d2 = "?d1\<lparr>db_timely := [(12, ?h)]\<rparr>"
  let ?v3 = "(payable_invoice e)\<lparr>iv_first_matched_at := Some 5, iv_first_matched_outpoint := Some ?h\<rparr>"
  let ?d3 = "?d2\<lparr>db_invoices := [?v3]\<rparr>"
  have v: "iv_id (payable_invoice e) = 12" "iv_payment_deadline (payable_invoice e) = 2000000000"
    by (simp_all add: payable_invoice_def example_invoice_def)
  have written: "write_observation (paid_row observation) (payable_db e) = Inr ?d1"
    by (simp add: write_observation_def observation_by_outpoint_def payable_db_def example_db_def)
  have row: "\<lparr>bo_id = 21, bo_invoice = Some 12, bo_preparation = None, bo_envelope = observation,
      bo_outpoint_hash = ?h, bo_confirmations = 6, bo_present = True, bo_active = True, bo_first_observed_at = 5\<rparr> =
      paid_row observation" by (simp add: paid_row_def)
  have timely: "add_timely 12 ?h ?d1 = ?d2" by (simp add: add_timely_def payable_db_def example_db_def)
  have first: "record_first_match 12 5 ?h ?d2 = Inr ?d3"
    by (simp add: record_first_match_def update_invoices_def payable_db_def payable_invoice_def example_invoice_def
        invoice_checks_def coalesce_def)
  have bitcoin: "bitcoin_payment evidence_env ?d3 12 paid_creator example_record =
      Inr \<lparr>op_present = True, op_matched = True, op_timely = True, op_confirmations = 6, op_finalized = False,
        op_received_at = None\<rparr>"
    using paid_row_opens [OF assms(2)]
    by (simp add: bitcoin_payment_def active_observation_def example_record_def Let_def) (simp add: paid_row_def)
  have invoice: "usdt_invoice_of ?d3 12 \<noteq> None"
    by (simp add: usdt_invoice_of_def find_invoice_def find_creator_def payable_invoice_def example_invoice_def payable_db_def
        example_db_def)
  have project: "project_payments evidence_env 12 paid_creator example_record 5 0 ?d3 = Inr (paid_db e observation)"
    using invoice bitcoin
    by (auto simp: project_payments_def update_invoices_def eligible_def project_columns_def Let_def
        example_record_def paid_db_def paid_invoice_def payable_invoice_def example_invoice_def payable_db_def
        add_buyer_contact_def find_invoice_def example_db_def invoice_checks_def least_def projected_status_def
        simp del: bindr_eq_Inr)
  have sample: "project_provider_v2_sample 12 21 5 True 6 True (paid_db e observation) = paid_db e observation"
    by (simp add: project_provider_v2_sample_def paid_db_def payable_db_def example_db_def)
  have sealed: "seal_column evidence_env nonce (ctx_bitcoin_observation_for_invoice paid_creator 21 12)
      (observation_to_bytes evidence_env \<lparr>bo1_version = 1, bo1_outpoint = canonical_text (bi_outpoint paid_input),
        bo1_observed_sats = bi_sats paid_input\<rparr>) = Inr observation"
    using assms(1) by (simp add: paid_observation_def [symmetric])
  have "5 \<le> (2000000000 :: int)" by simp
  then show ?thesis
    unfolding store_observation_def Let_def v observation_fresh.simps sealed bindr_simps eqTrueI [OF paid_input_fields(5)]
      row written timely
    by (simp only: if_True simp_thms timely first bindr_simps project sample)
qed

lemma paid_applied:
  assumes "open_payment_record evidence_env paid_creator 12 e = Inr example_record"
    and "seal_column evidence_env nonce (ctx_bitcoin_observation_for_invoice paid_creator 21 12) (Some ''o'') = Inr observation"
    and "open_column evidence_env (ctx_bitcoin_observation_for_invoice paid_creator 21 12) observation = Inr ''o''"
  shows "apply_bitcoin_observation_in_tx evidence_env \<lparr>of_id = 21, of_nonce = nonce\<rparr> 0 paid_input 5 (payable_db e) =
    Inr (True, paid_db e observation)"
proof -
  let ?c = "\<lparr>cr_id = 1, cr_lookup_hash = paid_creator, cr_next_child_index = 0, cr_account_generation = 0\<rparr>"
  have v: "iv_id (payable_invoice e) = 12" "iv_payment_record_envelope (payable_invoice e) = e"
    "iv_address_hash (payable_invoice e) = Some (address_hash_of evidence_env paid_input)"
    by (simp_all add: payable_invoice_def example_invoice_def)
  have found: "invoice_by_address (payable_db e) (address_hash_of evidence_env paid_input) = Some (payable_invoice e, ?c)"
    using payable_creator [of e] by (simp add: invoice_by_address_def payable_db_def payable_invoice_def example_invoice_def)
  have tables: "observation_by_outpoint (payable_db e) h = None" "active_observation (payable_db e) i = None"
    "is_provider_v2 (payable_db e) i = False" for h i
    by (simp_all add: observation_by_outpoint_def active_observation_def is_provider_v2_def payable_db_def example_db_def)
  have record': "pr_version example_record = 1" "pr_bitcoin example_record = Some \<lparr>pd_address = ''bc1q'', pd_required_amount = 500\<rparr>"
    by (simp_all add: example_record_def)
  have "i32_try_from 6 = Some 6" by (simp add: i32_try_from_def i32_max_def)
  then show ?thesis
    using assms(1) found paid_creator_hash paid_store [OF assms(2,3), of e]
    by (simp add: apply_bitcoin_observation_in_tx_def Let_def v tables record' check_existing_outpoint_def
        observation_action_of_def del: bindr_eq_Inr)
qed

lemma paid_example:
  obtains e nonce observation where
    "apply_bitcoin_observation_in_tx evidence_env \<lparr>of_id = 21, of_nonce = nonce\<rparr> 0 paid_input 5 (payable_db e) =
       Inr (True, paid_db e observation)"
    "settled evidence_env (paid_db e observation) (paid_invoice e) paid_creator example_record
       \<lparr>pd_address = ''bc1q'', pd_required_amount = 500\<rparr> (paid_row observation)"
proof -
  let ?n = "fr_outbox_nonce example_fresh"
  have n: "length ?n = nonce_length" using example_env_ok(4) by (simp add: nonces_ok_def)
  obtain e where e: "open_column evidence_env (ctx_invoice_payment_record paid_creator 12) e = Inr ''r''"
    using evidence_seal [OF n] by metis
  obtain observation where o: "seal_column evidence_env ?n (ctx_bitcoin_observation_for_invoice paid_creator 21 12) (Some ''o'') = Inr observation"
    "open_column evidence_env (ctx_bitcoin_observation_for_invoice paid_creator 21 12) observation = Inr ''o''"
    using evidence_seal [OF n] by metis
  have rec: "open_payment_record evidence_env paid_creator 12 e = Inr example_record"
    using e by (simp add: open_payment_record_def)
  have creator: "find_creator (paid_db e observation) 1 = find_creator (payable_db e) 1"
    by (simp add: find_creator_def paid_db_def)
  have v: "iv_id (paid_invoice e) = 12" "iv_creator (paid_invoice e) = 1" "iv_payment_record_envelope (paid_invoice e) = e"
    by (simp_all add: paid_invoice_def payable_invoice_def example_invoice_def)
  have opened: "opened_for evidence_env (paid_db e observation) (paid_invoice e) paid_creator example_record"
    using rec payable_creator [of e] paid_creator_hash by (simp add: opened_for_def v creator)
  have "final_output evidence_env paid_creator 500 (paid_row observation)"
    using paid_row_opens [OF o(2)] by (simp add: final_output_def) (simp add: paid_row_def)
  moreover have "active_observation (paid_db e observation) 12 = Some (paid_row observation)"
    by (simp add: active_observation_def paid_db_def) (simp add: paid_row_def)
  ultimately have "settled evidence_env (paid_db e observation) (paid_invoice e) paid_creator example_record
       \<lparr>pd_address = ''bc1q'', pd_required_amount = 500\<rparr> (paid_row observation)"
    using opened by (simp add: settled_def v) (simp add: paid_db_def is_provider_v2_def payable_db_def example_db_def example_record_def)
  with that [OF paid_applied [OF rec o]] show ?thesis .
qed

theorem strongest_request_aggregates_witness:
  "strongest_request (example_db\<lparr>db_lifecycles := [example_lifecycle]\<rparr>) 12 = Some ''proposed''"
  using strongest_request_aggregates [of "example_db\<lparr>db_lifecycles := [example_lifecycle]\<rparr>" "\<lambda>_. Proposed" 12]
  by (simp add: example_lifecycle_def new_lifecycle_def example_projection_def aggregate_lifecycle_def max_by_key_def
      state_text.parse_show request_state_parse_def)

theorem evidence_consistent_witness:
  "\<exists>e d'. (evidence_step evidence_env)\<^sup>*\<^sup>* (payable_db e) d' \<and> db_observations d' \<noteq> [] \<and> evidence_ok evidence_env d'"
proof (rule paid_example)
  fix e nonce observation
  assume "apply_bitcoin_observation_in_tx evidence_env \<lparr>of_id = 21, of_nonce = nonce\<rparr> 0 paid_input 5 (payable_db e) =
       Inr (True, paid_db e observation)"
  from evidence_step.observe [OF this] have run: "(evidence_step evidence_env)\<^sup>*\<^sup>* (payable_db e) (paid_db e observation)" by blast
  from evidence_consistent [OF run payable_ok] run show ?thesis
    by (intro exI [of _ e] exI [of _ "paid_db e observation"]) (simp add: paid_db_def)
qed

theorem settled_payment_immutable_witness:
  "\<exists>e observation d'. (evidence_step evidence_env)\<^sup>*\<^sup>* (paid_db e observation) d' \<and>
     snd (observation_targets_with_time evidence_env 3000000000 (paid_db e observation)) = d' \<and>
     active_observation d' 12 = Some (paid_row observation)"
proof (rule paid_example)
  fix e nonce observation
  let ?d = "paid_db e observation"
  assume a: "apply_bitcoin_observation_in_tx evidence_env \<lparr>of_id = 21, of_nonce = nonce\<rparr> 0 paid_input 5 (payable_db e) =
       Inr (True, ?d)"
    and s: "settled evidence_env ?d (paid_invoice e) paid_creator example_record
       \<lparr>pd_address = ''bc1q'', pd_required_amount = 500\<rparr> (paid_row observation)"
  have ok: "evidence_ok evidence_env ?d" by (rule observes_laws(1) [OF a payable_ok])
  have "(evidence_step evidence_env)\<^sup>*\<^sup>* ?d (snd (observation_targets_with_time evidence_env 3000000000 ?d))"
    using evidence_step.plan [OF prod.collapse [symmetric]] by blast
  from settled_payment_immutable [OF this ok s] this show ?thesis
    by (auto simp: paid_invoice_def payable_invoice_def example_invoice_def)
qed

theorem on_time_mark_traced_witness:
  "\<exists>e d'. (evidence_step evidence_env)\<^sup>*\<^sup>* (payable_db e) d' \<and>
     (\<exists>x \<in> set (db_timely d'). \<exists>d1 input t. paid_on_time_by evidence_env d1 input t x)"
proof (rule paid_example)
  fix e nonce observation
  assume "apply_bitcoin_observation_in_tx evidence_env \<lparr>of_id = 21, of_nonce = nonce\<rparr> 0 paid_input 5 (payable_db e) =
       Inr (True, paid_db e observation)"
  from evidence_step.observe [OF this] have run: "(evidence_step evidence_env)\<^sup>*\<^sup>* (payable_db e) (paid_db e observation)" by blast
  let ?x = "(12, outpoint_hash_of evidence_env paid_input)"
  have x: "?x \<in> set (db_timely (paid_db e observation))" "?x \<notin> set (db_timely (payable_db e))"
    by (simp_all add: paid_db_def payable_db_def example_db_def)
  from on_time_mark_traced [OF run payable_ok x] run x(1) show ?thesis by blast
qed

end
