(* ===== verification/Payment_Drains.thy ===== *)
theory Payment_Drains
  imports Evidence_Safety
begin

text \<open>
  The drain of a lock, \<open>PaymentDrainStore\<close> in \<open>paykit-server/src/persistence/payment_drains.rs\<close>: the
  creation of the frozen snapshot of all requests of one lock, its authenticated replay with the
  progress of the accepted invoices, and the cleanup that opens the next generation of the lock,
  with the triggers of the migrations that guard them.
\<close>

section \<open>Snapshots and the frozen sets\<close>

record drain_snapshot =
  ps_drain_id :: uuid
  ps_created_at :: int
  ps_accepted_count :: u64
  ps_terminal_count :: u64
  ps_cancellation_enqueued_count :: u64
  ps_completed :: bool
  ps_replayed :: bool

definition drain_count :: "int \<Rightarrow> (persistence_error, u64) res" where
  "drain_count n = (if n < 0 then Inl CorruptOrMissing else Inr (of_int n))"

definition snapshot_of :: "drain_row \<Rightarrow> bool \<Rightarrow> (persistence_error, drain_snapshot) res" where
  "snapshot_of row replayed =
     bindr (if dn_status row = ''active'' then Inr False
            else if dn_status row = ''completed'' then Inr True else Inl CorruptOrMissing) (\<lambda>completed.
     bindr (drain_count (dn_accepted row)) (\<lambda>accepted.
     if completed = (0 < accepted) then Inl CorruptOrMissing
     else
       bindr (drain_count (dn_terminal row)) (\<lambda>terminal.
       bindr (drain_count (dn_cancellations row)) (\<lambda>cancellations.
       Inr \<lparr>ps_drain_id = dn_id row, ps_created_at = dn_created_at row, ps_accepted_count = accepted,
            ps_terminal_count = terminal, ps_cancellation_enqueued_count = cancellations,
            ps_completed = completed, ps_replayed = replayed\<rparr>))))"

definition u64_prefixed :: "string \<Rightarrow> string" where
  "u64_prefixed value = be_bytes 8 (length value) @ value"

definition cancellation_rows_hash :: "crypto \<Rightarrow> (uuid \<times> string \<times> uuid \<times> string) list \<Rightarrow> lookup_hash" where
  "cancellation_rows_hash crypto rows =
     crypto_lookup_hash crypto
       (''payment-drain-cancellation-set-v1'' @ [char_of (0::nat)] @
        concat (map (\<lambda>(invoice, request, outbox, envelope).
          uuid_bytes invoice @ u64_prefixed request @ uuid_bytes outbox @ u64_prefixed envelope) rows))"

definition item_rows_hash :: "crypto \<Rightarrow> (uuid \<times> uuid \<times> string \<times> int \<times> string) list \<Rightarrow> lookup_hash" where
  "item_rows_hash crypto rows =
     crypto_lookup_hash crypto
       (''payment-drain-item-set-v1'' @ [char_of (0::nat)] @
        concat (map (\<lambda>(invoice, creator, lock_hash, generation, classification).
          uuid_bytes invoice @ uuid_bytes creator @ u64_prefixed lock_hash @ i64_be_bytes generation @
          u64_prefixed classification) rows))"

text \<open>
  The database orders text by its collation.  A collation is a total order that tells unequal
  texts apart; it is given by the sort key \<open>collate\<close> of each text.
\<close>

definition frozen_cancellations ::
  "(string \<Rightarrow> string) \<Rightarrow> db \<Rightarrow> uuid \<Rightarrow> (uuid \<times> string \<times> uuid \<times> string) list" where
  "frozen_cancellations collate d drain =
     sort_key (\<lambda>(invoice, request, outbox, envelope). (invoice, collate request, outbox))
       (concat (map (\<lambda>c. map (\<lambda>row. (dc_invoice c, dc_payment_request_id c, dc_outbox c, ob_intent_envelope row))
            (filter (\<lambda>row. ob_id row = dc_outbox c \<and> ob_drain_required row) (db_outbox d)))
          (filter (\<lambda>c. dc_drain c = drain) (db_drain_cancellations d))))"

definition drain_items :: "db \<Rightarrow> uuid \<Rightarrow> (drain_item_row \<times> invoice_row) list" where
  "drain_items d drain =
     concat (map (\<lambda>item. map (\<lambda>v. (item, v)) (filter (\<lambda>v. iv_id v = di_invoice item) (db_invoices d)))
       (filter (\<lambda>item. di_drain item = drain) (db_drain_items d)))"

definition frozen_items ::
  "(string \<Rightarrow> string) \<Rightarrow> db \<Rightarrow> uuid \<Rightarrow> (uuid \<times> uuid \<times> string \<times> int \<times> string) list" where
  "frozen_items collate d drain =
     sort_key (\<lambda>(invoice, _, _, _, classification). (invoice, collate classification))
       (map (\<lambda>(item, v). (di_invoice item, iv_creator v, iv_lock_hash v, iv_lock_generation v, di_classification item))
         (drain_items d drain))"

definition validate_frozen_sets ::
  "('r, 'd) env \<Rightarrow> (string \<Rightarrow> string) \<Rightarrow> db \<Rightarrow> drain_row \<Rightarrow> (persistence_error, unit) res" where
  "validate_frozen_sets env collate d drain =
     (let rows = frozen_cancellations collate d (dn_id drain) in
      bindr (if dn_cancellations drain < 0 then Inl CorruptOrMissing else Inr (nat (dn_cancellations drain)))
        (\<lambda>expected_count.
      if length rows \<noteq> expected_count \<or>
         cancellation_rows_hash (env_crypto env) rows \<noteq> dn_cancellation_set_hash drain
      then Inl CorruptOrMissing
      else if item_rows_hash (env_crypto env) (frozen_items collate d (dn_id drain)) \<noteq> dn_item_set_hash drain
      then Inl CorruptOrMissing
      else Inr ()))"

section \<open>Progress and replay\<close>

text \<open>An accepted invoice is done when it expired or was paid on time.\<close>

definition drained_invoice_done :: "db \<Rightarrow> invoice_row \<Rightarrow> bool" where
  "drained_invoice_done d v \<longleftrightarrow>
     iv_expired_at v \<noteq> None \<or>
     (case iv_first_matched_at v of None \<Rightarrow> False | Some t \<Rightarrow> t \<le> iv_payment_deadline v) \<or>
     list_ex (\<lambda>e. sr_invoice e = iv_id v) (db_first_evidence d)"

definition progress_accepted :: "db \<Rightarrow> uuid \<Rightarrow> int" where
  "progress_accepted d drain =
     int (length (filter (\<lambda>(item, v). di_classification item = ''accepted'' \<and> \<not> drained_invoice_done d v)
       (drain_items d drain)))"

definition progress_terminal :: "db \<Rightarrow> uuid \<Rightarrow> int" where
  "progress_terminal d drain =
     int (length (filter (\<lambda>(item, v).
         di_classification item \<in> {''rejected'', ''canceled'', ''proposal_expired''} \<or>
         di_classification item = ''accepted'' \<and> drained_invoice_done d v)
       (drain_items d drain)))"

definition cancellation_count :: "db \<Rightarrow> uuid \<Rightarrow> int" where
  "cancellation_count d drain =
     int (length (filter (\<lambda>c. dc_drain c = drain) (db_drain_cancellations d)))"

definition progressed :: "int \<Rightarrow> db \<Rightarrow> drain_row \<Rightarrow> drain_row" where
  "progressed now d row =
     (let accepted = progress_accepted d (dn_id row) in
      row\<lparr>dn_accepted := accepted, dn_terminal := progress_terminal d (dn_id row),
          dn_status := (if accepted = 0 then ''completed'' else ''active''),
          dn_completed_at := (if accepted = 0 then coalesce (dn_completed_at row) (Some now) else None)\<rparr>)"

definition progress_consistent :: "db \<Rightarrow> drain_row \<Rightarrow> bool" where
  "progress_consistent d row \<longleftrightarrow>
     cancellation_count d (dn_id row) = dn_cancellations row \<and>
     progress_accepted d (dn_id row) \<le> dn_accepted row \<and>
     dn_terminal row \<le> progress_terminal d (dn_id row) \<and>
     progress_terminal d (dn_id row) - dn_terminal row = dn_accepted row - progress_accepted d (dn_id row)"

definition current_drain :: "db \<Rightarrow> lookup_hash \<Rightarrow> lookup_hash \<Rightarrow> drain_row option" where
  "current_drain d creator_hash lock_hash =
     find (\<lambda>row. dn_lock_hash row = lock_hash \<and>
        list_ex (\<lambda>c. cr_id c = dn_creator row \<and> cr_lookup_hash c = creator_hash) (db_creators d) \<and>
        list_ex (\<lambda>g. lg_creator g = dn_creator row \<and> lg_lock_hash g = dn_lock_hash row \<and>
          lg_current_generation g = dn_generation row \<and> lg_active_drain g = Some (dn_id row)) (db_generations d))
       (db_drains d)"

text \<open>The lock resource enters as its creator and its canonical text.\<close>

definition exact_drain_replay ::
  "('r, 'd) env \<Rightarrow> (string \<Rightarrow> string) \<Rightarrow> string \<Rightarrow> string \<Rightarrow> int \<Rightarrow> db
     \<Rightarrow> (persistence_error, drain_snapshot option \<times> db) res" where
  "exact_drain_replay env collate creator lock_resource now d =
     (let creator_hash = crypto_lookup_hash (env_crypto env) creator;
          lock_hash = crypto_lookup_hash (env_crypto env) lock_resource in
      case current_drain d creator_hash lock_hash of
        None \<Rightarrow> Inr (None, d)
      | Some row \<Rightarrow>
          bindr (open_column env (ctx_payment_drain creator_hash (dn_id row)) (dn_envelope row)) (\<lambda>plaintext.
          if plaintext \<noteq> lock_resource then Inl StoreConflict
          else
            bindr (validate_frozen_sets env collate d row) (\<lambda>_.
            if \<not> progress_consistent d row then Inl CorruptOrMissing
            else
              bindr (snapshot_of (progressed now d row) True) (\<lambda>snapshot.
              Inr (Some snapshot, d\<lparr>db_drains :=
                update_where (\<lambda>r. dn_id r = dn_id row) (progressed now d) (db_drains d)\<rparr>)))))"

section \<open>Cleanup\<close>

text \<open>
  The trigger before the deletion of a drain, the deletion, and its cascade to the frozen rows.
\<close>

definition delete_drain :: "uuid \<Rightarrow> db \<Rightarrow> (persistence_error, db) res" where
  "delete_drain drain d =
     (case find (\<lambda>row. dn_id row = drain) (db_drains d) of
        None \<Rightarrow> Inr d
      | Some row \<Rightarrow>
          let boundary = (\<lambda>g. lg_creator g = dn_creator row \<and> lg_lock_hash g = dn_lock_hash row \<and>
                lg_active_drain g = Some (dn_id row)) in
          if dn_status row \<noteq> ''completed'' then Inl StoreUnavailable
          else if length (filter boundary (db_generations d)) \<noteq> 1 then Inl StoreUnavailable
          else Inr (d\<lparr>db_generations := update_where boundary
                 (\<lambda>g. g\<lparr>lg_current_generation := lg_current_generation g + 1, lg_active_drain := None\<rparr>)
                 (db_generations d),
               db_drains := filter (\<lambda>r. dn_id r \<noteq> drain) (db_drains d),
               db_drain_items := filter (\<lambda>i. di_drain i \<noteq> drain) (db_drain_items d),
               db_drain_cancellations := filter (\<lambda>c. dc_drain c \<noteq> drain) (db_drain_cancellations d)\<rparr>))"

definition has_drain :: "db \<Rightarrow> uuid \<Rightarrow> lookup_hash \<Rightarrow> bool" where
  "has_drain d creator lock_hash =
     list_ex (\<lambda>row. dn_creator row = creator \<and> dn_lock_hash row = lock_hash) (db_drains d)"

definition cleanup_receipt ::
  "db \<Rightarrow> uuid \<Rightarrow> lookup_hash \<Rightarrow> string \<Rightarrow> string option \<Rightarrow> (persistence_error, unit) res" where
  "cleanup_receipt d creator lock_hash cleanup_token last_token =
     (if has_drain d creator lock_hash then Inl CorruptOrMissing
      else bindr (ok_or last_token CorruptOrMissing) (\<lambda>receipt.
        guardr (receipt \<noteq> cleanup_token) StoreConflict))"

definition cleanup_ready ::
  "('r, 'd) env \<Rightarrow> (string \<Rightarrow> string) \<Rightarrow> lookup_hash \<Rightarrow> string \<Rightarrow> string \<Rightarrow> db \<Rightarrow> drain_row
     \<Rightarrow> (persistence_error, unit) res" where
  "cleanup_ready env collate creator_hash lock_resource cleanup_token d row =
     (if payment_drain_cleanup_token (env_crypto env) (dn_id row) \<noteq> cleanup_token then Inl StoreConflict
      else
        bindr (open_column env (ctx_payment_drain creator_hash (dn_id row)) (dn_envelope row)) (\<lambda>plaintext.
        if plaintext \<noteq> lock_resource then Inl CorruptOrMissing
        else
          bindr (validate_frozen_sets env collate d row) (\<lambda>_.
          if progress_accepted d (dn_id row) \<noteq> dn_accepted row
             \<or> progress_terminal d (dn_id row) \<noteq> dn_terminal row
             \<or> cancellation_count d (dn_id row) \<noteq> dn_cancellations row
             \<or> dn_status row \<noteq> (if progress_accepted d (dn_id row) = 0 then ''completed'' else ''active'')
          then Inl CorruptOrMissing
          else if progress_accepted d (dn_id row) \<noteq> 0 then Inl StoreConflict
          else bindr (snapshot_of row False) (\<lambda>validated. guardr (\<not> ps_completed validated) StoreConflict))))"

definition cleanup_completed ::
  "('r, 'd) env \<Rightarrow> (string \<Rightarrow> string) \<Rightarrow> string \<Rightarrow> string \<Rightarrow> string \<Rightarrow> db \<Rightarrow> (persistence_error, db) res" where
  "cleanup_completed env collate creator lock_resource cleanup_token d =
     (let creator_hash = crypto_lookup_hash (env_crypto env) creator;
          lock_hash = crypto_lookup_hash (env_crypto env) lock_resource in
      case find (\<lambda>c. cr_lookup_hash c = creator_hash) (db_creators d) of
        None \<Rightarrow> Inl StoreConflict
      | Some c \<Rightarrow>
          case find_generation d (cr_id c) lock_hash of
            None \<Rightarrow>
              if has_drain d (cr_id c) lock_hash \<or>
                 list_ex (\<lambda>v. iv_creator v = cr_id c \<and> iv_lock_hash v = lock_hash) (db_invoices d)
              then Inl CorruptOrMissing else Inl StoreConflict
          | Some g \<Rightarrow>
              case lg_active_drain g of
                None \<Rightarrow>
                  bindr (cleanup_receipt d (cr_id c) lock_hash cleanup_token (lg_last_cleanup_token g)) (\<lambda>_. Inr d)
              | Some drain \<Rightarrow>
                  bindr (ok_or (find (\<lambda>row. dn_id row = drain \<and> dn_creator row = cr_id c \<and>
                      dn_lock_hash row = lock_hash \<and> dn_generation row = lg_current_generation g) (db_drains d))
                    CorruptOrMissing) (\<lambda>row.
                  bindr (cleanup_ready env collate creator_hash lock_resource cleanup_token d row) (\<lambda>_.
                  delete_drain (dn_id row) (d\<lparr>db_generations := update_where
                    (\<lambda>g. lg_creator g = cr_id c \<and> lg_lock_hash g = lock_hash)
                    (\<lambda>g. g\<lparr>lg_last_cleanup_token := Some cleanup_token\<rparr>) (db_generations d)\<rparr>))))"

section \<open>The classification of the invoices\<close>

record drain_attempt =
  il_invoice :: uuid
  il_request_state :: "string option"
  il_terminal_fallback :: "string option"
  il_payment_request_id :: "string option"
  il_last_event_at :: "int option"

text \<open>The invoices of the drained generation, with their recorded requests on the left join.\<close>

definition generation_invoices :: "db \<Rightarrow> uuid \<Rightarrow> lookup_hash \<Rightarrow> int \<Rightarrow> invoice_row list" where
  "generation_invoices d creator lock_hash generation =
     filter (\<lambda>v. iv_creator v = creator \<and> iv_lock_hash v = lock_hash \<and> iv_lock_generation v = generation)
       (db_invoices d)"

definition attempt_rows :: "(string \<Rightarrow> string) \<Rightarrow> db \<Rightarrow> invoice_row \<Rightarrow> drain_attempt list" where
  "attempt_rows collate d v =
     (case filter (\<lambda>r. lr_invoice r = Some (iv_id v)) (db_lifecycles d) of
        [] \<Rightarrow> [\<lparr>il_invoice = iv_id v, il_request_state = None, il_terminal_fallback = terminal_fallback d (iv_id v),
               il_payment_request_id = None, il_last_event_at = None\<rparr>]
      | rows \<Rightarrow> map (\<lambda>r. \<lparr>il_invoice = iv_id v, il_request_state = Some (lr_request_state r),
               il_terminal_fallback = terminal_fallback d (iv_id v),
               il_payment_request_id = Some (lr_payment_request_id r),
               il_last_event_at = Some (lr_last_event_at r)\<rparr>)
             (sort_key (\<lambda>r. collate (lr_payment_request_id r)) rows))"

definition attempts_by_invoice :: "drain_attempt list \<Rightarrow> (uuid \<times> drain_attempt list) list" where
  "attempts_by_invoice rows =
     map (\<lambda>i. (i, filter (\<lambda>r. il_invoice r = i) rows)) (sort (remdups (map il_invoice rows)))"

definition parse_attempt ::
  "drain_attempt \<Rightarrow> (persistence_error, request_state \<times> string option \<times> int option) res" where
  "parse_attempt attempt =
     (case il_request_state attempt of
        Some text' \<Rightarrow>
          bindr (ok_or (request_state_parse text') CorruptOrMissing) (\<lambda>st.
          bindr (ok_or (il_payment_request_id attempt) CorruptOrMissing) (\<lambda>request.
          bindr (ok_or (il_last_event_at attempt) CorruptOrMissing) (\<lambda>at.
          Inr (st, Some request, Some at))))
      | None \<Rightarrow>
          bindr (ok_or (Option.bind (il_terminal_fallback attempt) request_state_parse) CorruptOrMissing)
            (\<lambda>st. Inr (st, None, None)))"

abbreviation accepted_state :: "request_state \<Rightarrow> bool" where
  "accepted_state st \<equiv> st \<in> {Accepted, ProofSubmitted, ActiveRecurring}"

definition last_event_rank :: "int option \<Rightarrow> bool \<times> int" where
  "last_event_rank at = (case at of None \<Rightarrow> (False, 0) | Some t \<Rightarrow> (True, t))"

definition classify ::
  "(request_state \<times> string option \<times> int option) list \<Rightarrow> (persistence_error, string) res" where
  "classify parsed =
     (if list_ex (\<lambda>(st, _). st = InvalidConflict) parsed then Inl StoreConflict
      else if list_ex (\<lambda>(st, _). st = RecoveryRequired) parsed then Inl StoreUnavailable
      else if list_ex (\<lambda>(st, _). accepted_state st) parsed then Inr ''accepted''
      else if filter (\<lambda>(st, _). st = Proposed) parsed = [] then
        bindr (ok_or (max_by_key (\<lambda>(_, _, at). last_event_rank at) parsed) CorruptOrMissing) (\<lambda>(terminal, _).
        case terminal of
          Rejected \<Rightarrow> Inr ''rejected''
        | Canceled \<Rightarrow> Inr ''canceled''
        | ProposalExpired \<Rightarrow> Inr ''proposal_expired''
        | _ \<Rightarrow> Inl CorruptOrMissing)
      else Inr ''cancellation_enqueued'')"

section \<open>Cancellations of the requests that are still proposed\<close>

record prepared_cancellation =
  pc_invoice :: uuid
  pc_payment_request_id :: string
  pc_outbox :: uuid
  pc_envelope :: string
  pc_insert :: bool

text \<open>
  Identifiers, nonces and the clock reading of one drain; each new cancellation draws the identifier
  and nonce of its request.
\<close>

record drain_fresh =
  df_drain_id :: uuid
  df_drain_nonce :: string
  df_cancellation :: "uuid \<Rightarrow> string \<Rightarrow> uuid \<times> string"
  df_now :: int

definition open_intent ::
  "('r, 'd) env \<Rightarrow> lookup_hash \<Rightarrow> uuid \<Rightarrow> string \<Rightarrow> (persistence_error, delivery_intent) res" where
  "open_intent env creator_hash outbox envelope =
     bindr (open_column env (ctx_outbox_semantic_intent creator_hash outbox) envelope) (decode_intent env)"

definition invoice_proposal ::
  "('r, 'd) env \<Rightarrow> db \<Rightarrow> uuid \<Rightarrow> lookup_hash \<Rightarrow> uuid \<Rightarrow> (persistence_error, delivery_intent) res" where
  "invoice_proposal env d creator creator_hash invoice =
     bindr (mapr (\<lambda>row. open_intent env creator_hash (ob_id row) (ob_intent_envelope row))
       (sort_key (\<lambda>row. (ob_created_at row, ob_id row))
         (filter (\<lambda>row. ob_creator row = creator \<and> ob_invoice row = Some invoice) (db_outbox d)))) (\<lambda>intents.
     case filter (\<lambda>intent. case intent_operation intent of PaymentRequestProposal _ \<Rightarrow> True | _ \<Rightarrow> False) intents of
       [proposal] \<Rightarrow> Inr proposal
     | _ \<Rightarrow> Inl CorruptOrMissing)"

definition existing_cancellation :: "db \<Rightarrow> uuid \<Rightarrow> uuid \<Rightarrow> string \<Rightarrow> outbox_row option" where
  "existing_cancellation d creator invoice request =
     find (\<lambda>row. ob_creator row = creator \<and> ob_invoice row = Some invoice \<and> ob_preparation row = None \<and>
        ob_intent_kind row = ''payment_request_cancellation'' \<and> ob_cancellation_target row = Some request)
       (db_outbox d)"

definition rotation_owned :: "db \<Rightarrow> uuid \<Rightarrow> string \<Rightarrow> uuid \<Rightarrow> bool" where
  "rotation_owned d invoice request outbox =
     list_ex (\<lambda>r. ri_invoice r = Some invoice \<and> ri_payment_request_id r = Some request \<and>
        ri_classification r = ''cancellation_pending'' \<and> ri_cancellation_outbox r = Some outbox)
       (db_rotation_items d)"

definition prepare_cancellation ::
  "('r, 'd) env \<Rightarrow> drain_fresh \<Rightarrow> db \<Rightarrow> uuid \<Rightarrow> lookup_hash \<Rightarrow> uuid \<Rightarrow> delivery_intent \<Rightarrow> string option
     \<Rightarrow> (persistence_error, prepared_cancellation) res" where
  "prepare_cancellation env fresh d creator creator_hash invoice proposal request_id =
     bindr (ok_or request_id CorruptOrMissing) (\<lambda>request.
     bindr (map_err (\<lambda>_. CorruptOrMissing) (intent_payment_request_cancellation (env_sdk env) proposal request))
       (\<lambda>cancellation.
     case existing_cancellation d creator invoice request of
       Some row \<Rightarrow>
         if \<not> rotation_owned d invoice request (ob_id row) \<or> ob_status row = ''permanently_failed''
         then Inl StoreConflict
         else
           bindr (open_intent env creator_hash (ob_id row) (ob_intent_envelope row)) (\<lambda>existing_intent.
           if existing_intent \<noteq> cancellation then Inl StoreConflict
           else Inr \<lparr>pc_invoice = invoice, pc_payment_request_id = request, pc_outbox = ob_id row,
                  pc_envelope = ob_intent_envelope row, pc_insert = False\<rparr>)
     | None \<Rightarrow>
         let outbox = fst (df_cancellation fresh invoice request) in
         bindr (seal_column env (snd (df_cancellation fresh invoice request))
                  (ctx_outbox_semantic_intent creator_hash outbox) (intent_to_bytes env cancellation)) (\<lambda>envelope.
         Inr \<lparr>pc_invoice = invoice, pc_payment_request_id = request, pc_outbox = outbox,
              pc_envelope = envelope, pc_insert = True\<rparr>)))"

definition prepare_cancellations ::
  "('r, 'd) env \<Rightarrow> drain_fresh \<Rightarrow> db \<Rightarrow> uuid \<Rightarrow> lookup_hash \<Rightarrow> uuid
     \<Rightarrow> (request_state \<times> string option \<times> int option) list \<Rightarrow> (persistence_error, prepared_cancellation list) res" where
  "prepare_cancellations env fresh d creator creator_hash invoice proposed =
     (if proposed = [] then Inr []
      else
        bindr (invoice_proposal env d creator creator_hash invoice) (\<lambda>proposal.
        mapr (\<lambda>(_, request, _). prepare_cancellation env fresh d creator creator_hash invoice proposal request)
          proposed))"

text \<open>One invoice of the drain: its classification and its cancellations.\<close>

definition drain_invoice ::
  "('r, 'd) env \<Rightarrow> drain_fresh \<Rightarrow> db \<Rightarrow> uuid \<Rightarrow> lookup_hash \<Rightarrow> uuid \<times> drain_attempt list
     \<Rightarrow> (persistence_error, (uuid \<times> string) \<times> prepared_cancellation list) res" where
  "drain_invoice env fresh d creator creator_hash = (\<lambda>(invoice, attempts).
     bindr (mapr parse_attempt attempts) (\<lambda>parsed.
     bindr (classify parsed) (\<lambda>classification.
     bindr (prepare_cancellations env fresh d creator creator_hash invoice
              (filter (\<lambda>(st, _). st = Proposed) parsed)) (\<lambda>cancellations.
     Inr ((invoice, classification), cancellations)))))"

section \<open>Creation of a drain\<close>

definition insert_drain :: "drain_row \<Rightarrow> db \<Rightarrow> (persistence_error, db) res" where
  "insert_drain row d =
     (if list_ex (\<lambda>r. dn_id r = dn_id row \<or> dn_creator r = dn_creator row \<and> dn_lock_hash r = dn_lock_hash row) (db_drains d)
      then Inl StoreUnavailable
      else Inr (d\<lparr>db_drains := db_drains d @ [row]\<rparr>))"

definition fence_generation :: "uuid \<Rightarrow> uuid \<Rightarrow> lookup_hash \<Rightarrow> int \<Rightarrow> db \<Rightarrow> (persistence_error, db) res" where
  "fence_generation drain creator lock_hash generation d =
     (let open_row = (\<lambda>g. lg_creator g = creator \<and> lg_lock_hash g = lock_hash \<and>
            lg_current_generation g = generation \<and> lg_active_drain g = None) in
      if length (filter open_row (db_generations d)) \<noteq> 1 then Inl StoreConflict
      else Inr (d\<lparr>db_generations := update_where open_row (\<lambda>g. g\<lparr>lg_active_drain := Some drain\<rparr>) (db_generations d)\<rparr>))"

definition drain_cancellation :: "uuid \<Rightarrow> int \<Rightarrow> prepared_cancellation \<Rightarrow> outbox_row" where
  "drain_cancellation creator now c =
     \<lparr>ob_id = pc_outbox c, ob_creator = creator, ob_invoice = Some (pc_invoice c), ob_preparation = None,
      ob_intent_envelope = pc_envelope c, ob_intent_kind = ''payment_request_cancellation'', ob_status = ''queued'',
      ob_lease_owner = None, ob_claim_token = None, ob_lease_expires_at = None, ob_attempt_count = 0,
      ob_failure_count = 0, ob_next_attempt_at = now, ob_error_class = None,
      ob_sdk_outbound_message_id = None, ob_sdk_event_id = None, ob_sdk_payment_request_id = None,
      ob_proposal_lookup_hash = None, ob_cancellation_target = Some (pc_payment_request_id c),
      ob_drain_required = True, ob_created_at = now\<rparr>"

definition enqueue_cancellation :: "uuid \<Rightarrow> int \<Rightarrow> db \<Rightarrow> prepared_cancellation \<Rightarrow> (persistence_error, db) res" where
  "enqueue_cancellation creator now d c =
     (if pc_insert c then
        if list_ex (\<lambda>row. ob_invoice row = Some (pc_invoice c) \<and> ob_intent_kind row = ''payment_request_cancellation'' \<and>
             ob_cancellation_target row = Some (pc_payment_request_id c)) (db_outbox d)
        then Inl StoreUnavailable
        else insert_outbox (drain_cancellation creator now c) d
      else
        let marked = (\<lambda>row. ob_id row = pc_outbox c \<and> ob_creator row = creator \<and> ob_invoice row = Some (pc_invoice c) \<and>
              ob_preparation row = None \<and> ob_intent_kind row = ''payment_request_cancellation'' \<and>
              ob_cancellation_target row = Some (pc_payment_request_id c) \<and> ob_status row \<noteq> ''permanently_failed'') in
        if length (filter marked (db_outbox d)) \<noteq> 1 then Inl StoreConflict
        else Inr (d\<lparr>db_outbox := update_where marked (\<lambda>row. row\<lparr>ob_drain_required := True\<rparr>) (db_outbox d)\<rparr>))"

text \<open>The insertions of the frozen rows, with the keys and the ownership the schema checks.\<close>

definition insert_drain_item :: "uuid \<Rightarrow> db \<Rightarrow> uuid \<times> string \<Rightarrow> (persistence_error, db) res" where
  "insert_drain_item drain d = (\<lambda>(invoice, classification).
     if list_ex (\<lambda>i. di_invoice i = invoice) (db_drain_items d) \<or>
        \<not> list_ex (\<lambda>row. dn_id row = drain \<and> list_ex (\<lambda>v. iv_id v = invoice \<and> iv_creator v = dn_creator row \<and>
            iv_lock_hash v = dn_lock_hash row \<and> iv_lock_generation v = dn_generation row) (db_invoices d)) (db_drains d)
     then Inl StoreUnavailable
     else Inr (d\<lparr>db_drain_items := db_drain_items d @
       [\<lparr>di_drain = drain, di_invoice = invoice, di_classification = classification\<rparr>]\<rparr>))"

definition insert_drain_cancellation ::
  "uuid \<Rightarrow> db \<Rightarrow> prepared_cancellation \<Rightarrow> (persistence_error, db) res" where
  "insert_drain_cancellation drain d c =
     (if pc_payment_request_id c = [] \<or>
         list_ex (\<lambda>r. dc_drain r = drain \<and> dc_payment_request_id r = pc_payment_request_id c \<or>
           dc_outbox r = pc_outbox c) (db_drain_cancellations d) \<or>
         \<not> list_ex (\<lambda>i. di_drain i = drain \<and> di_invoice i = pc_invoice c) (db_drain_items d) \<or>
         \<not> list_ex (\<lambda>r. lr_invoice r = Some (pc_invoice c) \<and> lr_payment_request_id r = pc_payment_request_id c)
           (db_lifecycles d) \<or>
         \<not> list_ex (\<lambda>row. ob_id row = pc_outbox c \<and> ob_invoice row = Some (pc_invoice c) \<and>
           ob_cancellation_target row = Some (pc_payment_request_id c) \<and>
           ob_intent_kind row = ''payment_request_cancellation'') (db_outbox d)
      then Inl StoreUnavailable
      else Inr (d\<lparr>db_drain_cancellations := db_drain_cancellations d @
        [\<lparr>dc_drain = drain, dc_invoice = pc_invoice c, dc_payment_request_id = pc_payment_request_id c,
          dc_outbox = pc_outbox c\<rparr>]\<rparr>))"

definition frozen_row :: "prepared_cancellation \<Rightarrow> uuid \<times> string \<times> uuid \<times> string" where
  "frozen_row c = (pc_invoice c, pc_payment_request_id c, pc_outbox c, pc_envelope c)"

definition new_drain ::
  "('r, 'd) env \<Rightarrow> drain_fresh \<Rightarrow> uuid \<Rightarrow> lookup_hash \<Rightarrow> int \<Rightarrow> (uuid \<times> string) list \<Rightarrow> prepared_cancellation list
     \<Rightarrow> string \<Rightarrow> drain_row" where
  "new_drain env fresh creator lock_hash generation classifications cancellations envelope =
     (let accepted = int (length (filter (\<lambda>(_, c). c = ''accepted'') classifications));
          terminal = int (length (filter (\<lambda>(_, c). c \<in> {''rejected'', ''canceled'', ''proposal_expired''}) classifications)) in
      \<lparr>dn_id = df_drain_id fresh, dn_creator = creator, dn_lock_hash = lock_hash, dn_generation = generation,
       dn_envelope = envelope, dn_status = (if accepted = 0 then ''completed'' else ''active''),
       dn_accepted = accepted, dn_terminal = terminal, dn_cancellations = int (length cancellations),
       dn_cancellation_set_hash = cancellation_rows_hash (env_crypto env) (map frozen_row cancellations),
       dn_item_set_hash = item_rows_hash (env_crypto env)
         (map (\<lambda>(invoice, classification). (invoice, creator, lock_hash, generation, classification)) classifications),
       dn_created_at = df_now fresh,
       dn_completed_at = (if accepted = 0 then Some (df_now fresh) else None)\<rparr>)"

text \<open>The classification of one generation, under the evidence of a completed receive when there is any.\<close>

definition plan_drain ::
  "('r, 'd) env \<Rightarrow> (string \<Rightarrow> string) \<Rightarrow> drain_fresh \<Rightarrow> uuid \<Rightarrow> lookup_hash \<Rightarrow> lookup_hash \<Rightarrow> string list option \<Rightarrow> db
     \<Rightarrow> (persistence_error, int \<times> (uuid \<times> string) list \<times> prepared_cancellation list) res" where
  "plan_drain env collate fresh creator creator_hash lock_hash evidence d =
     bindr (ok_or (find_generation d creator lock_hash) StoreUnavailable) (\<lambda>g.
     if lg_current_generation g < 0 \<or> lg_active_drain g \<noteq> None then Inl CorruptOrMissing
     else
       bindr (case evidence of
                None \<Rightarrow> Inr ()
              | Some received \<Rightarrow>
                  bindr (required_receive_targets_for_lock_in_transaction env d creator lock_hash) (\<lambda>current.
                  guardr (\<not> receive_evidence_covers current received) StoreUnavailable)) (\<lambda>_.
       bindr (mapr (drain_invoice env fresh d creator creator_hash)
                (attempts_by_invoice (concat (map (attempt_rows collate d)
                  (sort_key iv_id (generation_invoices d creator lock_hash (lg_current_generation g))))))) (\<lambda>drained.
       Inr (lg_current_generation g, map fst drained,
            sort_key (\<lambda>c. (pc_invoice c, pc_payment_request_id c, pc_outbox c)) (concat (map snd drained))))))"

definition write_drain ::
  "drain_row \<Rightarrow> (uuid \<times> string) list \<Rightarrow> prepared_cancellation list \<Rightarrow> db \<Rightarrow> (persistence_error, drain_snapshot \<times> db) res" where
  "write_drain row classifications cancellations d =
     bindr (insert_drain row d) (\<lambda>d2.
     bindr (fence_generation (dn_id row) (dn_creator row) (dn_lock_hash row) (dn_generation row) d2) (\<lambda>d3.
     bindr (foldr_res (enqueue_cancellation (dn_creator row) (dn_created_at row)) d3 cancellations) (\<lambda>d4.
     bindr (foldr_res (insert_drain_item (dn_id row)) d4 classifications) (\<lambda>d5.
     bindr (foldr_res (insert_drain_cancellation (dn_id row)) d5 cancellations) (\<lambda>d6.
     bindr (drain_count (dn_accepted row)) (\<lambda>accepted.
     bindr (drain_count (dn_terminal row)) (\<lambda>terminal.
     Inr (\<lparr>ps_drain_id = dn_id row, ps_created_at = dn_created_at row, ps_accepted_count = accepted,
           ps_terminal_count = terminal, ps_cancellation_enqueued_count = of_nat (length cancellations),
           ps_completed = (dn_accepted row = 0), ps_replayed = False\<rparr>, d6))))))))"

definition create_drain ::
  "('r, 'd) env \<Rightarrow> (string \<Rightarrow> string) \<Rightarrow> drain_fresh \<Rightarrow> creator_row \<Rightarrow> string \<Rightarrow> lookup_hash \<Rightarrow> string list option \<Rightarrow> db
     \<Rightarrow> (persistence_error, drain_snapshot \<times> db) res" where
  "create_drain env collate fresh creator lock_resource creator_hash evidence d =
     (let lock_hash = crypto_lookup_hash (env_crypto env) lock_resource;
          d1 = ensure_generation (cr_id creator) lock_hash d in
      bindr (plan_drain env collate fresh (cr_id creator) creator_hash lock_hash evidence d1)
        (\<lambda>(generation, classifications, cancellations).
      bindr (seal_column env (df_drain_nonce fresh) (ctx_payment_drain creator_hash (df_drain_id fresh))
               (Some lock_resource)) (\<lambda>envelope.
      write_drain (new_drain env fresh (cr_id creator) lock_hash generation classifications cancellations envelope)
        classifications cancellations d1)))"

definition create_inner ::
  "('r, 'd) env \<Rightarrow> (string \<Rightarrow> string) \<Rightarrow> drain_fresh \<Rightarrow> string \<Rightarrow> string \<Rightarrow> string list option \<Rightarrow> db
     \<Rightarrow> (persistence_error, drain_snapshot \<times> db) res" where
  "create_inner env collate fresh creator lock_resource evidence d =
     (let creator_hash = crypto_lookup_hash (env_crypto env) creator;
          lock_hash = crypto_lookup_hash (env_crypto env) lock_resource in
      bindr (find_creator_by_hash d creator_hash) (\<lambda>c.
      case find (\<lambda>row. dn_creator row = cr_id c \<and> dn_lock_hash row = lock_hash) (db_drains d) of
        Some existing \<Rightarrow>
          bindr (open_column env (ctx_payment_drain creator_hash (dn_id existing)) (dn_envelope existing)) (\<lambda>plaintext.
          if plaintext \<noteq> lock_resource then Inl StoreConflict
          else
            bindr (exact_drain_replay env collate creator lock_resource (df_now fresh) d) (\<lambda>(replay, d').
            bindr (ok_or replay CorruptOrMissing) (\<lambda>snapshot. Inr (snapshot, d'))))
      | None \<Rightarrow> create_drain env collate fresh c lock_resource creator_hash evidence d))"

end
