(* ===== verification/Drain_Safety.thy ===== *)
theory Drain_Safety
  imports Payment_Drains
begin

text \<open>
  The correctness of drains: what one creation writes, that the frozen sets stay readable while the
  other components run, what the classification covers, and what a cleanup removes.
\<close>

section \<open>The keys of the drain tables\<close>

definition drain_key :: "drain_row \<Rightarrow> uuid \<times> lookup_hash" where
  "drain_key row = (dn_creator row, dn_lock_hash row)"

definition generation_key :: "generation_row \<Rightarrow> uuid \<times> lookup_hash" where
  "generation_key g = (lg_creator g, lg_lock_hash g)"

interpretation drain_ids: unique_table db_drains insert_drain dn_id
  by unfold_locales (auto simp: insert_drain_def list_ex_iff split: if_splits)

interpretation drain_locks: unique_table db_drains insert_drain drain_key
  by unfold_locales (auto simp: insert_drain_def list_ex_iff drain_key_def split: if_splits)

definition drains_ok :: "db \<Rightarrow> bool" where
  "drains_ok d \<longleftrightarrow> distinct (map generation_key (db_generations d)) \<and>
     distinct (map dn_id (db_drains d)) \<and> distinct (map drain_key (db_drains d)) \<and>
     di_drain ` set (db_drain_items d) \<subseteq> dn_id ` set (db_drains d) \<and>
     dc_drain ` set (db_drain_cancellations d) \<subseteq> dn_id ` set (db_drains d)"

lemma drains_ok_ensure:
  assumes "drains_ok d"
  shows "drains_ok (ensure_generation c h d)"
  using assms
  by (auto simp: drains_ok_def ensure_generation_def find_generation_def generation_key_def find_None_iff split: option.splits)

section \<open>The insertions of one drain\<close>

abbreviation item_of :: "uuid \<Rightarrow> uuid \<times> string \<Rightarrow> drain_item_row" where
  "item_of drain \<equiv> \<lambda>(invoice, classification). \<lparr>di_drain = drain, di_invoice = invoice, di_classification = classification\<rparr>"

abbreviation cancellation_of :: "uuid \<Rightarrow> prepared_cancellation \<Rightarrow> drain_cancellation_row" where
  "cancellation_of drain c \<equiv> \<lparr>dc_drain = drain, dc_invoice = pc_invoice c,
     dc_payment_request_id = pc_payment_request_id c, dc_outbox = pc_outbox c\<rparr>"

lemma items_inserted:
  "foldr_res (insert_drain_item drain) d cs = Inr d' \<Longrightarrow>
     d' = d\<lparr>db_drain_items := db_drain_items d @ map (item_of drain) cs\<rparr> \<and>
     (\<forall>i \<in> fst ` set cs. \<exists>row \<in> set (db_drains d). dn_id row = drain \<and> (\<exists>v \<in> set (db_invoices d). iv_id v = i \<and>
        iv_creator v = dn_creator row \<and> iv_lock_hash v = dn_lock_hash row \<and> iv_lock_generation v = dn_generation row))"
proof (induction cs arbitrary: d)
  case (Cons c cs)
  from Cons.prems obtain d1 where d1: "insert_drain_item drain d c = Inr d1"
    and rest: "foldr_res (insert_drain_item drain) d1 cs = Inr d'" by auto
  from d1 have e: "d1 = d\<lparr>db_drain_items := db_drain_items d @ [item_of drain c]\<rparr>"
    and owner: "\<exists>row \<in> set (db_drains d). dn_id row = drain \<and> (\<exists>v \<in> set (db_invoices d). iv_id v = fst c \<and>
        iv_creator v = dn_creator row \<and> iv_lock_hash v = dn_lock_hash row \<and> iv_lock_generation v = dn_generation row)"
    by (auto simp: insert_drain_item_def list_ex_iff split: prod.splits if_splits)
  from Cons.IH [OF rest] owner show ?case by (simp add: e)
qed simp

lemma cancellations_inserted:
  "foldr_res (insert_drain_cancellation drain) d cs = Inr d' \<Longrightarrow>
     d' = d\<lparr>db_drain_cancellations := db_drain_cancellations d @ map (cancellation_of drain) cs\<rparr>"
proof (induction cs arbitrary: d)
  case (Cons c cs)
  from Cons.prems obtain d1 where d1: "insert_drain_cancellation drain d c = Inr d1"
    and rest: "foldr_res (insert_drain_cancellation drain) d1 cs = Inr d'" by auto
  from d1 have "d1 = d\<lparr>db_drain_cancellations := db_drain_cancellations d @ [cancellation_of drain c]\<rparr>"
    by (auto simp: insert_drain_cancellation_def split: if_splits)
  with Cons.IH [OF rest] show ?case by simp
qed simp

text \<open>The cancellations leave every earlier row but its drain mark, and mark the row of each cancellation.\<close>

definition marks :: "outbox_row \<Rightarrow> outbox_row \<Rightarrow> bool" where
  "marks row row' \<longleftrightarrow> (\<exists>b. row' = row\<lparr>ob_drain_required := b\<rparr> \<and> (ob_drain_required row \<longrightarrow> b))"

definition outbox_marked :: "db \<Rightarrow> db \<Rightarrow> bool" where
  "outbox_marked d d' \<longleftrightarrow> (\<exists>x. d' = d\<lparr>db_outbox := x\<rparr>) \<and>
     (distinct (map ob_id (db_outbox d)) \<longrightarrow> distinct (map ob_id (db_outbox d'))) \<and>
     (\<forall>row \<in> set (db_outbox d). \<exists>row' \<in> set (db_outbox d'). marks row row')"

lemma marks_refl [simp]: "marks row row"
  unfolding marks_def by (rule exI [of _ "ob_drain_required row"]) simp

lemma marks_fields:
  assumes "marks row row'"
  shows "ob_id row' = ob_id row" "ob_invoice row' = ob_invoice row" "ob_intent_envelope row' = ob_intent_envelope row"
    "ob_status row' = ob_status row" "ob_creator row' = ob_creator row" "ob_preparation row' = ob_preparation row"
    "ob_intent_kind row' = ob_intent_kind row" "ob_cancellation_target row' = ob_cancellation_target row"
    "ob_drain_required row \<Longrightarrow> ob_drain_required row'"
  using assms by (auto simp: marks_def)

lemma marks_trans: "marks a b \<Longrightarrow> marks b c \<Longrightarrow> marks a c"
  by (auto simp: marks_def)

lemma outbox_marked_refl [simp]: "outbox_marked d d"
proof -
  have "d = d\<lparr>db_outbox := db_outbox d\<rparr>" by simp
  then show ?thesis unfolding outbox_marked_def using marks_refl by blast
qed

lemma outbox_marked_trans:
  assumes "outbox_marked a b" "outbox_marked b c"
  shows "outbox_marked a c"
proof -
  have "\<exists>x. c = a\<lparr>db_outbox := x\<rparr>" using assms by (auto simp: outbox_marked_def)
  moreover have "\<exists>row' \<in> set (db_outbox c). marks row row'" if "row \<in> set (db_outbox a)" for row
    using that assms marks_trans unfolding outbox_marked_def by blast
  ultimately show ?thesis using assms by (simp add: outbox_marked_def)
qed

definition cancellation_queued :: "db \<Rightarrow> prepared_cancellation \<Rightarrow> bool" where
  "cancellation_queued d c \<longleftrightarrow> (\<exists>row \<in> set (db_outbox d). ob_id row = pc_outbox c \<and> ob_drain_required row \<and>
     ob_invoice row = Some (pc_invoice c) \<and> ob_status row \<noteq> ''permanently_failed'' \<and>
     ob_intent_envelope row = pc_envelope c)"

lemma marked_row:
  assumes "outbox_marked d d'" "row \<in> set (db_outbox d)"
  obtains row' where "row' \<in> set (db_outbox d')" "marks row row'"
  using assms by (auto simp: outbox_marked_def)

lemma cancellation_queued_marked:
  assumes "cancellation_queued d c" "outbox_marked d d'"
  shows "cancellation_queued d' c"
proof -
  from assms(1) obtain row where row: "row \<in> set (db_outbox d)" "ob_id row = pc_outbox c" "ob_drain_required row"
      "ob_invoice row = Some (pc_invoice c)" "ob_status row \<noteq> ''permanently_failed''" "ob_intent_envelope row = pc_envelope c"
    by (auto simp: cancellation_queued_def)
  from marked_row [OF assms(2) row(1)] obtain row' where "row' \<in> set (db_outbox d')" "marks row row'" by blast
  then show ?thesis using row(2-) by (auto simp: cancellation_queued_def marks_fields intro!: bexI [of _ row'])
qed

lemma outbox_marked_update:
  "outbox_marked d (d\<lparr>db_outbox := update_where m (\<lambda>row. row\<lparr>ob_drain_required := True\<rparr>) (db_outbox d)\<rparr>)"
proof -
  have ids: "map ob_id (update_where m (\<lambda>row. row\<lparr>ob_drain_required := True\<rparr>) rows) = map ob_id rows" for rows
    by (rule map_update_where) simp
  have "\<exists>row' \<in> set (update_where m (\<lambda>row. row\<lparr>ob_drain_required := True\<rparr>) (db_outbox d)). marks row row'"
    if "row \<in> set (db_outbox d)" for row
    using that by (intro bexI [of _ "if m row then row\<lparr>ob_drain_required := True\<rparr> else row"])
      (auto simp: marks_def set_update_where intro: exI [of _ "ob_drain_required row"])
  then show ?thesis by (auto simp: outbox_marked_def ids)
qed

lemma enqueued:
  assumes "enqueue_cancellation creator now d c = Inr d'"
    and "\<not> pc_insert c \<Longrightarrow> \<exists>row \<in> set (db_outbox d). ob_id row = pc_outbox c \<and> ob_intent_envelope row = pc_envelope c"
    and "distinct (map ob_id (db_outbox d))"
  shows "outbox_marked d d'" "cancellation_queued d' c"
proof -
  have "outbox_marked d d' \<and> cancellation_queued d' c"
  proof (cases "pc_insert c")
    case True
    then have i: "insert_outbox (drain_cancellation creator now c) d = Inr d'"
      using assms(1) by (auto simp: enqueue_cancellation_def split: if_splits)
    then have d': "d' = d\<lparr>db_outbox := db_outbox d @ [drain_cancellation creator now c]\<rparr>"
      by (auto simp: insert_outbox_def split: if_splits)
    have "\<exists>row' \<in> set (db_outbox d'). marks row row'" if "row \<in> set (db_outbox d)" for row
      using that by (intro bexI [of _ row]) (simp_all add: d')
    then have "outbox_marked d d'"
      unfolding outbox_marked_def using d' outbox_ids.insert_distinct [OF i] by blast
    moreover have "cancellation_queued d' c"
      by (simp add: d' cancellation_queued_def drain_cancellation_def)
    ultimately show ?thesis ..
  next
    case False
    let ?m = "\<lambda>row. ob_id row = pc_outbox c \<and> ob_creator row = creator \<and> ob_invoice row = Some (pc_invoice c) \<and>
      ob_preparation row = None \<and> ob_intent_kind row = ''payment_request_cancellation'' \<and>
      ob_cancellation_target row = Some (pc_payment_request_id c) \<and> ob_status row \<noteq> ''permanently_failed''"
    have one: "length (filter ?m (db_outbox d)) = 1"
      and d': "d' = d\<lparr>db_outbox := update_where ?m (\<lambda>row. row\<lparr>ob_drain_required := True\<rparr>) (db_outbox d)\<rparr>"
      using assms(1) False by (auto simp: enqueue_cancellation_def Let_def split: if_splits)
    from one have "hd (filter ?m (db_outbox d)) \<in> set (filter ?m (db_outbox d))" by (intro hd_in_set) auto
    then obtain row where row: "row \<in> set (db_outbox d)" "?m row" by auto
    from assms(2) [OF False] obtain row0 where
      row0: "row0 \<in> set (db_outbox d)" "ob_id row0 = pc_outbox c" "ob_intent_envelope row0 = pc_envelope c" by blast
    from row_by_id [OF assms(3) row(1) row0(1)] row(2) row0(2,3) have env: "ob_intent_envelope row = pc_envelope c"
      by simp
    have "outbox_marked d d'" unfolding d' by (rule outbox_marked_update)
    moreover have "row\<lparr>ob_drain_required := True\<rparr> \<in> set (db_outbox d')"
      using row by (auto simp: d' set_update_where)
    then have "cancellation_queued d' c" using row(2) env
      unfolding cancellation_queued_def by (intro bexI [of _ "row\<lparr>ob_drain_required := True\<rparr>"]) auto
    ultimately show ?thesis ..
  qed
  then show "outbox_marked d d'" "cancellation_queued d' c" by auto
qed

lemma enqueued_all:
  assumes "foldr_res (enqueue_cancellation creator now) d cs = Inr d'"
    and "\<And>c. c \<in> set cs \<Longrightarrow> \<not> pc_insert c \<Longrightarrow>
      \<exists>row \<in> set (db_outbox d). ob_id row = pc_outbox c \<and> ob_intent_envelope row = pc_envelope c"
    and "distinct (map ob_id (db_outbox d))"
  shows "outbox_marked d d' \<and> (\<forall>c \<in> set cs. cancellation_queued d' c)"
  using assms
proof (induction cs arbitrary: d)
  case (Cons c cs)
  from Cons.prems(1) obtain d1 where d1: "enqueue_cancellation creator now d c = Inr d1"
    and rest: "foldr_res (enqueue_cancellation creator now) d1 cs = Inr d'" by auto
  have m: "outbox_marked d d1" and q: "cancellation_queued d1 c"
    using enqueued [OF d1 Cons.prems(2) Cons.prems(3)] by auto
  have "\<exists>row \<in> set (db_outbox d1). ob_id row = pc_outbox x \<and> ob_intent_envelope row = pc_envelope x"
    if x: "x \<in> set cs" "\<not> pc_insert x" for x
  proof -
    from Cons.prems(2) [of x] x obtain row where
      row: "row \<in> set (db_outbox d)" "ob_id row = pc_outbox x" "ob_intent_envelope row = pc_envelope x" by auto
    from marked_row [OF m row(1)] obtain row' where "row' \<in> set (db_outbox d1)" "marks row row'" by blast
    then show ?thesis using row(2,3) by (auto simp: marks_fields intro!: bexI [of _ row'])
  qed
  moreover have "distinct (map ob_id (db_outbox d1))" using m Cons.prems(3) by (simp add: outbox_marked_def)
  ultimately have "outbox_marked d1 d' \<and> (\<forall>c \<in> set cs. cancellation_queued d' c)"
    using Cons.IH [OF rest] by blast
  then show ?case using m q outbox_marked_trans cancellation_queued_marked by auto
qed simp

section \<open>What one creation does\<close>

abbreviation drained_generation :: "(string \<Rightarrow> string) \<Rightarrow> db \<Rightarrow> uuid \<Rightarrow> lookup_hash \<Rightarrow> int \<Rightarrow> (uuid \<times> drain_attempt list) list" where
  "drained_generation collate d creator lock_hash generation \<equiv>
     attempts_by_invoice (concat (map (attempt_rows collate d)
       (sort_key iv_id (generation_invoices d creator lock_hash generation))))"

lemma ensure_generation_more [simp]:
  "db_lifecycles (ensure_generation c h d) = db_lifecycles d" "db_drains (ensure_generation c h d) = db_drains d"
  "db_drain_items (ensure_generation c h d) = db_drain_items d"
  "db_drain_cancellations (ensure_generation c h d) = db_drain_cancellations d"
  "db_rotation_items (ensure_generation c h d) = db_rotation_items d"
  "db_first_evidence (ensure_generation c h d) = db_first_evidence d"
  by (simp_all add: ensure_generation_def split: option.splits)

lemma outbox_marked_frame:
  assumes "outbox_marked d d'"
  shows "db_creators d' = db_creators d" "db_invoices d' = db_invoices d" "db_lifecycles d' = db_lifecycles d"
    "db_generations d' = db_generations d" "db_drains d' = db_drains d" "db_drain_items d' = db_drain_items d"
    "db_drain_cancellations d' = db_drain_cancellations d" "db_first_evidence d' = db_first_evidence d"
    "db_rotation_items d' = db_rotation_items d"
  using assms by (auto simp: outbox_marked_def)

abbreviation open_generation :: "drain_row \<Rightarrow> generation_row \<Rightarrow> bool" where
  "open_generation row g \<equiv> lg_creator g = dn_creator row \<and> lg_lock_hash g = dn_lock_hash row \<and>
     lg_current_generation g = dn_generation row \<and> lg_active_drain g = None"

definition drain_written :: "drain_row \<Rightarrow> (uuid \<times> string) list \<Rightarrow> prepared_cancellation list \<Rightarrow> db \<Rightarrow> db \<Rightarrow> bool" where
  "drain_written row cs xs d d' \<longleftrightarrow>
     dn_id row \<notin> dn_id ` set (db_drains d) \<and> drain_key row \<notin> drain_key ` set (db_drains d) \<and>
     db_drains d' = db_drains d @ [row] \<and>
     (\<exists>g \<in> set (db_generations d). open_generation row g) \<and>
     db_generations d' = update_where (open_generation row) (\<lambda>g. g\<lparr>lg_active_drain := Some (dn_id row)\<rparr>) (db_generations d) \<and>
     db_drain_items d' = db_drain_items d @ map (item_of (dn_id row)) cs \<and>
     db_drain_cancellations d' = db_drain_cancellations d @ map (cancellation_of (dn_id row)) xs \<and>
     db_creators d' = db_creators d \<and> db_invoices d' = db_invoices d \<and> db_lifecycles d' = db_lifecycles d \<and>
     db_first_evidence d' = db_first_evidence d \<and>
     distinct (map ob_id (db_outbox d')) \<and> (\<forall>x \<in> set xs. cancellation_queued d' x) \<and>
     (\<forall>r \<in> set (db_outbox d). \<exists>r' \<in> set (db_outbox d'). marks r r') \<and>
     (\<forall>i \<in> fst ` set cs. \<exists>v \<in> set (db_invoices d). iv_id v = i \<and> iv_creator v = dn_creator row \<and>
        iv_lock_hash v = dn_lock_hash row \<and> iv_lock_generation v = dn_generation row)"

lemma write_drain_written:
  assumes "write_drain row cs xs d = Inr (s, d')"
    and "\<And>c. c \<in> set xs \<Longrightarrow> \<not> pc_insert c \<Longrightarrow>
      \<exists>r \<in> set (db_outbox d). ob_id r = pc_outbox c \<and> ob_intent_envelope r = pc_envelope c"
    and "distinct (map ob_id (db_outbox d))"
  shows "drain_written row cs xs d d'"
    and "s = \<lparr>ps_drain_id = dn_id row, ps_created_at = dn_created_at row, ps_accepted_count = of_int (dn_accepted row),
      ps_terminal_count = of_int (dn_terminal row), ps_cancellation_enqueued_count = of_nat (length xs),
      ps_completed = (dn_accepted row = 0), ps_replayed = False\<rparr>"
proof -
  from assms(1) obtain d2 d3 d4 d5 where
    i: "insert_drain row d = Inr d2"
    and f: "fence_generation (dn_id row) (dn_creator row) (dn_lock_hash row) (dn_generation row) d2 = Inr d3"
    and q: "foldr_res (enqueue_cancellation (dn_creator row) (dn_created_at row)) d3 xs = Inr d4"
    and n: "foldr_res (insert_drain_item (dn_id row)) d4 cs = Inr d5"
    and c: "foldr_res (insert_drain_cancellation (dn_id row)) d5 xs = Inr d'"
    by (auto simp: write_drain_def)
  from i have d2: "d2 = d\<lparr>db_drains := db_drains d @ [row]\<rparr>" by (auto simp: insert_drain_def split: if_splits)
  from f have d3: "d3 = d2\<lparr>db_generations := update_where (open_generation row) (\<lambda>g. g\<lparr>lg_active_drain := Some (dn_id row)\<rparr>) (db_generations d2)\<rparr>"
    and one: "length (filter (open_generation row) (db_generations d)) = 1"
    by (auto simp: fence_generation_def Let_def d2 split: if_splits)
  from one have "hd (filter (open_generation row) (db_generations d)) \<in> set (filter (open_generation row) (db_generations d))"
    by (intro hd_in_set) auto
  then have g: "\<exists>g \<in> set (db_generations d). open_generation row g" by auto
  have "outbox_marked d3 d4" and queued: "\<forall>x \<in> set xs. cancellation_queued d4 x"
    using enqueued_all [OF q] assms(2,3) by (auto simp: d3 d2)
  note m = this(1) and fr = outbox_marked_frame [OF this(1)]
  have d': "d' = d4\<lparr>db_drain_items := db_drain_items d @ map (item_of (dn_id row)) cs,
      db_drain_cancellations := db_drain_cancellations d @ map (cancellation_of (dn_id row)) xs\<rparr>"
    using items_inserted [OF n] cancellations_inserted [OF c] by (simp add: fr) (simp add: d3 d2)
  have owners: "\<exists>v \<in> set (db_invoices d). iv_id v = j \<and> iv_creator v = dn_creator row \<and>
        iv_lock_hash v = dn_lock_hash row \<and> iv_lock_generation v = dn_generation row" if j: "j \<in> fst ` set cs" for j
  proof -
    from items_inserted [OF n] j obtain r v where r: "r \<in> set (db_drains d4)" "dn_id r = dn_id row"
      and v: "v \<in> set (db_invoices d4)" "iv_id v = j" "iv_creator v = dn_creator r" "iv_lock_hash v = dn_lock_hash r"
        "iv_lock_generation v = dn_generation r" by blast
    have "set (db_drains d4) = insert row (set (db_drains d))" "db_invoices d4 = db_invoices d"
      by (simp_all add: fr) (simp_all add: d3 d2)
    moreover have "r \<notin> set (db_drains d)" using drain_ids.insert_fresh [OF i] imageI [of r _ dn_id] r(2) by metis
    ultimately show ?thesis using r(1) v by auto
  qed
  show "drain_written row cs xs d d'"
    using drain_ids.insert_fresh [OF i] drain_locks.insert_fresh [OF i] g owners queued m assms(3)
    unfolding drain_written_def d' by (simp add: fr) (simp add: d3 d2 outbox_marked_def cancellation_queued_def)
  show "s = \<lparr>ps_drain_id = dn_id row, ps_created_at = dn_created_at row, ps_accepted_count = of_int (dn_accepted row),
      ps_terminal_count = of_int (dn_terminal row), ps_cancellation_enqueued_count = of_nat (length xs),
      ps_completed = (dn_accepted row = 0), ps_replayed = False\<rparr>"
    using assms(1) by (auto simp: write_drain_def drain_count_def split: if_splits)
qed

section \<open>The plan of one drain\<close>

lemma attempt_rows_invoice [simp]: "il_invoice ` set (attempt_rows collate d v) = {iv_id v}"
proof (cases "filter (\<lambda>r. lr_invoice r = Some (iv_id v)) (db_lifecycles d)")
  case (Cons a list)
  then show ?thesis by (auto simp: attempt_rows_def image_image image_constant_conv set_insort_key)
qed (simp add: attempt_rows_def)

lemma attempts_keys:
  "sorted (map fst (attempts_by_invoice rows))" "distinct (map fst (attempts_by_invoice rows))"
  "fst ` set (attempts_by_invoice rows) = il_invoice ` set rows"
  by (auto simp: attempts_by_invoice_def comp_def image_image)

lemma drained_keys:
  "fst ` set (drained_generation collate d c h n) = iv_id ` set (generation_invoices d c h n)"
proof -
  have "il_invoice ` set (concat (map (attempt_rows collate d) vs)) = iv_id ` set vs" for vs
    by (induction vs) (auto simp: image_Un)
  then show ?thesis by (simp only: attempts_keys set_sort)
qed

lemma drain_invoice_fst: "drain_invoice env fresh d c ch x = Inr y \<Longrightarrow> fst (fst y) = fst x"
  by (auto simp: drain_invoice_def split: prod.splits)

lemma plan_drain_Inr:
  assumes "plan_drain env collate fresh c ch h evidence d = Inr (n, cs, xs)"
  obtains drained g where "find_generation d c h = Some g" "lg_current_generation g = n" "0 \<le> n" "lg_active_drain g = None"
    "mapr (drain_invoice env fresh d c ch) (drained_generation collate d c h n) = Inr drained"
    "cs = map fst drained"
    "xs = sort_key (\<lambda>c. (pc_invoice c, pc_payment_request_id c, pc_outbox c)) (concat (map snd drained))"
  using assms by (auto simp: plan_drain_def split: if_splits)

lemma planned_invoices:
  assumes "plan_drain env collate fresh c ch h evidence d = Inr (n, cs, xs)"
  shows "sorted (map fst cs)" "distinct (map fst cs)" "fst ` set cs = iv_id ` set (generation_invoices d c h n)"
    "sorted (map (\<lambda>c. (pc_invoice c, pc_payment_request_id c, pc_outbox c)) xs)"
proof -
  from assms obtain drained where
    m: "mapr (drain_invoice env fresh d c ch) (drained_generation collate d c h n) = Inr drained"
    and cs: "cs = map fst drained"
    and xs: "xs = sort_key (\<lambda>c. (pc_invoice c, pc_payment_request_id c, pc_outbox c)) (concat (map snd drained))"
    by (rule plan_drain_Inr)
  have "list_all2 (\<lambda>x y. drain_invoice env fresh d c ch x = Inr y) xs' ys \<Longrightarrow> map (fst \<circ> fst) ys = map fst xs'" for xs' ys
    by (induction xs' ys rule: list_all2_induct) (auto dest: drain_invoice_fst)
  with m have k: "map fst cs = map fst (drained_generation collate d c h n)" by (simp add: mapr_Inr_iff cs)
  show "sorted (map fst cs)" "distinct (map fst cs)" unfolding k by (rule attempts_keys)+
  show "fst ` set cs = iv_id ` set (generation_invoices d c h n)"
    using drained_keys [of collate d c h n] k by (metis list.set_map)
  show "sorted (map (\<lambda>c. (pc_invoice c, pc_payment_request_id c, pc_outbox c)) xs)" by (simp add: xs)
qed

text \<open>A prepared cancellation seals, or adopts, the cancellation of one request.\<close>

definition cancels :: "('r, 'd) env \<Rightarrow> lookup_hash \<Rightarrow> prepared_cancellation \<Rightarrow> bool" where
  "cancels env ch x \<longleftrightarrow> (\<exists>intent. open_intent env ch (pc_outbox x) (pc_envelope x) = Inr intent \<and>
     intent_operation intent = PaymentRequestCancellation (pc_payment_request_id x))"

definition drain_nonces_ok :: "drain_fresh \<Rightarrow> bool" where
  "drain_nonces_ok fresh \<longleftrightarrow> length (df_drain_nonce fresh) = nonce_length \<and>
     (\<forall>i r. length (snd (df_cancellation fresh i r)) = nonce_length)"

lemma cancellation_intent:
  assumes "intent_payment_request_cancellation sdk p r = Inr intent"
  shows "intent_operation intent = PaymentRequestCancellation r" "intent_validate sdk intent = Inr ()"
  using assms by (auto simp: intent_payment_request_cancellation_def Let_def split: if_splits)

lemma prepare_cancellation_Inr:
  assumes "prepare_cancellation env fresh d c ch i p request = Inr x"
  shows "pc_invoice x = i" "request = Some (pc_payment_request_id x)"
    and "\<not> pc_insert x \<Longrightarrow> \<exists>r \<in> set (db_outbox d). ob_id r = pc_outbox x \<and> ob_intent_envelope r = pc_envelope x"
    and "aead_correct (prims (env_crypto env)) \<Longrightarrow> codecs_ok env \<Longrightarrow> drain_nonces_ok fresh \<Longrightarrow> cancels env ch x"
proof -
  from assms obtain r intent where r: "request = Some r"
    and intent: "intent_payment_request_cancellation (env_sdk env) p r = Inr intent"
    and cases: "(\<exists>row. existing_cancellation d c i r = Some row \<and>
        open_intent env ch (ob_id row) (ob_intent_envelope row) = Inr intent \<and>
        x = \<lparr>pc_invoice = i, pc_payment_request_id = r, pc_outbox = ob_id row, pc_envelope = ob_intent_envelope row, pc_insert = False\<rparr>) \<or>
      (\<exists>envelope. seal_column env (snd (df_cancellation fresh i r))
          (ctx_outbox_semantic_intent ch (fst (df_cancellation fresh i r))) (intent_to_bytes env intent) = Inr envelope \<and>
        x = \<lparr>pc_invoice = i, pc_payment_request_id = r, pc_outbox = fst (df_cancellation fresh i r), pc_envelope = envelope, pc_insert = True\<rparr>)"
    by (auto simp: prepare_cancellation_def Let_def split: option.splits if_splits)
  from cases r show "pc_invoice x = i" "request = Some (pc_payment_request_id x)" by auto
  show "\<exists>r \<in> set (db_outbox d). ob_id r = pc_outbox x \<and> ob_intent_envelope r = pc_envelope x" if "\<not> pc_insert x"
    using that cases by (auto simp: existing_cancellation_def find_Some_iff intro: nth_mem)
  show "cancels env ch x" if "aead_correct (prims (env_crypto env))" "codecs_ok env" "drain_nonces_ok fresh"
  proof -
    have "open_intent env ch (fst (df_cancellation fresh i r)) envelope = Inr intent"
      if "seal_column env (snd (df_cancellation fresh i r))
        (ctx_outbox_semantic_intent ch (fst (df_cancellation fresh i r))) (intent_to_bytes env intent) = Inr envelope" for envelope
      unfolding open_intent_def
      by (rule decode_sealed_intent [OF \<open>aead_correct _\<close> \<open>codecs_ok env\<close> _ that cancellation_intent(2) [OF intent]])
        (use \<open>drain_nonces_ok fresh\<close> in \<open>simp add: drain_nonces_ok_def\<close>)
    then have "open_intent env ch (pc_outbox x) (pc_envelope x) = Inr intent \<and> pc_payment_request_id x = r"
      using cases by auto
    then show ?thesis using cancellation_intent(1) [OF intent] by (auto simp: cancels_def)
  qed
qed

lemma planned_cancellations:
  assumes "plan_drain env collate fresh c ch h evidence d = Inr (n, cs, xs)" "x \<in> set xs"
  obtains p where "prepare_cancellation env fresh d c ch (pc_invoice x) p (Some (pc_payment_request_id x)) = Inr x"
proof -
  from assms(1) obtain drained where
    m: "mapr (drain_invoice env fresh d c ch) (drained_generation collate d c h n) = Inr drained"
    and xs: "xs = sort_key (\<lambda>c. (pc_invoice c, pc_payment_request_id c, pc_outbox c)) (concat (map snd drained))"
    by (rule plan_drain_Inr)
  from assms(2) xs obtain y where y: "y \<in> set drained" "x \<in> set (snd y)" by auto
  from mapr_mem [OF m y(1)] obtain i where "drain_invoice env fresh d c ch i = Inr y" by blast
  then obtain v ps where v: "prepare_cancellations env fresh d c ch v ps = Inr (snd y)"
    by (cases i) (auto simp: drain_invoice_def)
  with y(2) obtain p where "mapr (\<lambda>(_, request, _). prepare_cancellation env fresh d c ch v p request) ps = Inr (snd y)"
    by (auto simp: prepare_cancellations_def split: if_splits)
  from mapr_mem [OF this y(2)] obtain request where "prepare_cancellation env fresh d c ch v p request = Inr x"
    by (auto split: prod.splits)
  from prepare_cancellation_Inr(1,2) [OF this] this that show thesis by simp
qed

section \<open>The frozen sets of a drain stay readable\<close>

text \<open>
  A later state of the store keeps a drain when its tables are as they were and the other
  components have only appended rows or moved columns the drain does not freeze.
\<close>

definition drain_kept :: "db \<Rightarrow> db \<Rightarrow> bool" where
  "drain_kept d e \<longleftrightarrow> map (\<lambda>c. (cr_id c, cr_lookup_hash c)) (db_creators e) = map (\<lambda>c. (cr_id c, cr_lookup_hash c)) (db_creators d) \<and>
     set (db_generations d) \<subseteq> set (db_generations e) \<and> db_drains e = db_drains d \<and>
     db_drain_items e = db_drain_items d \<and> db_drain_cancellations e = db_drain_cancellations d \<and>
     distinct (map ob_id (db_outbox e)) \<and> distinct (map iv_id (db_invoices e)) \<and>
     (\<forall>r \<in> set (db_outbox d). \<exists>r' \<in> set (db_outbox e). ob_id r' = ob_id r \<and>
        ob_intent_envelope r' = ob_intent_envelope r \<and> ob_drain_required r' = ob_drain_required r) \<and>
     (\<forall>v \<in> set (db_invoices d). \<exists>v' \<in> set (db_invoices e). iv_id v' = iv_id v \<and> iv_creator v' = iv_creator v \<and>
        iv_lock_hash v' = iv_lock_hash v \<and> iv_lock_generation v' = iv_lock_generation v)"

lemma drain_kept_refl: "distinct (map ob_id (db_outbox d)) \<Longrightarrow> distinct (map iv_id (db_invoices d)) \<Longrightarrow> drain_kept d d"
  unfolding drain_kept_def by blast

lemma drain_kept_trans:
  assumes "drain_kept a b" "drain_kept b c"
  shows "drain_kept a c"
proof -
  have "\<exists>r' \<in> set (db_outbox c). ob_id r' = ob_id r \<and> ob_intent_envelope r' = ob_intent_envelope r \<and>
      ob_drain_required r' = ob_drain_required r" if "r \<in> set (db_outbox a)" for r
    using assms that unfolding drain_kept_def by metis
  moreover have "\<exists>v' \<in> set (db_invoices c). iv_id v' = iv_id v \<and> iv_creator v' = iv_creator v \<and>
      iv_lock_hash v' = iv_lock_hash v \<and> iv_lock_generation v' = iv_lock_generation v" if "v \<in> set (db_invoices a)" for v
    using assms that unfolding drain_kept_def by metis
  ultimately show ?thesis using assms by (simp add: drain_kept_def) blast
qed

lemma filter_unique:
  assumes "distinct (map f xs)" "x \<in> set xs" "P x" "\<And>y. y \<in> set xs \<Longrightarrow> P y \<Longrightarrow> f y = f x"
  shows "filter P xs = [x]"
proof -
  have "set (filter P xs) = {x}" using assms by (auto simp: distinct_map inj_on_def)
  moreover have "distinct (filter P xs)" using assms(1) by (simp add: distinct_map)
  ultimately show ?thesis by (cases "filter P xs"; cases "tl (filter P xs)") auto
qed

lemma sort_key_fixed: "sorted (map k xs) \<Longrightarrow> sort_key k xs = xs"
  by (rule sort_key_id_if_sorted)

text \<open>
  A drain sorts its cancellations by the bytes of the request identifiers when it seals them, and the database
  sorts them by its collation when they are read.  The two agree when the collation orders the identifiers of each
  invoice as their bytes do, in particular when no invoice has two cancellations.
\<close>

definition collates_frozen :: "(string \<Rightarrow> string) \<Rightarrow> db \<Rightarrow> uuid \<Rightarrow> bool" where
  "collates_frozen collate d drain \<longleftrightarrow>
     (\<forall>a \<in> set (db_drain_cancellations d). \<forall>b \<in> set (db_drain_cancellations d).
        dc_drain a = drain \<and> dc_drain b = drain \<and> dc_invoice a = dc_invoice b \<longrightarrow>
        (collate (dc_payment_request_id a) \<le> collate (dc_payment_request_id b) \<longleftrightarrow>
           dc_payment_request_id a \<le> dc_payment_request_id b))"

lemma one_request_collates:
  assumes "distinct (map dc_invoice (filter (\<lambda>c. dc_drain c = drain) (db_drain_cancellations d)))"
  shows "collates_frozen collate d drain"
proof -
  have "a = b" if "a \<in> set (db_drain_cancellations d)" "b \<in> set (db_drain_cancellations d)" "dc_drain a = drain" "dc_drain b = drain"
      "dc_invoice a = dc_invoice b" for a b
    using assms that by (auto simp: distinct_map inj_on_def)
  then show ?thesis by (auto simp: collates_frozen_def)
qed

lemma sorted_collated:
  assumes "sorted (map (\<lambda>x. (f x, g x, h x)) xs)"
    and "\<And>x y. x \<in> set xs \<Longrightarrow> y \<in> set xs \<Longrightarrow> f x = f y \<Longrightarrow> collate (g x) \<le> collate (g y) \<longleftrightarrow> g x \<le> g y"
  shows "sorted (map (\<lambda>x. (f x, collate (g x), h x)) xs)"
proof -
  have "(f x, collate (g x), h x) \<le> (f y, collate (g y), h y)"
    if "x \<in> set xs" "y \<in> set xs" "(f x, g x, h x) \<le> (f y, g y, h y)" for x y
  proof (cases "f x = f y")
    case True
    then show ?thesis using that(3) assms(2) [OF that(1,2)] assms(2) [OF that(2,1)] by (auto simp: less_eq_prod_def less_le)
  qed (use that(3) in \<open>auto simp: less_eq_prod_def\<close>)
  then show ?thesis unfolding sorted_map by (intro sorted_wrt_mono_rel [OF _ assms(1) [unfolded sorted_map]])
qed

lemma queued_kept:
  assumes "cancellation_queued d x" "drain_kept d e"
  shows "filter (\<lambda>r. ob_id r = pc_outbox x \<and> ob_drain_required r) (db_outbox e) \<noteq> [] \<and>
    (\<forall>r \<in> set (db_outbox e). ob_id r = pc_outbox x \<longrightarrow> ob_intent_envelope r = pc_envelope x)"
proof -
  from assms(1) obtain r where r: "r \<in> set (db_outbox d)" "ob_id r = pc_outbox x" "ob_drain_required r"
      "ob_intent_envelope r = pc_envelope x" by (auto simp: cancellation_queued_def)
  from assms(2) r(1) obtain r' where r': "r' \<in> set (db_outbox e)" "ob_id r' = ob_id r"
      "ob_intent_envelope r' = ob_intent_envelope r" "ob_drain_required r' = ob_drain_required r"
    unfolding drain_kept_def by metis
  have "distinct (map ob_id (db_outbox e))" using assms(2) by (simp add: drain_kept_def)
  then have "ob_intent_envelope q = pc_envelope x" if "q \<in> set (db_outbox e)" "ob_id q = pc_outbox x" for q
    using row_by_id [of "db_outbox e" q r'] that r' r by simp
  moreover have "r' \<in> set (filter (\<lambda>r. ob_id r = pc_outbox x \<and> ob_drain_required r) (db_outbox e))" using r r' by simp
  ultimately show ?thesis using emptyE by fastforce
qed

lemma drain_written_fresh:
  assumes "drain_written row cs xs d d'" "drains_ok d"
  shows "filter (\<lambda>c. dc_drain c = dn_id row) (db_drain_cancellations d) = []"
    "filter (\<lambda>i. di_drain i = dn_id row) (db_drain_items d) = []"
proof -
  have f: "dn_id row \<notin> dn_id ` set (db_drains d)" using assms(1) by (simp add: drain_written_def)
  have c: "dc_drain ` set (db_drain_cancellations d) \<subseteq> dn_id ` set (db_drains d)"
    and i: "di_drain ` set (db_drain_items d) \<subseteq> dn_id ` set (db_drains d)"
    using assms(2) by (simp_all add: drains_ok_def)
  show "filter (\<lambda>c. dc_drain c = dn_id row) (db_drain_cancellations d) = []"
    unfolding filter_empty_conv using f c by (metis imageI subsetD)
  show "filter (\<lambda>i. di_drain i = dn_id row) (db_drain_items d) = []"
    unfolding filter_empty_conv using f i by (metis imageI subsetD)
qed

lemma frozen_cancellations_sorted:
  assumes w: "drain_written row cs xs d d'" and k: "drain_kept d' e" and ok: "drains_ok d"
  shows "frozen_cancellations collate e (dn_id row) =
    sort_key (\<lambda>(invoice, request, outbox, envelope). (invoice, collate request, outbox)) (map frozen_row xs)"
proof -
  have rows: "filter (\<lambda>c. dc_drain c = dn_id row) (db_drain_cancellations e) = map (cancellation_of (dn_id row)) xs"
    using w k drain_written_fresh [OF w ok] by (simp add: drain_written_def drain_kept_def filter_map comp_def)
  have ids: "distinct (map ob_id (db_outbox e))" using k by (simp add: drain_kept_def)
  have one: "map (\<lambda>r. (pc_invoice x, pc_payment_request_id x, pc_outbox x, ob_intent_envelope r))
      (filter (\<lambda>r. ob_id r = pc_outbox x \<and> ob_drain_required r) (db_outbox e)) = [frozen_row x]" if "x \<in> set xs" for x
  proof -
    have "cancellation_queued d' x" using w that by (simp add: drain_written_def)
    note q = queued_kept [OF this k]
    from q obtain r where r: "r \<in> set (db_outbox e)" "ob_id r = pc_outbox x \<and> ob_drain_required r"
      by (auto simp: filter_empty_conv)
    have "filter (\<lambda>r. ob_id r = pc_outbox x \<and> ob_drain_required r) (db_outbox e) = [r]"
      by (rule filter_unique [OF ids r(1)]) (use r in simp_all)
    then show ?thesis using q r by (simp add: frozen_row_def)
  qed
  have "concat (map (\<lambda>c. map (\<lambda>r. (dc_invoice c, dc_payment_request_id c, dc_outbox c, ob_intent_envelope r))
      (filter (\<lambda>r. ob_id r = dc_outbox c \<and> ob_drain_required r) (db_outbox e)))
      (filter (\<lambda>c. dc_drain c = dn_id row) (db_drain_cancellations e))) = concat (map (\<lambda>x. [frozen_row x]) xs)"
    unfolding rows by (simp add: comp_def one cong: map_cong)
  also have "\<dots> = map frozen_row xs" by simp
  finally show ?thesis unfolding frozen_cancellations_def by simp
qed

lemma frozen_cancellations_read:
  assumes w: "drain_written row cs xs d d'" and k: "drain_kept d' e" and ok: "drains_ok d"
    and srt: "sorted (map (\<lambda>c. (pc_invoice c, pc_payment_request_id c, pc_outbox c)) xs)"
    and agrees: "collates_frozen collate d' (dn_id row)"
  shows "frozen_cancellations collate e (dn_id row) = map frozen_row xs"
proof -
  have mem: "cancellation_of (dn_id row) x \<in> set (db_drain_cancellations d')" if "x \<in> set xs" for x
    using w that by (auto simp: drain_written_def)
  have byte: "collate (pc_payment_request_id x) \<le> collate (pc_payment_request_id y) \<longleftrightarrow> pc_payment_request_id x \<le> pc_payment_request_id y"
    if "x \<in> set xs" "y \<in> set xs" "pc_invoice x = pc_invoice y" for x y
    using bspec [OF bspec [OF agrees [unfolded collates_frozen_def] mem [OF that(1)]] mem [OF that(2)]] that(3) by simp
  have "sorted (map (\<lambda>c. (pc_invoice c, collate (pc_payment_request_id c), pc_outbox c)) xs)"
    by (rule sorted_collated [OF srt]) (rule byte)
  then have "sorted (map (\<lambda>(invoice, request, outbox, envelope). (invoice, collate request, outbox)) (map frozen_row xs))"
    by (simp add: comp_def frozen_row_def)
  then show ?thesis unfolding frozen_cancellations_sorted [OF w k ok] by (rule sort_key_fixed)
qed

lemma drain_items_read:
  assumes w: "drain_written row cs xs d d'" and k: "drain_kept d' e" and ok: "drains_ok d"
  obtains inv where "drain_items e (dn_id row) = map (\<lambda>c. (item_of (dn_id row) c, inv (fst c))) cs"
    "\<forall>i \<in> fst ` set cs. inv i \<in> set (db_invoices e) \<and> iv_id (inv i) = i \<and> iv_creator (inv i) = dn_creator row \<and>
        iv_lock_hash (inv i) = dn_lock_hash row \<and> iv_lock_generation (inv i) = dn_generation row"
proof -
  have eids: "distinct (map iv_id (db_invoices e))" using k by (simp add: drain_kept_def)
  define inv where "inv i = hd (filter (\<lambda>v. iv_id v = i) (db_invoices e))" for i
  have inv: "filter (\<lambda>v. iv_id v = i) (db_invoices e) = [inv i] \<and> inv i \<in> set (db_invoices e) \<and> iv_id (inv i) = i \<and>
      iv_creator (inv i) = dn_creator row \<and> iv_lock_hash (inv i) = dn_lock_hash row \<and>
      iv_lock_generation (inv i) = dn_generation row" if i: "i \<in> fst ` set cs" for i
  proof -
    have "\<forall>i \<in> fst ` set cs. \<exists>v \<in> set (db_invoices d'). iv_id v = i \<and> iv_creator v = dn_creator row \<and>
        iv_lock_hash v = dn_lock_hash row \<and> iv_lock_generation v = dn_generation row"
      using w by (simp add: drain_written_def)
    with i obtain v where v: "v \<in> set (db_invoices d')" "iv_id v = i" "iv_creator v = dn_creator row"
      "iv_lock_hash v = dn_lock_hash row" "iv_lock_generation v = dn_generation row" by blast
    moreover have "\<forall>v \<in> set (db_invoices d'). \<exists>v' \<in> set (db_invoices e). iv_id v' = iv_id v \<and> iv_creator v' = iv_creator v \<and>
        iv_lock_hash v' = iv_lock_hash v \<and> iv_lock_generation v' = iv_lock_generation v"
      using k by (simp add: drain_kept_def)
    ultimately obtain v' where v': "v' \<in> set (db_invoices e)" "iv_id v' = i" "iv_creator v' = dn_creator row"
      "iv_lock_hash v' = dn_lock_hash row" "iv_lock_generation v' = dn_generation row" by force
    have "filter (\<lambda>v. iv_id v = i) (db_invoices e) = [v']"
      by (rule filter_unique [OF eids v'(1)]) (simp_all add: v'(2))
    then show ?thesis using v' by (simp add: inv_def)
  qed
  have rows: "filter (\<lambda>i. di_drain i = dn_id row) (db_drain_items e) = map (item_of (dn_id row)) cs"
    using w k drain_written_fresh [OF w ok] by (simp add: drain_written_def drain_kept_def filter_map comp_def case_prod_beta')
  have "drain_items e (dn_id row) = concat (map (\<lambda>c. [(item_of (dn_id row) c, inv (fst c))]) cs)"
    unfolding drain_items_def rows by (simp add: comp_def case_prod_beta' inv cong: map_cong)
  then have "drain_items e (dn_id row) = map (\<lambda>c. (item_of (dn_id row) c, inv (fst c))) cs" by simp
  then show thesis by (rule that) (simp add: inv)
qed

lemma frozen_items_read:
  assumes "drain_written row cs xs d d'" "drain_kept d' e" "drains_ok d"
    and "sorted (map fst cs)" "distinct (map fst cs)"
  shows "frozen_items collate e (dn_id row) =
    map (\<lambda>(i, c). (i, dn_creator row, dn_lock_hash row, dn_generation row, c)) cs"
proof -
  obtain inv where
    items: "drain_items e (dn_id row) = map (\<lambda>c. (item_of (dn_id row) c, inv (fst c))) cs"
    and inv: "\<forall>i \<in> fst ` set cs. inv i \<in> set (db_invoices e) \<and> iv_id (inv i) = i \<and>
      iv_creator (inv i) = dn_creator row \<and> iv_lock_hash (inv i) = dn_lock_hash row \<and>
      iv_lock_generation (inv i) = dn_generation row"
    by (rule drain_items_read [OF assms(1-3)])
  have "map (\<lambda>(item, v). (di_invoice item, iv_creator v, iv_lock_hash v, iv_lock_generation v, di_classification item))
      (drain_items e (dn_id row)) = map (\<lambda>(i, c). (i, dn_creator row, dn_lock_hash row, dn_generation row, c)) cs"
    unfolding items using inv by auto
  moreover have "sorted (map (\<lambda>c. (fst c, collate (snd c))) cs)"
    using assms(4,5) by (induction cs) (auto simp: less_eq_prod_def less_le rev_image_eqI)
  ultimately show ?thesis
    unfolding frozen_items_def by (simp, intro sort_key_fixed) (simp add: comp_def case_prod_beta')
qed

lemma new_drain_fields [simp]:
  "dn_id (new_drain env fresh c h n cs xs e) = df_drain_id fresh" "dn_creator (new_drain env fresh c h n cs xs e) = c"
  "dn_lock_hash (new_drain env fresh c h n cs xs e) = h" "dn_generation (new_drain env fresh c h n cs xs e) = n"
  "dn_envelope (new_drain env fresh c h n cs xs e) = e" "dn_created_at (new_drain env fresh c h n cs xs e) = df_now fresh"
  "dn_cancellations (new_drain env fresh c h n cs xs e) = int (length xs)"
  "dn_accepted (new_drain env fresh c h n cs xs e) = int (length (filter (\<lambda>(_, c). c = ''accepted'') cs))"
  "dn_terminal (new_drain env fresh c h n cs xs e) =
     int (length (filter (\<lambda>(_, c). c \<in> {''rejected'', ''canceled'', ''proposal_expired''}) cs))"
  by (simp_all add: new_drain_def Let_def)

text \<open>The rows a creation plans, writes and seals.\<close>

definition drain_created ::
  "('r, 'd) env \<Rightarrow> drain_fresh \<Rightarrow> drain_row \<Rightarrow> (uuid \<times> string) list \<Rightarrow> prepared_cancellation list \<Rightarrow> db \<Rightarrow> db \<Rightarrow> bool" where
  "drain_created env fresh row cs xs d d' \<longleftrightarrow>
     row = new_drain env fresh (dn_creator row) (dn_lock_hash row) (dn_generation row) cs xs (dn_envelope row) \<and>
     drain_written row cs xs d d' \<and> sorted (map fst cs) \<and> distinct (map fst cs) \<and>
     sorted (map (\<lambda>c. (pc_invoice c, pc_payment_request_id c, pc_outbox c)) xs)"

lemma created_validates:
  assumes "drain_created env fresh row cs xs d d'" "drain_kept d' e" "drains_ok d"
    and "collates_frozen collate d' (dn_id row)"
  shows "validate_frozen_sets env collate e row = Inr ()"
proof -
  have w: "drain_written row cs xs d d'" and srt: "sorted (map fst cs)" "distinct (map fst cs)"
      "sorted (map (\<lambda>c. (pc_invoice c, pc_payment_request_id c, pc_outbox c)) xs)"
    and row: "row = new_drain env fresh (dn_creator row) (dn_lock_hash row) (dn_generation row) cs xs (dn_envelope row)"
    using assms(1) by (simp_all add: drain_created_def)
  have "dn_cancellations row = int (length xs)"
    "dn_cancellation_set_hash row = cancellation_rows_hash (env_crypto env) (map frozen_row xs)"
    "dn_item_set_hash row = item_rows_hash (env_crypto env)
       (map (\<lambda>(i, c). (i, dn_creator row, dn_lock_hash row, dn_generation row, c)) cs)"
    by (subst row, simp add: new_drain_def Let_def)+
  then show ?thesis
    using frozen_cancellations_read [OF w assms(2,3) srt(3) assms(4)] frozen_items_read [OF w assms(2,3) srt(1,2)]
    by (simp add: validate_frozen_sets_def)
qed

text \<open>Under any other collation the database returns the sealed rows in another order, and unless the hashes collide
  every replay of the drain reports corruption.\<close>

lemma collation_mismatch_rejected:
  assumes "drain_created env fresh row cs xs d d'" "drain_kept d' e" "drains_ok d"
    and "cancellation_rows_hash (env_crypto env) (sort_key (\<lambda>(invoice, request, outbox, envelope). (invoice, collate request, outbox))
      (map frozen_row xs)) \<noteq> cancellation_rows_hash (env_crypto env) (map frozen_row xs)"
  shows "validate_frozen_sets env collate e row = Inl CorruptOrMissing"
proof -
  have w: "drain_written row cs xs d d'"
    and row: "row = new_drain env fresh (dn_creator row) (dn_lock_hash row) (dn_generation row) cs xs (dn_envelope row)"
    using assms(1) by (simp_all add: drain_created_def)
  have "dn_cancellations row = int (length xs)"
    "dn_cancellation_set_hash row = cancellation_rows_hash (env_crypto env) (map frozen_row xs)"
    by (subst row, simp add: new_drain_def Let_def)+
  then show ?thesis
    using assms(4) by (simp add: validate_frozen_sets_def frozen_cancellations_sorted [OF w assms(2,3)])
qed

lemma created_progress:
  assumes "drain_created env fresh row cs xs d d'" "drain_kept d' e" "drains_ok d"
  shows "progress_consistent e row" "progress_accepted e (dn_id row) + progress_terminal e (dn_id row) = dn_accepted row + dn_terminal row"
proof -
  have w: "drain_written row cs xs d d'"
    and row: "row = new_drain env fresh (dn_creator row) (dn_lock_hash row) (dn_generation row) cs xs (dn_envelope row)"
    using assms(1) by (simp_all add: drain_created_def)
  obtain inv where
    items: "drain_items e (dn_id row) = map (\<lambda>c. (item_of (dn_id row) c, inv (fst c))) cs"
    by (rule drain_items_read [OF w assms(2,3)])
  have n: "dn_accepted row = int (length (filter (\<lambda>(_, c). c = ''accepted'') cs))"
    "dn_terminal row = int (length (filter (\<lambda>(_, c). c \<in> {''rejected'', ''canceled'', ''proposal_expired''}) cs))"
    "dn_cancellations row = int (length xs)"
    by (subst row, simp)+
  have split: "length (filter (\<lambda>(i, c). c = ''accepted'' \<and> \<not> p i) zs) \<le> length (filter (\<lambda>(_, c). c = ''accepted'') zs) \<and>
      length (filter (\<lambda>(_, c). c \<in> {''rejected'', ''canceled'', ''proposal_expired''}) zs) \<le>
        length (filter (\<lambda>(i, c). c \<in> {''rejected'', ''canceled'', ''proposal_expired''} \<or> c = ''accepted'' \<and> p i) zs) \<and>
      length (filter (\<lambda>(i, c). c = ''accepted'' \<and> \<not> p i) zs) +
        length (filter (\<lambda>(i, c). c \<in> {''rejected'', ''canceled'', ''proposal_expired''} \<or> c = ''accepted'' \<and> p i) zs) =
      length (filter (\<lambda>(_, c). c = ''accepted'') zs) +
        length (filter (\<lambda>(_, c). c \<in> {''rejected'', ''canceled'', ''proposal_expired''}) zs)"
    for p :: "uuid \<Rightarrow> bool" and zs :: "(uuid \<times> string) list"
    by (induction zs) auto
  have a: "progress_accepted e (dn_id row) =
      int (length (filter (\<lambda>(i, c). c = ''accepted'' \<and> \<not> drained_invoice_done e (inv i)) cs))"
    "progress_terminal e (dn_id row) = int (length (filter (\<lambda>(i, c). c \<in> {''rejected'', ''canceled'', ''proposal_expired''}
      \<or> c = ''accepted'' \<and> drained_invoice_done e (inv i)) cs))"
    unfolding progress_accepted_def progress_terminal_def items by (simp_all add: filter_map comp_def case_prod_beta')
  have "cancellation_count e (dn_id row) = dn_cancellations row"
    using drain_written_fresh [OF w assms(3)] w assms(2)
    by (simp add: cancellation_count_def n drain_written_def drain_kept_def filter_map comp_def)
  with split [of "\<lambda>i. drained_invoice_done e (inv i)" cs]
  show "progress_consistent e row" "progress_accepted e (dn_id row) + progress_terminal e (dn_id row) = dn_accepted row + dn_terminal row"
    unfolding progress_consistent_def a n by linarith+
qed

lemma snapshot_replayed: "snapshot_of row b = Inr s \<Longrightarrow> ps_replayed s = b"
  by (auto simp: snapshot_of_def split: if_splits)

lemma create_inner_new:
  assumes "create_inner env collate fresh creator lock_resource evidence d = Inr (s, d')" "\<not> ps_replayed s"
    and "distinct (map ob_id (db_outbox d))"
  defines "h \<equiv> hash_of env lock_resource" and "ch \<equiv> hash_of env creator"
  obtains c n cs xs row where "find_creator_by_hash d ch = Inr c"
    "\<forall>r \<in> set (db_drains d). drain_key r \<noteq> (cr_id c, h)"
    "plan_drain env collate fresh (cr_id c) ch h evidence (ensure_generation (cr_id c) h d) = Inr (n, cs, xs)"
    "drain_created env fresh row cs xs (ensure_generation (cr_id c) h d) d'"
    "dn_id row = df_drain_id fresh" "dn_creator row = cr_id c" "dn_lock_hash row = h" "dn_generation row = n"
    "seal_column env (df_drain_nonce fresh) (ctx_payment_drain ch (dn_id row)) (Some lock_resource) = Inr (dn_envelope row)"
    "s = \<lparr>ps_drain_id = dn_id row, ps_created_at = dn_created_at row, ps_accepted_count = of_int (dn_accepted row),
      ps_terminal_count = of_int (dn_terminal row), ps_cancellation_enqueued_count = of_nat (length xs),
      ps_completed = (dn_accepted row = 0), ps_replayed = False\<rparr>"
proof -
  from assms(1) obtain c where c: "find_creator_by_hash d ch = Inr c"
    and rest: "(case find (\<lambda>row. dn_creator row = cr_id c \<and> dn_lock_hash row = h) (db_drains d) of
        Some existing \<Rightarrow>
          bindr (open_column env (ctx_payment_drain ch (dn_id existing)) (dn_envelope existing)) (\<lambda>plaintext.
          if plaintext \<noteq> lock_resource then Inl StoreConflict
          else
            bindr (exact_drain_replay env collate creator lock_resource (df_now fresh) d) (\<lambda>(replay, d').
            bindr (ok_or replay CorruptOrMissing) (\<lambda>snapshot. Inr (snapshot, d'))))
      | None \<Rightarrow> create_drain env collate fresh c lock_resource ch evidence d) = Inr (s, d')"
    unfolding create_inner_def Let_def bindr_eq_Inr h_def ch_def by blast
  have none: "find (\<lambda>row. dn_creator row = cr_id c \<and> dn_lock_hash row = h) (db_drains d) = None"
  proof (rule ccontr)
    assume "\<not> ?thesis"
    with rest have "exact_drain_replay env collate creator lock_resource (df_now fresh) d = Inr (Some s, d')"
      by (auto split: if_splits)
    with assms(2) show False
      by (auto simp: exact_drain_replay_def Let_def split: option.splits if_splits dest: snapshot_replayed)
  qed
  let ?d1 = "ensure_generation (cr_id c) h d"
  from rest none obtain n cs xs envelope where
    p: "plan_drain env collate fresh (cr_id c) ch h evidence ?d1 = Inr (n, cs, xs)"
    and e: "seal_column env (df_drain_nonce fresh) (ctx_payment_drain ch (df_drain_id fresh)) (Some lock_resource) = Inr envelope"
    and w: "write_drain (new_drain env fresh (cr_id c) h n cs xs envelope) cs xs ?d1 = Inr (s, d')"
    by (auto simp: create_drain_def Let_def h_def)
  let ?row = "new_drain env fresh (cr_id c) h n cs xs envelope"
  have adopted: "\<exists>r \<in> set (db_outbox ?d1). ob_id r = pc_outbox x \<and> ob_intent_envelope r = pc_envelope x"
    if "x \<in> set xs" "\<not> pc_insert x" for x
    using planned_cancellations [OF p that(1)] prepare_cancellation_Inr(3) that(2) by metis
  note written = write_drain_written [OF w adopted]
  show thesis
  proof (rule that [of c n cs xs ?row])
    show "\<forall>r \<in> set (db_drains d). drain_key r \<noteq> (cr_id c, h)"
      using none by (auto simp: find_None_iff drain_key_def)
    show "drain_created env fresh ?row cs xs ?d1 d'"
      using written(1) planned_invoices(1,2,4) [OF p] assms(3) by (simp add: drain_created_def)
  qed (use c p e written(2) assms(3) in simp_all)
qed

lemma find_last: "(\<And>x. x \<in> set xs \<Longrightarrow> \<not> p x) \<Longrightarrow> p y \<Longrightarrow> find p (xs @ [y]) = Some y"
  by (induction xs) auto

lemma current_created:
  assumes w: "drain_written row cs xs d d'" and k: "drain_kept d' e"
    and c: "find_creator_by_hash d ch = Inr c" "distinct (map cr_lookup_hash (db_creators d))"
    and row: "dn_creator row = cr_id c" "dn_lock_hash row = h"
    and other: "\<And>r. r \<in> set (db_drains d) \<Longrightarrow> drain_key r \<noteq> (cr_id c, h)"
  shows "current_drain e ch h = Some row"
proof -
  have mem: "c \<in> set (db_creators d)" "cr_lookup_hash c = ch" using c(1) by (auto simp: find_creator_by_hash_Inr find_Some_iff)
  have pairs: "map (\<lambda>c. (cr_id c, cr_lookup_hash c)) (db_creators e) = map (\<lambda>c. (cr_id c, cr_lookup_hash c)) (db_creators d)"
    using w k by (simp add: drain_written_def drain_kept_def)
  have owner: "list_ex (\<lambda>c. cr_id c = i \<and> cr_lookup_hash c = ch) (db_creators e) \<longleftrightarrow> i = cr_id c" for i
  proof -
    have "list_ex (\<lambda>c. cr_id c = i \<and> cr_lookup_hash c = ch) (db_creators e) \<longleftrightarrow> (i, ch) \<in> set (map (\<lambda>c. (cr_id c, cr_lookup_hash c)) (db_creators e))"
      by (auto simp: list_ex_iff)
    also have "\<dots> \<longleftrightarrow> i = cr_id c" unfolding pairs using mem c(2) by (auto simp: distinct_map inj_on_def)
    finally show ?thesis .
  qed
  from w obtain g where g: "g \<in> set (db_generations d)" "open_generation row g" by (auto simp: drain_written_def)
  have "g\<lparr>lg_active_drain := Some (dn_id row)\<rparr> \<in> set (db_generations d')"
    using w g by (auto simp: drain_written_def set_update_where)
  then have "g\<lparr>lg_active_drain := Some (dn_id row)\<rparr> \<in> set (db_generations e)" using k by (auto simp: drain_kept_def)
  then have live: "list_ex (\<lambda>g. lg_creator g = dn_creator row \<and> lg_lock_hash g = dn_lock_hash row \<and>
      lg_current_generation g = dn_generation row \<and> lg_active_drain g = Some (dn_id row)) (db_generations e)"
    unfolding list_ex_iff using g(2) by (intro bexI) simp_all
  have "db_drains e = db_drains d @ [row]" using w k by (simp add: drain_written_def drain_kept_def)
  then show ?thesis
    unfolding current_drain_def owner using other live row by (simp, intro find_last) (auto simp: drain_key_def)
qed

lemma created_counts:
  assumes "drain_created env fresh row cs xs d d'" "int (length (db_invoices d)) \<le> i64_max"
  shows "0 \<le> dn_accepted row" "0 \<le> dn_terminal row" "dn_accepted row + dn_terminal row < 2 ^ 64"
proof -
  have row: "row = new_drain env fresh (dn_creator row) (dn_lock_hash row) (dn_generation row) cs xs (dn_envelope row)"
    and w: "drain_written row cs xs d d'" and dist: "distinct (map fst cs)"
    using assms(1) by (simp_all add: drain_created_def)
  have a: "dn_accepted row = int (length (filter (\<lambda>(_, c). c = ''accepted'') cs))"
    and t: "dn_terminal row = int (length (filter (\<lambda>(_, c). c \<in> {''rejected'', ''canceled'', ''proposal_expired''}) cs))"
    by (subst row, simp)+
  have "\<forall>i \<in> fst ` set cs. \<exists>v \<in> set (db_invoices d). iv_id v = i" using w unfolding drain_written_def by blast
  then have "fst ` set cs \<subseteq> iv_id ` set (db_invoices d)" by (metis imageI subsetI)
  then have "card (fst ` set cs) \<le> card (iv_id ` set (db_invoices d))" by (intro card_mono) auto
  also have "\<dots> \<le> card (set (db_invoices d))" by (rule card_image_le) simp
  also have "\<dots> \<le> length (db_invoices d)" by (rule card_length)
  also have "card (fst ` set cs) = length cs" using distinct_card [OF dist] by simp
  finally have len: "int (length cs) \<le> i64_max" using assms(2) by linarith
  have "length (filter p zs) \<le> length zs" for p and zs :: "(uuid \<times> string) list" by simp
  then have "dn_accepted row \<le> int (length cs)" "dn_terminal row \<le> int (length cs)" unfolding a t by (simp_all del: length_filter_le add: length_filter_le)
  then show "dn_accepted row + dn_terminal row < 2 ^ 64" using len by (simp add: i64_max_def)
  show "0 \<le> dn_accepted row" "0 \<le> dn_terminal row" by (simp_all add: a t)
qed

lemma uint_count: "0 \<le> n \<Longrightarrow> n < 2 ^ 64 \<Longrightarrow> uint (of_int n :: u64) = n"
  by (simp add: unsigned_of_int take_bit_int_eq_self)

lemma count_eq_0: "0 \<le> n \<Longrightarrow> n < 2 ^ 64 \<Longrightarrow> (of_int n :: u64) = 0 \<longleftrightarrow> n = 0"
  using uint_count [of n] by (metis of_int_0 uint_count unsigned_0)

lemma snapshot_progressed:
  assumes "progress_accepted e (dn_id row) < 2 ^ 64" "0 \<le> dn_cancellations row"
  shows "snapshot_of (progressed now e row) b = Inr \<lparr>ps_drain_id = dn_id row, ps_created_at = dn_created_at row,
    ps_accepted_count = of_int (progress_accepted e (dn_id row)), ps_terminal_count = of_int (progress_terminal e (dn_id row)),
    ps_cancellation_enqueued_count = of_int (dn_cancellations row), ps_completed = (progress_accepted e (dn_id row) = 0),
    ps_replayed = b\<rparr>"
proof -
  have "0 \<le> progress_accepted e (dn_id row)" "0 \<le> progress_terminal e (dn_id row)"
    by (simp_all add: progress_accepted_def progress_terminal_def)
  then show ?thesis
    using assms count_eq_0 [of "progress_accepted e (dn_id row)"]
    by (auto simp: snapshot_of_def progressed_def Let_def drain_count_def word_gt_0)
qed

section \<open>What the classification covers\<close>

lemma mapr_total: "mapr f xs = Inr ys \<Longrightarrow> x \<in> set xs \<Longrightarrow> \<exists>y \<in> set ys. f x = Inr y"
  by (induction xs arbitrary: ys) auto

lemma drained_attempts:
  assumes "(i, as) \<in> set (drained_generation collate d c h n)"
  shows "\<exists>v \<in> set (generation_invoices d c h n). iv_id v = i \<and> set as = set (attempt_rows collate d v)"
proof -
  let ?vs = "sort_key iv_id (generation_invoices d c h n)"
  have i: "i \<in> iv_id ` set (generation_invoices d c h n)"
    using assms imageI [OF assms, of fst] unfolding drained_keys by simp
  have as: "as = filter (\<lambda>r. il_invoice r = i) (concat (map (attempt_rows collate d) ?vs))"
    using assms by (auto simp: attempts_by_invoice_def)
  from i obtain v where v: "v \<in> set (generation_invoices d c h n)" "iv_id v = i" by blast
  have same: "attempt_rows collate d w = attempt_rows collate d v" if "iv_id w = i" for w
  proof -
    from that v(2) have "iv_id w = iv_id v" by simp
    then show ?thesis unfolding attempt_rows_def by (simp only:)
  qed
  have inv: "il_invoice r = iv_id w" if "r \<in> set (attempt_rows collate d w)" for r w
    using that attempt_rows_invoice [of collate d w] by (metis imageI singletonD)
  have "set as = set (attempt_rows collate d v)"
  proof (intro equalityI subsetI)
    fix r assume "r \<in> set as"
    then obtain w where "r \<in> set (attempt_rows collate d w)" "il_invoice r = i" by (auto simp: as)
    then show "r \<in> set (attempt_rows collate d v)" using same inv by metis
  next
    fix r assume "r \<in> set (attempt_rows collate d v)"
    then show "r \<in> set as" using v inv by (auto simp: as)
  qed
  then show ?thesis using v by blast
qed

lemma attempt_of_lifecycle:
  assumes "r \<in> set (db_lifecycles d)" "lr_invoice r = Some (iv_id v)"
  shows "\<exists>a \<in> set (attempt_rows collate d v). il_request_state a = Some (lr_request_state r) \<and>
    il_payment_request_id a = Some (lr_payment_request_id r)"
proof -
  let ?rows = "filter (\<lambda>r. lr_invoice r = Some (iv_id v)) (db_lifecycles d)"
  have r: "r \<in> set ?rows" using assms by simp
  then obtain x xs where rows: "?rows = x # xs" by (cases ?rows) auto
  have "set (sort_key (\<lambda>r. collate (lr_payment_request_id r)) (x # xs)) = set ?rows" unfolding rows by (rule set_sort)
  with r show ?thesis by (simp only: attempt_rows_def rows list.case) fastforce
qed

lemma lifecycle_of_attempt:
  assumes "a \<in> set (attempt_rows collate d v)" "il_request_state a = Some t"
  shows "\<exists>r \<in> set (db_lifecycles d). lr_invoice r = Some (iv_id v) \<and> lr_request_state r = t"
proof (cases "filter (\<lambda>r. lr_invoice r = Some (iv_id v)) (db_lifecycles d)")
  case Nil
  then show ?thesis using assms by (simp add: attempt_rows_def)
next
  case (Cons x xs)
  have "set (x # xs) = {r \<in> set (db_lifecycles d). lr_invoice r = Some (iv_id v)}" unfolding Cons [symmetric] by simp
  then show ?thesis using assms by (auto simp: attempt_rows_def Cons set_insort_key)
qed

lemma fallback_attempt:
  assumes "a \<in> set (attempt_rows collate d v)"
  shows "il_terminal_fallback a \<in> {None, Some ''canceled'', Some ''proposal_expired''}"
  using assms by (auto simp: attempt_rows_def terminal_fallback_def split: list.splits if_splits)

lemma accepted_attempts:
  assumes "set as = set (attempt_rows collate d v)" "mapr parse_attempt as = Inr parsed"
  shows "(\<exists>p \<in> set parsed. accepted_state (fst p)) \<longleftrightarrow>
    (\<exists>r \<in> set (db_lifecycles d). lr_invoice r = Some (iv_id v) \<and>
      (\<exists>st. request_state_parse (lr_request_state r) = Some st \<and> accepted_state st))"
proof
  assume "\<exists>p \<in> set parsed. accepted_state (fst p)"
  then obtain p where p: "p \<in> set parsed" "accepted_state (fst p)" by blast
  from mapr_mem [OF assms(2) p(1)] obtain a where a: "a \<in> set (attempt_rows collate d v)" "parse_attempt a = Inr p"
    using assms(1) by auto
  show "\<exists>r \<in> set (db_lifecycles d). lr_invoice r = Some (iv_id v) \<and>
      (\<exists>st. request_state_parse (lr_request_state r) = Some st \<and> accepted_state st)"
  proof (cases "il_request_state a")
    case None
    with a(2) fallback_attempt [OF a(1)] p(2) show ?thesis
      by (auto simp: parse_attempt_def request_state_parse_def)
  next
    case (Some t)
    with a(2) have "request_state_parse t = Some (fst p)" by (auto simp: parse_attempt_def)
    with lifecycle_of_attempt [OF a(1) Some] p(2) show ?thesis by blast
  qed
next
  assume "\<exists>r \<in> set (db_lifecycles d). lr_invoice r = Some (iv_id v) \<and>
      (\<exists>st. request_state_parse (lr_request_state r) = Some st \<and> accepted_state st)"
  then obtain r st where r: "r \<in> set (db_lifecycles d)" "lr_invoice r = Some (iv_id v)"
    and st: "request_state_parse (lr_request_state r) = Some st" "accepted_state st" by blast
  from attempt_of_lifecycle [OF r] obtain a where a: "a \<in> set as" "il_request_state a = Some (lr_request_state r)"
    using assms(1) by blast
  from mapr_total [OF assms(2) a(1)] obtain p where p: "p \<in> set parsed" "parse_attempt a = Inr p" by blast
  from p(2) have "fst p = st" using a(2) st(1) by (auto simp: parse_attempt_def)
  then show "\<exists>p \<in> set parsed. accepted_state (fst p)" using p(1) st(2) by blast
qed

lemma classify_accepted:
  "classify parsed = Inr c \<Longrightarrow> c = ''accepted'' \<longleftrightarrow> (\<exists>p \<in> set parsed. accepted_state (fst p))"
  by (auto simp: classify_def list_ex_iff case_prod_beta' split: if_splits request_state.split_asm)
    (metis request_state.exhaust)

lemma planned_classification:
  assumes "plan_drain env collate fresh c ch h evidence d = Inr (n, cs, xs)" "(i, k) \<in> set cs"
  shows "k = ''accepted'' \<longleftrightarrow> (\<exists>r \<in> set (db_lifecycles d). lr_invoice r = Some i \<and>
      (\<exists>st. request_state_parse (lr_request_state r) = Some st \<and> accepted_state st))"
proof -
  obtain drained where m: "mapr (drain_invoice env fresh d c ch) (drained_generation collate d c h n) = Inr drained"
    and cs: "cs = map fst drained" by (rule plan_drain_Inr [OF assms(1)])
  from assms(2) cs obtain y where y: "y \<in> set drained" "fst y = (i, k)" by auto
  from mapr_mem [OF m y(1)] obtain as where as: "(i, as) \<in> set (drained_generation collate d c h n)"
    "drain_invoice env fresh d c ch (i, as) = Inr y" using y(2) drain_invoice_fst by fastforce
  from as(2) y(2) obtain parsed where parsed: "mapr parse_attempt as = Inr parsed" "classify parsed = Inr k"
    by (auto simp: drain_invoice_def)
  from drained_attempts [OF as(1)] obtain v where "iv_id v = i" "set as = set (attempt_rows collate d v)" by blast
  with accepted_attempts [OF this(2) parsed(1)] classify_accepted [OF parsed(2)] show ?thesis by simp
qed

lemma planned_proposed:
  assumes "plan_drain env collate fresh c ch h evidence d = Inr (n, cs, xs)"
    and v: "v \<in> set (generation_invoices d c h n)"
    and r: "r \<in> set (db_lifecycles d)" "lr_invoice r = Some (iv_id v)" "lr_request_state r = ''proposed''"
  shows "\<exists>x \<in> set xs. pc_invoice x = iv_id v \<and> pc_payment_request_id x = lr_payment_request_id r"
proof -
  obtain drained where m: "mapr (drain_invoice env fresh d c ch) (drained_generation collate d c h n) = Inr drained"
    and xs: "xs = sort_key (\<lambda>c. (pc_invoice c, pc_payment_request_id c, pc_outbox c)) (concat (map snd drained))"
    by (rule plan_drain_Inr [OF assms(1)])
  have "iv_id v \<in> fst ` set (drained_generation collate d c h n)" unfolding drained_keys using v by simp
  then obtain as where as: "(iv_id v, as) \<in> set (drained_generation collate d c h n)" by auto
  from drained_attempts [OF as] obtain w where w: "iv_id w = iv_id v" "set as = set (attempt_rows collate d w)" by blast
  from attempt_of_lifecycle [OF r(1), of w] r(2) w obtain a where a: "a \<in> set as"
    "il_request_state a = Some (lr_request_state r)" "il_payment_request_id a = Some (lr_payment_request_id r)" by auto
  from mapr_total [OF m as] obtain y where y: "y \<in> set drained" "drain_invoice env fresh d c ch (iv_id v, as) = Inr y"
    by blast
  then obtain parsed where parsed: "mapr parse_attempt as = Inr parsed"
    and prep: "prepare_cancellations env fresh d c ch (iv_id v) (filter (\<lambda>(st, _). st = Proposed) parsed) = Inr (snd y)"
    by (auto simp: drain_invoice_def)
  from mapr_total [OF parsed a(1)] obtain p where p: "p \<in> set parsed" "parse_attempt a = Inr p" by blast
  from p(2) a(2,3) r(3) obtain at' where "p = (Proposed, Some (lr_payment_request_id r), at')"
    by (auto simp: parse_attempt_def request_state_parse_def)
  then have q: "(Proposed, Some (lr_payment_request_id r), at') \<in> set (filter (\<lambda>(st, _). st = Proposed) parsed)"
    using p(1) by simp
  with prep obtain proposal where
    "mapr (\<lambda>(_, request, _). prepare_cancellation env fresh d c ch (iv_id v) proposal request)
       (filter (\<lambda>(st, _). st = Proposed) parsed) = Inr (snd y)"
    by (auto simp: prepare_cancellations_def split: if_splits)
  from mapr_total [OF this q] obtain x where x: "x \<in> set (snd y)"
    "prepare_cancellation env fresh d c ch (iv_id v) proposal (Some (lr_payment_request_id r)) = Inr x" by auto
  have "x \<in> set xs" using x(1) y(1) xs by auto
  then show ?thesis using prepare_cancellation_Inr(1,2) [OF x(2)] by auto
qed

definition request_cancelled :: "('r, 'd) env \<Rightarrow> lookup_hash \<Rightarrow> db \<Rightarrow> uuid \<Rightarrow> uuid \<Rightarrow> string \<Rightarrow> bool" where
  "request_cancelled env ch d drain i request \<longleftrightarrow>
     (\<exists>x \<in> set (db_drain_cancellations d). dc_drain x = drain \<and> dc_invoice x = i \<and> dc_payment_request_id x = request \<and>
       (\<exists>row \<in> set (db_outbox d). ob_id row = dc_outbox x \<and> ob_drain_required row \<and> ob_status row \<noteq> ''permanently_failed'' \<and>
         (\<exists>intent. open_intent env ch (ob_id row) (ob_intent_envelope row) = Inr intent \<and>
           intent_operation intent = PaymentRequestCancellation request)))"

lemma created_cancellation:
  assumes plan: "plan_drain env collate fresh c ch h evidence d = Inr (n, cs, xs)" and w: "drain_written row cs xs d d'"
    and v: "v \<in> set (generation_invoices d c h n)"
    and r: "r \<in> set (db_lifecycles d)" "lr_invoice r = Some (iv_id v)" "lr_request_state r = ''proposed''"
    and env: "aead_correct (prims (env_crypto env))" "codecs_ok env" "drain_nonces_ok fresh"
  shows "request_cancelled env ch d' (dn_id row) (iv_id v) (lr_payment_request_id r)"
proof -
  from planned_proposed [OF plan v r] obtain x where x: "x \<in> set xs" "pc_invoice x = iv_id v"
    "pc_payment_request_id x = lr_payment_request_id r" by auto
  from planned_cancellations [OF plan x(1)] obtain p where
    "prepare_cancellation env fresh d c ch (pc_invoice x) p (Some (pc_payment_request_id x)) = Inr x" .
  from prepare_cancellation_Inr(4) [OF this env] have "cancels env ch x" .
  moreover have "cancellation_queued d' x" "cancellation_of (dn_id row) x \<in> set (db_drain_cancellations d')"
    using w x(1) by (auto simp: drain_written_def)
  ultimately show ?thesis
    unfolding request_cancelled_def using x(2,3)
    by (intro bexI [of _ "cancellation_of (dn_id row) x"]) (auto simp: cancels_def cancellation_queued_def)
qed

section \<open>What a cleanup does\<close>

lemma find_update_where:
  "(\<And>x. p x \<Longrightarrow> q (f x) = q x) \<Longrightarrow> find q (update_where p f xs) = map_option (\<lambda>x. if p x then f x else x) (find q xs)"
  by (induction xs) auto

lemma find_by_key: "distinct (map f xs) \<Longrightarrow> x \<in> set xs \<Longrightarrow> find (\<lambda>y. f y = f x) xs = Some x"
  by (induction xs) (auto simp: rev_image_eqI)

lemma delete_drain_Inr:
  assumes "delete_drain drain d = Inr d'" "find (\<lambda>row. dn_id row = drain) (db_drains d) = Some row"
  shows "dn_status row = ''completed''"
    "d' = d\<lparr>db_generations := update_where (\<lambda>g. lg_creator g = dn_creator row \<and> lg_lock_hash g = dn_lock_hash row \<and>
          lg_active_drain g = Some drain)
        (\<lambda>g. g\<lparr>lg_current_generation := lg_current_generation g + 1, lg_active_drain := None\<rparr>) (db_generations d),
      db_drains := filter (\<lambda>r. dn_id r \<noteq> drain) (db_drains d),
      db_drain_items := filter (\<lambda>i. di_drain i \<noteq> drain) (db_drain_items d),
      db_drain_cancellations := filter (\<lambda>c. dc_drain c \<noteq> drain) (db_drain_cancellations d)\<rparr>"
  using assms by (auto simp: delete_drain_def Let_def find_Some_iff split: if_splits)

lemma cleanup_replays:
  assumes "find (\<lambda>c. cr_lookup_hash c = hash_of env creator) (db_creators d) = Some c"
    and "find_generation d (cr_id c) (hash_of env lock_resource) = Some g" "lg_active_drain g = None"
    and "lg_last_cleanup_token g = Some token" "\<not> has_drain d (cr_id c) (hash_of env lock_resource)"
  shows "cleanup_completed env collate creator lock_resource t d = (if t = token then Inr d else Inl StoreConflict)"
  using assms by (simp add: cleanup_completed_def cleanup_receipt_def)

lemma cleanup_completed_Inr:
  assumes "cleanup_completed env collate creator lock_resource token d = Inr d'" "drains_ok d"
  defines "h \<equiv> hash_of env lock_resource"
  obtains c g where "find (\<lambda>c. cr_lookup_hash c = hash_of env creator) (db_creators d) = Some c"
      "find_generation d (cr_id c) h = Some g" "d' = d" "lg_active_drain g = None"
      "lg_last_cleanup_token g = Some token" "\<not> has_drain d (cr_id c) h"
  | c g row where "find (\<lambda>c. cr_lookup_hash c = hash_of env creator) (db_creators d) = Some c"
      "find_generation d (cr_id c) h = Some g" "row \<in> set (db_drains d)" "lg_active_drain g = Some (dn_id row)"
      "drain_key row = (cr_id c, h)" "dn_generation row = lg_current_generation g"
      "cleanup_ready env collate (hash_of env creator) lock_resource token d row = Inr ()"
      "delete_drain (dn_id row) (d\<lparr>db_generations := update_where
         (\<lambda>g. lg_creator g = cr_id c \<and> lg_lock_hash g = h) (\<lambda>g. g\<lparr>lg_last_cleanup_token := Some token\<rparr>) (db_generations d)\<rparr>) = Inr d'"
proof -
  from assms(1) obtain c g where c: "find (\<lambda>c. cr_lookup_hash c = hash_of env creator) (db_creators d) = Some c"
    and g: "find_generation d (cr_id c) h = Some g"
    by (auto simp: cleanup_completed_def Let_def h_def split: option.splits if_splits)
  show thesis
  proof (cases "lg_active_drain g")
    case None
    with assms(1) c g have "d' = d \<and> lg_last_cleanup_token g = Some token \<and> \<not> has_drain d (cr_id c) h"
      by (auto simp: cleanup_completed_def Let_def h_def [symmetric] cleanup_receipt_def split: if_splits)
    with None c g that(1) show thesis by blast
  next
    case (Some drain)
    with assms(1) c g obtain row where
      row: "find (\<lambda>row. dn_id row = drain \<and> dn_creator row = cr_id c \<and> dn_lock_hash row = h \<and>
         dn_generation row = lg_current_generation g) (db_drains d) = Some row"
      and ready: "cleanup_ready env collate (hash_of env creator) lock_resource token d row = Inr ()"
      and del: "delete_drain (dn_id row) (d\<lparr>db_generations := update_where
         (\<lambda>g. lg_creator g = cr_id c \<and> lg_lock_hash g = h) (\<lambda>g. g\<lparr>lg_last_cleanup_token := Some token\<rparr>) (db_generations d)\<rparr>) = Inr d'"
      by (auto simp: cleanup_completed_def Let_def h_def [symmetric])
    have "row \<in> set (db_drains d)" "dn_id row = drain" "drain_key row = (cr_id c, h)" "dn_generation row = lg_current_generation g"
      using row by (auto simp: find_Some_iff drain_key_def)
    with Some c g ready del that(2) show thesis by blast
  qed
qed

section \<open>Properties of drains\<close>

text \<open>What of a drain a replay does not write.\<close>

definition drain_core :: "drain_row \<Rightarrow> uuid \<times> uuid \<times> string \<times> string \<times> int \<times> int \<times> string \<times> string \<times> int" where
  "drain_core r = (dn_id r, dn_creator r, dn_lock_hash r, dn_envelope r, dn_generation r, dn_cancellations r,
     dn_cancellation_set_hash r, dn_item_set_hash r, dn_created_at r)"

lemma progressed_core [simp]: "drain_core (progressed now d r) = drain_core r"
  by (simp add: drain_core_def progressed_def Let_def)

lemma drains_irrelevant [simp]:
  "validate_frozen_sets env collate (e\<lparr>db_drains := rows\<rparr>) r = validate_frozen_sets env collate e r"
  "progress_accepted (e\<lparr>db_drains := rows\<rparr>) i = progress_accepted e i"
  "progress_terminal (e\<lparr>db_drains := rows\<rparr>) i = progress_terminal e i"
  "cancellation_count (e\<lparr>db_drains := rows\<rparr>) i = cancellation_count e i"
  by (simp_all add: validate_frozen_sets_def frozen_cancellations_def frozen_items_def drain_items_def
      progress_accepted_def progress_terminal_def cancellation_count_def drained_invoice_done_def)

lemma validate_core: "drain_core r = drain_core r' \<Longrightarrow> validate_frozen_sets env collate e r = validate_frozen_sets env collate e r'"
  by (simp add: validate_frozen_sets_def drain_core_def)

lemma find_same_core:
  assumes "map core xs = map core ys" "\<And>x y. core x = core y \<Longrightarrow> P x = P y" "find P ys = Some y"
  shows "\<exists>x \<in> set xs. find P xs = Some x \<and> core x = core y"
  using assms(1,3)
proof (induction xs arbitrary: ys)
  case (Cons x xs)
  then obtain z zs where ys: "ys = z # zs" "core x = core z" "map core xs = map core zs" by (cases ys) auto
  then show ?case using Cons.prems(2) Cons.IH [OF ys(3)] assms(2) [OF ys(2)] by (auto split: if_splits)
qed simp

lemma current_same_core:
  assumes "current_drain (e\<lparr>db_drains := rows\<rparr>) ch h = Some row" "map drain_core (db_drains e) = map drain_core rows"
  obtains row' where "current_drain e ch h = Some row'" "drain_core row' = drain_core row" "row' \<in> set (db_drains e)"
proof -
  let ?P = "\<lambda>row. dn_lock_hash row = h \<and>
        list_ex (\<lambda>c. cr_id c = dn_creator row \<and> cr_lookup_hash c = ch) (db_creators e) \<and>
        list_ex (\<lambda>g. lg_creator g = dn_creator row \<and> lg_lock_hash g = dn_lock_hash row \<and>
          lg_current_generation g = dn_generation row \<and> lg_active_drain g = Some (dn_id row)) (db_generations e)"
  have "find ?P rows = Some row" using assms(1) by (simp add: current_drain_def)
  from find_same_core [OF assms(2) _ this] show thesis
    using that by (auto simp: drain_core_def current_drain_def)
qed

lemma replay_tracked:
  assumes "drain_created env fresh row cs xs d d'" "drains_ok d" "int (length (db_invoices d)) \<le> i64_max"
    and "collates_frozen collate d' (dn_id row)" "drain_kept d' (e\<lparr>db_drains := db_drains d'\<rparr>)"
    and "current_drain e (hash_of env creator) (hash_of env lock_resource) = Some row'" "drain_core row' = drain_core row"
    and "dn_accepted row' + dn_terminal row' = dn_accepted row + dn_terminal row"
    and "open_column env (ctx_payment_drain (hash_of env creator) (dn_id row)) (dn_envelope row) = Inr lock_resource"
  shows "exact_drain_replay env collate creator lock_resource now e =
      (if progress_accepted e (dn_id row) \<le> dn_accepted row' then
         Inr (Some \<lparr>ps_drain_id = dn_id row, ps_created_at = dn_created_at row,
           ps_accepted_count = of_int (progress_accepted e (dn_id row)),
           ps_terminal_count = of_int (progress_terminal e (dn_id row)),
           ps_cancellation_enqueued_count = of_int (dn_cancellations row),
           ps_completed = (progress_accepted e (dn_id row) = 0), ps_replayed = True\<rparr>,
           e\<lparr>db_drains := update_where (\<lambda>r. dn_id r = dn_id row) (progressed now e) (db_drains e)\<rparr>)
       else Inl CorruptOrMissing)"
    and "progress_accepted e (dn_id row) \<le> dn_accepted row"
    and "progress_accepted e (dn_id row) + progress_terminal e (dn_id row) = dn_accepted row + dn_terminal row"
proof -
  note progress = created_progress [OF assms(1,5,2)]
  note counts = created_counts [OF assms(1,3)]
  have same: "dn_id row' = dn_id row" "dn_envelope row' = dn_envelope row" "dn_created_at row' = dn_created_at row"
    "dn_cancellations row' = dn_cancellations row" using assms(7) by (simp_all add: drain_core_def)
  have cancels: "0 \<le> dn_cancellations row"
    using assms(1) unfolding drain_created_def by (metis new_drain_fields(7) of_nat_0_le_iff)
  show le: "progress_accepted e (dn_id row) \<le> dn_accepted row" using progress(1) by (simp add: progress_consistent_def)
  show total: "progress_accepted e (dn_id row) + progress_terminal e (dn_id row) = dn_accepted row + dn_terminal row"
    using progress(2) by simp
  have "cancellation_count e (dn_id row) = dn_cancellations row" using progress(1) by (simp add: progress_consistent_def)
  then have consistent: "progress_consistent e row' \<longleftrightarrow> progress_accepted e (dn_id row) \<le> dn_accepted row'"
    using total assms(8) by (auto simp: progress_consistent_def same)
  have valid: "validate_frozen_sets env collate e row' = Inr ()"
    using created_validates [OF assms(1,5,2,4)] validate_core [OF assms(7), of env collate e] by simp
  have "progress_accepted e (dn_id row') < 2 ^ 64" using counts le by (simp add: same)
  note snapshot = snapshot_progressed [OF this, of now True]
  show "exact_drain_replay env collate creator lock_resource now e =
      (if progress_accepted e (dn_id row) \<le> dn_accepted row' then
         Inr (Some \<lparr>ps_drain_id = dn_id row, ps_created_at = dn_created_at row,
           ps_accepted_count = of_int (progress_accepted e (dn_id row)),
           ps_terminal_count = of_int (progress_terminal e (dn_id row)),
           ps_cancellation_enqueued_count = of_int (dn_cancellations row),
           ps_completed = (progress_accepted e (dn_id row) = 0), ps_replayed = True\<rparr>,
           e\<lparr>db_drains := update_where (\<lambda>r. dn_id r = dn_id row) (progressed now e) (db_drains e)\<rparr>)
       else Inl CorruptOrMissing)"
    using assms(6,9) valid consistent snapshot cancels by (simp add: exact_drain_replay_def same)
qed

text \<open>C29: A new drain covers its generation.  It freezes one item for each invoice of the lock's current
  generation and for no other, classified accepted exactly when some recorded request of the invoice is
  accepted.  Every recorded request that is still only proposed gets a cancellation of exactly that
  request, sealed in a required outbox row that is not failed, and the generation is fenced by the drain.\<close>

theorem drain_covers_generation:
  assumes "create_inner env collate fresh creator lock_resource evidence d = Inr (s, d')" "\<not> ps_replayed s"
    and "keys_ok d" "drains_ok d" "aead_correct (prims (env_crypto env))" "codecs_ok env" "drain_nonces_ok fresh"
  shows "\<exists>c g. find_creator_by_hash d' (hash_of env creator) = Inr c \<and>
    g \<in> set (db_generations d') \<and> lg_creator g = cr_id c \<and> lg_lock_hash g = hash_of env lock_resource \<and>
    lg_active_drain g = Some (ps_drain_id s) \<and>
    (let invoices = generation_invoices d' (cr_id c) (hash_of env lock_resource) (lg_current_generation g);
         items = filter (\<lambda>i. di_drain i = ps_drain_id s) (db_drain_items d') in
      distinct (map di_invoice items) \<and> di_invoice ` set items = iv_id ` set invoices \<and>
      (\<forall>i \<in> set items. di_classification i = ''accepted'' \<longleftrightarrow>
        (\<exists>r \<in> set (db_lifecycles d'). lr_invoice r = Some (di_invoice i) \<and>
          (\<exists>st. request_state_parse (lr_request_state r) = Some st \<and> accepted_state st))) \<and>
      (\<forall>v \<in> set invoices. \<forall>r \<in> set (db_lifecycles d'). lr_invoice r = Some (iv_id v) \<and> lr_request_state r = ''proposed'' \<longrightarrow>
        request_cancelled env (hash_of env creator) d' (ps_drain_id s) (iv_id v) (lr_payment_request_id r)))"
proof -
  let ?h = "hash_of env lock_resource" and ?ch = "hash_of env creator"
  have keys: "distinct (map ob_id (db_outbox d))" using assms(3) by (simp add: keys_ok_def)
  obtain c n cs xs row where c: "find_creator_by_hash d ?ch = Inr c"
    and plan: "plan_drain env collate fresh (cr_id c) ?ch ?h evidence (ensure_generation (cr_id c) ?h d) = Inr (n, cs, xs)"
    and created: "drain_created env fresh row cs xs (ensure_generation (cr_id c) ?h d) d'"
    and row: "dn_creator row = cr_id c" "dn_lock_hash row = ?h" "dn_generation row = n"
    and s: "s = \<lparr>ps_drain_id = dn_id row, ps_created_at = dn_created_at row, ps_accepted_count = of_int (dn_accepted row),
      ps_terminal_count = of_int (dn_terminal row), ps_cancellation_enqueued_count = of_nat (length xs),
      ps_completed = (dn_accepted row = 0), ps_replayed = False\<rparr>"
    by (rule create_inner_new [OF assms(1,2) keys])
  let ?d1 = "ensure_generation (cr_id c) ?h d"
  have w: "drain_written row cs xs ?d1 d'" using created by (simp add: drain_created_def)
  from w obtain g where g: "g \<in> set (db_generations ?d1)" "open_generation row g" by (auto simp: drain_written_def)
  let ?g = "g\<lparr>lg_active_drain := Some (dn_id row)\<rparr>"
  have g': "?g \<in> set (db_generations d')" using w g by (auto simp: drain_written_def set_update_where)
  have items: "filter (\<lambda>i. di_drain i = dn_id row) (db_drain_items d') = map (item_of (dn_id row)) cs"
    using w drain_written_fresh [OF w drains_ok_ensure [OF assms(4)]]
    by (simp add: drain_written_def filter_map comp_def case_prod_beta')
  have tables: "db_invoices d' = db_invoices d" "db_lifecycles d' = db_lifecycles d" "db_creators d' = db_creators d"
    using w by (simp_all add: drain_written_def)
  have invoices: "generation_invoices d' (cr_id c) ?h n = generation_invoices ?d1 (cr_id c) ?h n"
    by (simp add: generation_invoices_def tables)
  have cancel: "request_cancelled env ?ch d' (dn_id row) (iv_id v) (lr_payment_request_id r)"
    if "v \<in> set (generation_invoices ?d1 (cr_id c) ?h n)"
      and "r \<in> set (db_lifecycles d)" "lr_invoice r = Some (iv_id v)" "lr_request_state r = ''proposed''" for v r
    using created_cancellation [OF plan w that(1) _ that(3,4) assms(5-7)] that(2) by simp
  have "distinct (map fst cs)" "fst ` set cs = iv_id ` set (generation_invoices ?d1 (cr_id c) ?h n)"
    by (rule planned_invoices [OF plan])+
  moreover have "k = ''accepted'' \<longleftrightarrow> (\<exists>r \<in> set (db_lifecycles d). lr_invoice r = Some i \<and>
      (\<exists>st. request_state_parse (lr_request_state r) = Some st \<and> accepted_state st))" if "(i, k) \<in> set cs" for i k
    using planned_classification [OF plan that] by simp
  ultimately show ?thesis
    using c g g' row cancel invoices
    by (intro exI [of _ c] exI [of _ ?g])
      (auto simp: s items tables Let_def find_creator_by_hash_def comp_def case_prod_beta' image_image)
qed

text \<open>C30: A cleanup removes a drain once.  It succeeds only with the token of the drain and when no accepted
  invoice is left, or with the token of the last cleanup; it leaves no drain on the lock, opens the next
  generation and keeps the invoices, requests, observations and the outbox.  Repeating it with the same
  token changes nothing, and any other token is then a conflict.\<close>

theorem cleanup_removes_drain_once:
  assumes "cleanup_completed env collate creator lock_resource token d = Inr d'" "drains_ok d"
  shows "\<exists>c g g'. find (\<lambda>c. cr_lookup_hash c = hash_of env creator) (db_creators d) = Some c \<and>
    find_generation d (cr_id c) (hash_of env lock_resource) = Some g \<and>
    find_generation d' (cr_id c) (hash_of env lock_resource) = Some g' \<and>
    lg_active_drain g' = None \<and> \<not> has_drain d' (cr_id c) (hash_of env lock_resource) \<and>
    db_invoices d' = db_invoices d \<and> db_lifecycles d' = db_lifecycles d \<and> db_observations d' = db_observations d \<and>
    db_outbox d' = db_outbox d \<and>
    (case lg_active_drain g of
       None \<Rightarrow> d' = d \<and> lg_last_cleanup_token g = Some token
     | Some drain \<Rightarrow> token = payment_drain_cleanup_token (env_crypto env) drain \<and> progress_accepted d drain = 0 \<and>
         lg_current_generation g' = lg_current_generation g + 1) \<and>
    (\<forall>t. cleanup_completed env collate creator lock_resource t d' = (if t = token then Inr d' else Inl StoreConflict))"
  using assms
proof (cases rule: cleanup_completed_Inr)
  case (1 c g)
  show ?thesis
    using 1 cleanup_replays [OF 1(1,2,4,5,6)]
    by (intro exI [of _ c] exI [of _ g]) simp
next
  case (2 c g row)
  let ?h = "hash_of env lock_resource"
  let ?touch = "\<lambda>g. g\<lparr>lg_last_cleanup_token := Some token\<rparr>"
  let ?d0 = "d\<lparr>db_generations := update_where (\<lambda>g. lg_creator g = cr_id c \<and> lg_lock_hash g = ?h) ?touch (db_generations d)\<rparr>"
  have ids: "distinct (map dn_id (db_drains d))" "distinct (map drain_key (db_drains d))"
    using assms(2) by (simp_all add: drains_ok_def)
  have found: "find (\<lambda>r. dn_id r = dn_id row) (db_drains ?d0) = Some row" using find_by_key [OF ids(1) 2(3)] by simp
  note d' = delete_drain_Inr [OF 2(8) found]
  let ?g = "(?touch g)\<lparr>lg_current_generation := lg_current_generation g + 1, lg_active_drain := None\<rparr>"
  have key: "dn_creator row = cr_id c" "dn_lock_hash row = ?h" using 2(5) by (simp_all add: drain_key_def)
  have own: "lg_creator g = cr_id c" "lg_lock_hash g = ?h" using 2(2) by (auto simp: find_generation_def find_Some_iff)
  have g': "find_generation d' (cr_id c) ?h = Some ?g"
    using 2(2,4) own key by (simp add: d'(2) find_generation_def find_update_where)
  have none: "\<not> has_drain d' (cr_id c) ?h"
    using ids(2) 2(3) key by (auto simp: has_drain_def d'(2) list_ex_iff distinct_map inj_on_def drain_key_def)
  have ready: "payment_drain_cleanup_token (env_crypto env) (dn_id row) = token" "progress_accepted d (dn_id row) = 0"
    using 2(7) by (auto simp: cleanup_ready_def split: if_splits)
  have creators: "find (\<lambda>c. cr_lookup_hash c = hash_of env creator) (db_creators d') = Some c" using 2(1) by (simp add: d'(2))
  show ?thesis
    using 2(1,2,4) g' none ready cleanup_replays [OF creators g' _ _ none]
    by (intro exI [of _ c] exI [of _ g] exI [of _ ?g]) (simp add: d'(2))
qed

section \<open>A concrete drain\<close>

text \<open>A lock with one invoice whose only request is still proposed.\<close>

definition drain_intent :: delivery_intent where
  "drain_intent = \<lparr>intent_version = 2, intent_reader_pubky = ''pubkyreader'', intent_app_id = ''paykit-server'',
     intent_operation = PaymentRequestCancellation ''req''\<rparr>"

definition drain_env :: "(string, string) env" where
  "drain_env = example_env\<lparr>intent_to_bytes := (\<lambda>x. if x = example_dated then Some ''i'' else if x = drain_intent then Some ''c'' else None),
     intent_from_bytes := (\<lambda>bytes. if bytes = ''c'' then Some drain_intent else Some example_dated)\<rparr>"

definition drain_example_fresh :: drain_fresh where
  "drain_example_fresh = \<lparr>df_drain_id = 21, df_drain_nonce = replicate 24 (CHR ''n''),
     df_cancellation = (\<lambda>_ _. (22, replicate 24 (CHR ''n''))), df_now = 7\<rparr>"

definition drain_db :: "string \<Rightarrow> db" where
  "drain_db envelope = (example_open envelope)\<lparr>db_invoices := [example_invoice\<lparr>iv_lock_hash := hash_of example_env ''lock''\<rparr>],
     db_generations := [\<lparr>lg_creator = 1, lg_lock_hash = hash_of example_env ''lock'', lg_current_generation = 0,
       lg_active_drain = None, lg_last_cleanup_token = None\<rparr>],
     db_lifecycles := [example_lifecycle]\<rparr>"

lemma drain_intent_new: "drain_intent \<noteq> example_dated" "example_dated \<noteq> drain_intent"
proof -
  have "intent_operation drain_intent \<noteq> intent_operation example_dated"
    by (simp add: drain_intent_def example_dated_def del: decimal_amount.simps)
  then show "drain_intent \<noteq> example_dated" "example_dated \<noteq> drain_intent" by auto
qed

lemma drain_env_fields [simp]:
  "env_crypto drain_env = example_crypto" "env_sdk drain_env = example_sdk"
  "intent_to_bytes drain_env example_dated = Some ''i''" "intent_to_bytes drain_env drain_intent = Some ''c''"
  by (simp_all add: drain_env_def drain_intent_new)

lemma drain_env_ok:
  "aead_correct (prims (env_crypto drain_env))" "codecs_ok drain_env" "drain_nonces_ok drain_example_fresh"
  using example_env_ok(1,2)
  by (auto simp: codecs_ok_def drain_env_def drain_nonces_ok_def drain_example_fresh_def nonce_length_def
      split: if_splits)

lemma drain_proposal:
  obtains envelope where "open_intent drain_env (hash_of drain_env ''creator'') 13 envelope = Inr example_dated"
proof -
  obtain envelope where "seal_column drain_env (fr_outbox_nonce example_fresh)
      (ctx_outbox_semantic_intent (hash_of drain_env ''creator'') 13) (intent_to_bytes drain_env example_dated) = Inr envelope"
    using example_seal [of "fr_outbox_nonce example_fresh" "ctx_outbox_semantic_intent (hash_of drain_env ''creator'') 13" "''i''"]
    by (auto simp: seal_column_def)
  moreover have "length (fr_outbox_nonce example_fresh) = nonce_length" using example_env_ok(4) by (simp add: nonces_ok_def)
  moreover have "intent_validate (env_sdk drain_env) example_dated = Inr ()"
    using dated_intent_Inr(1) [OF example_dated_intent] by simp
  ultimately show thesis
    using that decode_sealed_intent [OF drain_env_ok(1,2)] unfolding open_intent_def by blast
qed

lemma drain_cancellation_intent: "intent_payment_request_cancellation example_sdk example_dated ''req'' = Inr drain_intent"
proof -
  have "intent_validate example_sdk drain_intent = Inr ()"
    by (simp add: intent_validate_def drain_intent_def example_sdk_def parse_reader_def parse_canonical_def paykit_app_id_def)
  then show ?thesis
    by (simp add: intent_payment_request_cancellation_def example_dated_def example_quote_intent_def drain_intent_def
        example_sdk_def paykit_app_id_def del: decimal_amount.simps intent_validate_Inr)
qed

abbreviation drain_attempt_example :: drain_attempt where
  "drain_attempt_example \<equiv> \<lparr>il_invoice = 12, il_request_state = Some ''proposed'', il_terminal_fallback = None,
     il_payment_request_id = Some ''req'', il_last_event_at = Some 5000\<rparr>"

lemma drain_example_attempts:
  "drained_generation id (drain_db envelope) 1 (hash_of example_env ''lock'') 0 = [(12, [drain_attempt_example])]"
proof -
  have "generation_invoices (drain_db envelope) 1 (hash_of example_env ''lock'') 0 =
      [example_invoice\<lparr>iv_lock_hash := hash_of example_env ''lock''\<rparr>]"
    by (simp add: generation_invoices_def drain_db_def example_invoice_def)
  moreover have "attempt_rows id (drain_db envelope) (example_invoice\<lparr>iv_lock_hash := hash_of example_env ''lock''\<rparr>) = [drain_attempt_example]"
    by (simp add: attempt_rows_def drain_db_def example_invoice_def example_open_def example_lifecycle_def new_lifecycle_def
        example_projection_def terminal_fallback_def example_db_def queued_proposal_def)
  ultimately show ?thesis by (simp add: attempts_by_invoice_def)
qed

lemma drain_example_plan:
  assumes "open_intent drain_env (hash_of drain_env ''creator'') 13 envelope = Inr example_dated"
  obtains ce where "plan_drain drain_env id drain_example_fresh 1 (hash_of drain_env ''creator'') (hash_of drain_env ''lock'') None
      (drain_db envelope) = Inr (0, [(12, ''cancellation_enqueued'')],
        [\<lparr>pc_invoice = 12, pc_payment_request_id = ''req'', pc_outbox = 22, pc_envelope = ce, pc_insert = True\<rparr>])"
proof -
  let ?ch = "hash_of drain_env ''creator''" and ?d = "drain_db envelope"
  obtain ce where ce: "seal_column drain_env (replicate 24 (CHR ''n'')) (ctx_outbox_semantic_intent ?ch 22) (Some ''c'') = Inr ce"
    using example_seal [of "replicate 24 (CHR ''n'')" "ctx_outbox_semantic_intent ?ch 22" "''c''"] by (auto simp: seal_column_def)
  let ?x = "\<lparr>pc_invoice = 12, pc_payment_request_id = ''req'', pc_outbox = 22, pc_envelope = ce, pc_insert = True\<rparr>"
  have outbox: "db_outbox ?d = [queued_proposal 13 1 12 envelope (payment_request_proposal_lookup_hash example_crypto ''ref'') 0]"
    by (simp add: drain_db_def example_open_def)
  have op: "\<exists>terms. intent_operation example_dated = PaymentRequestProposal terms"
    by (simp add: example_dated_def del: decimal_amount.simps)
  then have proposal: "invoice_proposal drain_env ?d 1 ?ch 12 = Inr example_dated"
    using assms by (auto simp: invoice_proposal_def outbox queued_proposal_def simp del: bindr_eq_Inr)
  have "prepare_cancellation drain_env drain_example_fresh ?d 1 ?ch 12 example_dated (Some ''req'') = Inr ?x"
    using drain_cancellation_intent ce
    by (simp add: prepare_cancellation_def existing_cancellation_def outbox queued_proposal_def drain_example_fresh_def
        del: bindr_eq_Inr)
  then have "drain_invoice drain_env drain_example_fresh ?d 1 ?ch (12, [drain_attempt_example]) =
      Inr ((12, ''cancellation_enqueued''), [?x])"
    using proposal by (simp add: drain_invoice_def parse_attempt_def request_state_parse_def classify_def
        prepare_cancellations_def del: bindr_eq_Inr)
  moreover have "find_generation ?d 1 (hash_of drain_env ''lock'') = Some \<lparr>lg_creator = 1, lg_lock_hash = hash_of example_env ''lock'',
      lg_current_generation = 0, lg_active_drain = None, lg_last_cleanup_token = None\<rparr>"
    by (simp add: find_generation_def drain_db_def)
  ultimately have "plan_drain drain_env id drain_example_fresh 1 ?ch (hash_of drain_env ''lock'') None ?d =
      Inr (0, [(12, ''cancellation_enqueued'')], [?x])"
    using drain_example_attempts [of envelope] by (simp add: plan_drain_def del: bindr_eq_Inr)
  then show thesis by (rule that)
qed

lemma drain_db_ok: "keys_ok (drain_db envelope)" "drains_ok (drain_db envelope)"
  "int (length (db_invoices (drain_db envelope))) \<le> i64_max"
  by (simp_all add: keys_ok_def drains_ok_def drain_db_def example_open_def example_db_def i64_max_def)

lemma drain_example_created:
  obtains envelope s d' where
    "create_inner drain_env id drain_example_fresh ''creator'' ''lock'' None (drain_db envelope) = Inr (s, d')" "\<not> ps_replayed s"
    "ps_accepted_count s = 0"
proof (rule drain_proposal)
  fix envelope
  assume opened: "open_intent drain_env (hash_of drain_env ''creator'') 13 envelope = Inr example_dated"
  let ?ch = "hash_of drain_env ''creator''" and ?h = "hash_of drain_env ''lock''" and ?d = "drain_db envelope"
  let ?cs = "[(12 :: uuid, ''cancellation_enqueued'')]"
  obtain ce where plan: "plan_drain drain_env id drain_example_fresh 1 ?ch ?h None ?d = Inr (0, ?cs,
      [\<lparr>pc_invoice = 12, pc_payment_request_id = ''req'', pc_outbox = 22, pc_envelope = ce, pc_insert = True\<rparr>])"
    by (rule drain_example_plan [OF opened])
  let ?x = "\<lparr>pc_invoice = 12, pc_payment_request_id = ''req'', pc_outbox = 22, pc_envelope = ce, pc_insert = True\<rparr>"
  obtain de where de: "seal_column drain_env (df_drain_nonce drain_example_fresh)
      (ctx_payment_drain ?ch (df_drain_id drain_example_fresh)) (Some ''lock'') = Inr de"
    using example_seal [of "df_drain_nonce drain_example_fresh" "ctx_payment_drain ?ch (df_drain_id drain_example_fresh)" "''lock''"]
    by (auto simp: seal_column_def)
  let ?row = "new_drain drain_env drain_example_fresh 1 ?h 0 ?cs [?x] de"
  have "\<exists>s d'. write_drain ?row ?cs [?x] ?d = Inr (s, d') \<and> \<not> ps_replayed s \<and> ps_accepted_count s = 0"
    by (simp add: write_drain_def insert_drain_def fence_generation_def enqueue_cancellation_def insert_outbox_def
        drain_cancellation_def insert_drain_item_def insert_drain_cancellation_def drain_count_def drain_db_def
        example_open_def example_db_def queued_proposal_def example_invoice_def example_lifecycle_def new_lifecycle_def
        example_projection_def drain_example_fresh_def del: bindr_eq_Inr)
  moreover have "find_creator_by_hash ?d ?ch = Inr \<lparr>cr_id = 1, cr_lookup_hash = ?ch, cr_next_child_index = 0, cr_account_generation = 0\<rparr>"
    using example_hash_length by (simp add: find_creator_by_hash_Inr drain_db_def example_open_def example_db_def)
  moreover have "ensure_generation 1 ?h ?d = ?d" "db_drains ?d = []"
    by (simp_all add: ensure_generation_def find_generation_def drain_db_def example_open_def example_db_def)
  ultimately have "\<exists>s d'. create_inner drain_env id drain_example_fresh ''creator'' ''lock'' None ?d = Inr (s, d') \<and> \<not> ps_replayed s \<and> ps_accepted_count s = 0"
    using plan de by (simp add: create_inner_def create_drain_def del: bindr_eq_Inr)
  then show thesis using that by blast
qed

lemma drain_created_kept:
  assumes "create_inner env collate fresh creator lock_resource evidence d = Inr (s, d')" "\<not> ps_replayed s" "keys_ok d"
  shows "distinct (map ob_id (db_outbox d')) \<and> distinct (map iv_id (db_invoices d'))"
proof -
  have ids: "distinct (map ob_id (db_outbox d))" "distinct (map iv_id (db_invoices d))" using assms(3) by (simp_all add: keys_ok_def)
  obtain c n cs xs row where "find_creator_by_hash d (hash_of env creator) = Inr c"
    and "drain_created env fresh row cs xs (ensure_generation (cr_id c) (hash_of env lock_resource) d) d'"
    by (rule create_inner_new [OF assms(1,2) ids(1)])
  then show ?thesis using ids(2) by (simp add: drain_created_def drain_written_def)
qed

theorem drain_covers_generation_witness:
  "\<exists>envelope s d' g. create_inner drain_env id drain_example_fresh ''creator'' ''lock'' None (drain_db envelope) = Inr (s, d') \<and>
     g \<in> set (db_generations d') \<and> lg_lock_hash g = hash_of drain_env ''lock'' \<and> lg_active_drain g = Some (ps_drain_id s)"
proof (rule drain_example_created)
  fix envelope s d'
  assume c: "create_inner drain_env id drain_example_fresh ''creator'' ''lock'' None (drain_db envelope) = Inr (s, d')" "\<not> ps_replayed s"
  from drain_covers_generation [OF c drain_db_ok(1,2) drain_env_ok(1-3)] obtain g where
    "g \<in> set (db_generations d')" "lg_lock_hash g = hash_of drain_env ''lock''" "lg_active_drain g = Some (ps_drain_id s)"
    by blast
  with c(1) show ?thesis by blast
qed

definition empty_drain_db :: "string \<Rightarrow> db" where
  "empty_drain_db envelope = example_db\<lparr>
     db_generations := [\<lparr>lg_creator = 1, lg_lock_hash = hash_of example_env ''lock'', lg_current_generation = 0,
       lg_active_drain = Some 21, lg_last_cleanup_token = None\<rparr>],
     db_drains := [new_drain example_env drain_example_fresh 1 (hash_of example_env ''lock'') 0 [] [] envelope]\<rparr>"

theorem cleanup_removes_drain_once_witness:
  "\<exists>envelope d'. cleanup_completed example_env id ''creator'' ''lock'' (payment_drain_cleanup_token example_crypto 21)
       (empty_drain_db envelope) = Inr d' \<and> \<not> has_drain d' 1 (hash_of example_env ''lock'') \<and>
     cleanup_completed example_env id ''creator'' ''lock'' (payment_drain_cleanup_token example_crypto 21) d' = Inr d'"
proof -
  let ?ctx = "ctx_payment_drain (hash_of example_env ''creator'') 21"
  obtain envelope where sealed: "seal_column example_env (replicate 24 (CHR ''n'')) ?ctx (Some ''lock'') = Inr envelope"
    using example_seal by blast
  have opened: "open_column example_env ?ctx envelope = Inr ''lock''"
    using open_sealed_column [OF example_env_ok(1) _ sealed] by (auto simp: nonce_length_def)
  have ok: "drains_ok (empty_drain_db envelope)"
    by (simp add: drains_ok_def empty_drain_db_def example_db_def)
  have "\<exists>d'. cleanup_completed example_env id ''creator'' ''lock'' (payment_drain_cleanup_token example_crypto 21)
       (empty_drain_db envelope) = Inr d'"
    using opened
    by (simp add: cleanup_completed_def find_generation_def cleanup_ready_def validate_frozen_sets_def frozen_cancellations_def
        frozen_items_def drain_items_def progress_accepted_def progress_terminal_def cancellation_count_def snapshot_of_def
        drain_count_def delete_drain_def empty_drain_db_def example_db_def new_drain_def drain_example_fresh_def
        del: bindr_eq_Inr)
  then obtain d' where d': "cleanup_completed example_env id ''creator'' ''lock'' (payment_drain_cleanup_token example_crypto 21)
       (empty_drain_db envelope) = Inr d'" by blast
  from cleanup_removes_drain_once [OF d' ok] have
    "\<not> has_drain d' 1 (hash_of example_env ''lock'') \<and>
     cleanup_completed example_env id ''creator'' ''lock'' (payment_drain_cleanup_token example_crypto 21) d' = Inr d'"
    by (auto simp: empty_drain_db_def example_db_def)
  with d' show ?thesis by blast
qed

end
