(* ===== verification/Store_Runs.thy ===== *)
theory Store_Runs
  imports Drain_Safety
begin

text \<open>
  Runs of the store: the transactions of admission, outbox, request lifecycle and payment evidence in
  any order, and that they leave what a drain has frozen.
\<close>

section \<open>Runs of the store\<close>

text \<open>The transactions of the other components, in any order.\<close>

inductive store_step :: "('r, 'd) env \<Rightarrow> db \<Rightarrow> db \<Rightarrow> bool" for env where
  admit: "create_atomic env fresh input d = Inr (r, d') \<Longrightarrow> store_step env d d'"
| deliver: "outbox_step d d' \<Longrightarrow> store_step env d d'"
| follow: "lifecycle_step env d d' \<Longrightarrow> store_step env d d'"
| observe: "evidence_step env d d' \<Longrightarrow> store_step env d d'"

text \<open>Transactions that leave the drain tables, the outbox and the identity of every invoice.\<close>

definition invoice_identity :: "invoice_row \<Rightarrow> uuid \<times> uuid \<times> string \<times> int" where
  "invoice_identity v = (iv_id v, iv_creator v, iv_lock_hash v, iv_lock_generation v)"

definition lock_frame :: "db \<Rightarrow> db \<Rightarrow> bool" where
  "lock_frame d d' \<longleftrightarrow> db_creators d' = db_creators d \<and> db_generations d' = db_generations d \<and>
     db_drains d' = db_drains d \<and> db_drain_items d' = db_drain_items d \<and>
     db_drain_cancellations d' = db_drain_cancellations d \<and> db_outbox d' = db_outbox d \<and>
     map invoice_identity (db_invoices d') = map invoice_identity (db_invoices d)"

lemma lock_frame_refl [simp]: "lock_frame d d"
  by (simp add: lock_frame_def)

lemma lock_frame_trans: "lock_frame a b \<Longrightarrow> lock_frame b c \<Longrightarrow> lock_frame a c"
  by (simp add: lock_frame_def)

lemma lock_frame_invoices:
  "update_invoices p f d = Inr d' \<Longrightarrow> (\<And>v. invoice_identity (f v) = invoice_identity v) \<Longrightarrow> lock_frame d d'"
  by (auto simp: update_invoices_Inr lock_frame_def intro: map_update_where)

lemma lock_frame_project:
  assumes "project_payments env i ch payment now tn d = Inr d'"
  shows "lock_frame d d'"
proof -
  have same: "map invoice_identity (update_where p (project_columns b r e n) xs) = map invoice_identity xs" for p b r e n xs
    by (rule map_update_where) (simp add: invoice_identity_def project_columns_def)
  show ?thesis by (rule project_payments_Inr [OF assms]) (simp add: lock_frame_def same)
qed

lemma lock_frame_write: "write_observation new d = Inr d' \<Longrightarrow> lock_frame d d'"
  by (erule write_observation_Inr) (simp_all add: lock_frame_def)

lemma lock_frame_samples: "lock_frame d (project_provider_v2_sample i oid t present n matched d)"
  by (simp add: project_provider_v2_sample_def set_current_sample_def add_first_evidence_def lock_frame_def Let_def
      split: option.splits)

lemma lock_frame_store:
  assumes "store_observation env fresh tn input t n v ch payment provider matched oid h d = Inr d'"
  shows "lock_frame d d'"
proof (rule store_observation_Inr [OF assms], goal_cases)
  case (1 new d1 d2 d3 d4)
  have "lock_frame d d1" by (rule lock_frame_write [OF 1(1)])
  moreover have "lock_frame d1 d2" by (simp add: 1(4) add_timely_def lock_frame_def)
  moreover have "lock_frame d2 d3"
    using 1(5) lock_frame_invoices [of _ _ d2 d3] by (auto simp: record_first_match_def invoice_identity_def)
  moreover have "lock_frame d3 d4" by (rule lock_frame_project [OF 1(6)])
  moreover have "lock_frame d4 d'" unfolding 1(7) by (rule lock_frame_samples)
  ultimately show ?case using lock_frame_trans by blast
qed

lemma lock_frame_expiry:
  "update_invoices p (\<lambda>v. v\<lparr>iv_expired_at := x\<rparr>) d = Inr d' \<Longrightarrow> lock_frame d d'"
  by (erule lock_frame_invoices) (simp add: invoice_identity_def)

lemma lock_frame_overdue: "expire_overdue t d = Inr d' \<Longrightarrow> lock_frame d d'"
  by (auto simp: expire_overdue_def dest!: lock_frame_expiry intro: lock_frame_trans)

lemma lock_frame_receipt: "write_receipt new d = Inr (owner, d') \<Longrightarrow> lock_frame d d'"
  by (auto simp: write_receipt_def lock_frame_def split: option.splits if_splits)

lemma lock_frame_credit:
  assumes "apply_usdt_transfer env fresh now tn row ch payment transfer d = Inr (b, d')"
  shows "lock_frame d d'"
  using assms unfolding apply_usdt_transfer_def Let_def
  by (auto split: if_splits dest!: lock_frame_receipt lock_frame_project intro: lock_frame_trans)

lemma lock_frame_withdraw:
  assumes "clear_usdt_transfer env now tn row ch payment h d = Inr d'"
  shows "lock_frame d d'"
  using lock_frame_project [OF assms [unfolded clear_usdt_transfer_def]] by (simp add: lock_frame_def)

lemma lock_frame_observe:
  assumes "apply_bitcoin_observation_in_tx env fresh tn input t d = Inr (b, d')"
  shows "lock_frame d d'"
proof (rule apply_observation_Inr [OF assms], goal_cases)
  case (2 v c n ch payment destination d1 oid)
  have "lock_frame d d1" using 2(6) by (auto simp: retire_active_def lock_frame_def)
  then show ?case using lock_frame_store [OF 2(7)] by (rule lock_frame_trans)
qed simp

lemma evidence_lock_frame: "evidence_step env d d' \<Longrightarrow> lock_frame d d'"
proof (induction rule: evidence_step.cases)
  case (plan t d r d')
  then show ?case using lock_frame_overdue by (auto simp: observation_targets_with_time_def Let_def split: sum.splits)
qed (auto dest: lock_frame_observe lock_frame_credit lock_frame_withdraw lock_frame_expiry
    simp: expire_unmatched_at_deadline_in_tx_def)

lemma lifecycle_lock_frame: "lifecycle_step env d d' \<Longrightarrow> lock_frame d d'"
proof (induction rule: lifecycle_step.cases)
  case (apply_projection from_nanos creator_id projection d outcome d')
  have "record_lifecycle owner projection stream outbound event_at d = Inr (outcome, d') \<Longrightarrow> lock_frame d d'"
    for owner stream outbound event_at
    by (erule record_lifecycle_Inr) (simp_all add: lock_frame_def)
  then have "lock_frame d d'" by (rule_tac apply_lifecycle_Inr [OF apply_projection(3)]) auto
  then show ?case using apply_projection by simp
qed

section \<open>A drained lock stays as it was\<close>

definition lock_invoices :: "db \<Rightarrow> uuid \<Rightarrow> lookup_hash \<Rightarrow> uuid set" where
  "lock_invoices d creator lock_hash = iv_id ` {v \<in> set (db_invoices d). iv_creator v = creator \<and> iv_lock_hash v = lock_hash}"

lemma lock_invoices_identity:
  "lock_invoices d c h = {i. \<exists>n. (i, c, h, n) \<in> invoice_identity ` set (db_invoices d)}"
  by (auto simp: lock_invoices_def invoice_identity_def image_iff)

lemma drain_kept_frame:
  assumes "lock_frame d d'" "distinct (map ob_id (db_outbox d))" "distinct (map iv_id (db_invoices d))"
  shows "drain_kept d d' \<and> lock_invoices d' c h = lock_invoices d c h"
proof -
  have ids: "map invoice_identity (db_invoices d') = map invoice_identity (db_invoices d)" using assms(1) by (simp add: lock_frame_def)
  from arg_cong [OF ids, of "map fst"] have "map iv_id (db_invoices d') = map iv_id (db_invoices d)"
    by (simp add: comp_def invoice_identity_def)
  moreover from arg_cong [OF ids, of set] have image: "invoice_identity ` set (db_invoices d') = invoice_identity ` set (db_invoices d)"
    by simp
  moreover have "\<exists>v' \<in> set (db_invoices d'). iv_id v' = iv_id v \<and> iv_creator v' = iv_creator v \<and>
      iv_lock_hash v' = iv_lock_hash v \<and> iv_lock_generation v' = iv_lock_generation v" if "v \<in> set (db_invoices d)" for v
    using imageI [OF that, of invoice_identity] unfolding image [symmetric] by (auto simp: invoice_identity_def)
  ultimately show ?thesis using assms by (simp add: drain_kept_def lock_frame_def lock_invoices_identity) blast
qed

lemma drain_kept_outbox:
  assumes "outbox_evolves d d'" "distinct (map ob_id (db_outbox d))" "distinct (map iv_id (db_invoices d))"
  shows "drain_kept d d' \<and> lock_invoices d' c h = lock_invoices d c h \<and> db_generations d' = db_generations d"
proof -
  have d': "d' = d\<lparr>db_outbox := db_outbox d'\<rparr>" and rows: "list_all2 row_evolves (db_outbox d) (db_outbox d')"
    using assms(1) by (simp_all add: outbox_evolves_def)
  have tables: "db_creators d' = db_creators d" "db_generations d' = db_generations d" "db_drains d' = db_drains d"
    "db_drain_items d' = db_drain_items d" "db_drain_cancellations d' = db_drain_cancellations d" "db_invoices d' = db_invoices d"
    by (subst d', simp)+
  have "\<exists>r' \<in> set (db_outbox d'). ob_id r' = ob_id r \<and> ob_intent_envelope r' = ob_intent_envelope r \<and>
      ob_drain_required r' = ob_drain_required r" if "r \<in> set (db_outbox d)" for r
  proof -
    from rows that obtain r' where "r' \<in> set (db_outbox d')" "row_evolves r r'"
      by (induction rule: list_all2_induct) auto
    then show ?thesis by (intro bexI [of _ r']) (simp_all add: row_evolves_def same_intent_def)
  qed
  moreover have "map ob_id (db_outbox d') = map ob_id (db_outbox d)" by (rule outbox_evolves_ids [OF assms(1)])
  ultimately show ?thesis using assms(2,3) by (simp add: drain_kept_def tables lock_invoices_def) blast
qed

lemma admission_drains:
  assumes "admit_new env fresh input creator windows deadlines d = Inr (r, d')"
  shows "db_drains d' = db_drains d" "db_drain_items d' = db_drain_items d"
    "db_drain_cancellations d' = db_drain_cancellations d"
    "db_generations d' = db_generations (ensure_generation (cr_id creator) (hash_of env (in_lock_binding input)) d)"
    "distinct (map ob_id (db_outbox d)) \<Longrightarrow> distinct (map ob_id (db_outbox d'))"
    "distinct (map iv_id (db_invoices d)) \<Longrightarrow> distinct (map iv_id (db_invoices d'))"
proof -
  define drains where "drains x = (db_drains x, db_drain_items x, db_drain_cancellations x)" for x :: db
  have steps: "insert_assignment a x = Inr y \<Longrightarrow> drains y = drains x" "bump_child_index c x = Inr y \<Longrightarrow> drains y = drains x"
    "insert_invoice v x = Inr y \<Longrightarrow> drains y = drains x" "insert_outbox o' x = Inr y \<Longrightarrow> drains y = drains x"
    "drains (ensure_generation c h x) = drains x" for a c v o' x y h
    by (auto simp: drains_def insert_assignment_def bump_child_index_def insert_invoice_def claim_address_def insert_outbox_def
        split: if_splits option.splits)
  have "drains d' = drains d \<and>
    db_generations d' = db_generations (ensure_generation (cr_id creator) (hash_of env (in_lock_binding input)) d) \<and>
    (distinct (map ob_id (db_outbox d)) \<longrightarrow> distinct (map ob_id (db_outbox d'))) \<and>
    (distinct (map iv_id (db_invoices d)) \<longrightarrow> distinct (map iv_id (db_invoices d')))"
  proof (rule admit_new_Inr [OF assms], goal_cases)
    case (1 generation intent ae re ie oe reference payment_record d1 d2 d3 d4)
    note frames = insert_assignment_frame [OF 1(9)] bump_child_index_frame [OF 1(10)] insert_invoice_frame [OF 1(15)]
      insert_outbox_frame [OF 1(17)]
    have "drains d' = drains d"
      using steps(1) [OF 1(9)] steps(2) [OF 1(10)] steps(3) [OF 1(15)] steps(4) [OF 1(17)] steps(5) 1(1) by simp
    moreover have "distinct (map ob_id (db_outbox d'))" if "distinct (map ob_id (db_outbox d))"
      using outbox_ids.insert_distinct [OF 1(17)] frames that 1(1) by simp
    moreover have "distinct (map iv_id (db_invoices d'))" if "distinct (map iv_id (db_invoices d))"
      using invoice_ids.insert_distinct [OF 1(15)] frames that 1(1) by simp
    ultimately show ?case using frames 1(1) by simp
  qed
  then show "db_drains d' = db_drains d" "db_drain_items d' = db_drain_items d"
    "db_drain_cancellations d' = db_drain_cancellations d"
    "db_generations d' = db_generations (ensure_generation (cr_id creator) (hash_of env (in_lock_binding input)) d)"
    "distinct (map ob_id (db_outbox d)) \<Longrightarrow> distinct (map ob_id (db_outbox d'))"
    "distinct (map iv_id (db_invoices d)) \<Longrightarrow> distinct (map iv_id (db_invoices d'))"
    by (simp_all add: drains_def)
qed

lemma drain_kept_admission:
  assumes "admit_new env fresh input creator windows deadlines d = Inr (r, d')"
    and "distinct (map ob_id (db_outbox d))" "distinct (map iv_id (db_invoices d))"
  shows "drain_kept d d'" "(cr_id creator, hash_of env (in_lock_binding input)) \<noteq> (c, h) \<Longrightarrow> lock_invoices d' c h = lock_invoices d c h"
proof -
  note drains = admission_drains [OF assms(1)]
  have "drain_kept d d' \<and> ((cr_id creator, hash_of env (in_lock_binding input)) \<noteq> (c, h) \<longrightarrow> lock_invoices d' c h = lock_invoices d c h)"
  proof (rule admit_new_rows [OF assms(1)], goal_cases)
    case (1 generation payment_record record_envelope invoice_envelope assignment_envelope outbox_envelope reference intent)
    have "map (\<lambda>c. (cr_id c, cr_lookup_hash c)) (db_creators d') = map (\<lambda>c. (cr_id c, cr_lookup_hash c)) (db_creators d)"
      unfolding 1(4) by (rule map_update_where) simp
    moreover have "set (db_generations d) \<subseteq> set (db_generations d')"
      unfolding drains(4) by (auto simp: ensure_generation_def split: option.splits)
    ultimately have "drain_kept d d'"
      using drains(1-3) drains(5) [OF assms(2)] drains(6) [OF assms(3)] 1(1,3) by (auto simp: drain_kept_def)
    moreover have "lock_invoices d' c h = lock_invoices d c h" if "(cr_id creator, hash_of env (in_lock_binding input)) \<noteq> (c, h)"
      using that by (auto simp: lock_invoices_def 1(1) new_invoice_def Let_def)
    ultimately show ?case by blast
  qed
  then show "drain_kept d d'" "(cr_id creator, hash_of env (in_lock_binding input)) \<noteq> (c, h) \<Longrightarrow> lock_invoices d' c h = lock_invoices d c h"
    by simp_all
qed

text \<open>The state of a lock while one drain holds it.\<close>

definition drain_holds :: "uuid \<Rightarrow> lookup_hash \<Rightarrow> uuid \<Rightarrow> db \<Rightarrow> bool" where
  "drain_holds c h drain d \<longleftrightarrow> distinct (map generation_key (db_generations d)) \<and>
     (\<exists>g \<in> set (db_generations d). generation_key g = (c, h) \<and> lg_active_drain g = Some drain)"

lemma held_generation:
  assumes "drain_holds c h drain d" "find_generation (ensure_generation c h d) c h = Some g"
  shows "lg_active_drain g = Some drain"
proof -
  from assms(1) obtain g0 where g0: "g0 \<in> set (db_generations d)" "generation_key g0 = (c, h)" "lg_active_drain g0 = Some drain"
    and dist: "distinct (map generation_key (db_generations d))" by (auto simp: drain_holds_def)
  have "find_generation d c h = Some g0"
    using find_by_key [OF dist g0(1)] g0(2) by (simp add: find_generation_def generation_key_def)
  then show ?thesis using assms(2) g0(3) by (simp add: ensure_generation_def)
qed

lemma written_holds:
  assumes "drain_written row cs xs d d'" "drains_ok d" "dn_creator row = c" "dn_lock_hash row = h"
  shows "drain_holds c h (dn_id row) d'"
proof -
  from assms(1) obtain g where g: "g \<in> set (db_generations d)" "open_generation row g" by (auto simp: drain_written_def)
  have gens: "db_generations d' = update_where (open_generation row) (\<lambda>g. g\<lparr>lg_active_drain := Some (dn_id row)\<rparr>) (db_generations d)"
    using assms(1) by (simp add: drain_written_def)
  have "map generation_key (db_generations d') = map generation_key (db_generations d)"
    unfolding gens by (rule map_update_where) (simp add: generation_key_def)
  moreover have "g\<lparr>lg_active_drain := Some (dn_id row)\<rparr> \<in> set (db_generations d')" using g by (auto simp: gens set_update_where)
  ultimately show ?thesis
    unfolding drain_holds_def using assms(2-4) g(2)
    by (auto simp: drains_ok_def generation_key_def intro!: bexI [of _ "g\<lparr>lg_active_drain := Some (dn_id row)\<rparr>"])
qed

lemma store_step_kept:
  assumes "store_step env d d'" "drain_holds c h drain d"
    and "distinct (map ob_id (db_outbox d))" "distinct (map iv_id (db_invoices d))"
  shows "drain_kept d d' \<and> drain_holds c h drain d' \<and> lock_invoices d' c h = lock_invoices d c h" (is ?goal)
proof -
  have framed: ?goal if "lock_frame d d'"
    using drain_kept_frame [OF that assms(3,4), of c h] assms(2) that by (simp add: drain_holds_def lock_frame_def)
  from assms(1) show ?thesis
  proof cases
    case (admit fresh input r)
    from admit(1) show ?thesis
    proof (rule create_atomic_Inr, goal_cases)
      case (1 creator existing)
      then show ?case using assms drain_kept_refl by simp
    next
      case (2 creator acceptance window expires deadline)
      let ?lock = "hash_of env (in_lock_binding input)"
      have open_lock: "(cr_id creator, ?lock) \<noteq> (c, h)"
        using held_generation [OF assms(2)] by (rule_tac admit_new_Inr [OF 2(5)]) auto
      note kept = drain_kept_admission [OF 2(5) assms(3,4)]
      have "distinct (map generation_key (db_generations d'))" "set (db_generations d) \<subseteq> set (db_generations d')"
        using assms(2) unfolding admission_drains(4) [OF 2(5)]
        by (auto simp: drain_holds_def ensure_generation_def find_generation_def generation_key_def find_None_iff split: option.splits)
      then have "drain_holds c h drain d'" using assms(2) by (auto simp: drain_holds_def)
      then show ?case using kept(1) kept(2) [OF open_lock] by simp
    qed
  next
    case deliver
    from outbox_step_evolves [OF deliver assms(3)] drain_kept_outbox assms show ?thesis by (simp add: drain_holds_def)
  next
    case follow
    show ?thesis by (rule framed) (rule lifecycle_lock_frame [OF follow])
  next
    case observe
    show ?thesis by (rule framed) (rule evidence_lock_frame [OF observe])
  qed
qed

section \<open>Runs with replays\<close>

text \<open>A run may also replay drains, of this lock or of others, any number of times.\<close>

inductive drained_step :: "('r, 'd) env \<Rightarrow> (string \<Rightarrow> string) \<Rightarrow> db \<Rightarrow> db \<Rightarrow> bool" for env collate where
  work: "store_step env d d' \<Longrightarrow> drained_step env collate d d'"
| replay: "exact_drain_replay env collate creator lock_resource now d = Inr (r, d') \<Longrightarrow> drained_step env collate d d'"

text \<open>The drain whose row was written in the state \<open>d'\<close>, at a later state \<open>e\<close>: its counts may have moved, their sum not.\<close>

definition drain_tracked :: "uuid \<Rightarrow> lookup_hash \<Rightarrow> drain_row \<Rightarrow> db \<Rightarrow> db \<Rightarrow> bool" where
  "drain_tracked c h row d' e \<longleftrightarrow> drain_kept d' (e\<lparr>db_drains := db_drains d'\<rparr>) \<and> drain_holds c h (dn_id row) e \<and>
     lock_invoices e c h = lock_invoices d' c h \<and> map drain_core (db_drains e) = map drain_core (db_drains d') \<and>
     (\<forall>r \<in> set (db_drains e). dn_id r = dn_id row \<longrightarrow> 0 \<le> dn_accepted r \<and> dn_accepted r \<le> dn_accepted row \<and>
        dn_accepted r + dn_terminal r = dn_accepted row + dn_terminal row)"

lemma tracked_work:
  assumes "drain_tracked c h row d' e" "store_step env e f"
  shows "drain_tracked c h row d' f \<and> db_drains f = db_drains e"
proof -
  have kept: "drain_kept d' (e\<lparr>db_drains := db_drains d'\<rparr>)" and holds: "drain_holds c h (dn_id row) e"
    using assms(1) by (simp_all add: drain_tracked_def)
  have "distinct (map ob_id (db_outbox e))" "distinct (map iv_id (db_invoices e))" using kept by (simp_all add: drain_kept_def)
  note step = store_step_kept [OF assms(2) holds this]
  then have "drain_kept (e\<lparr>db_drains := db_drains d'\<rparr>) (f\<lparr>db_drains := db_drains d'\<rparr>)" by (simp add: drain_kept_def)
  from drain_kept_trans [OF kept this] step assms(1) show ?thesis by (auto simp: drain_tracked_def drain_kept_def)
qed

lemma replay_writes:
  assumes "exact_drain_replay env collate creator lock_resource now e = Inr (r, f)"
  shows "\<exists>rows. f = e\<lparr>db_drains := rows\<rparr> \<and>
    (rows = db_drains e \<or> (\<exists>i. rows = update_where (\<lambda>r. dn_id r = i) (progressed now e) (db_drains e)))"
proof (cases "current_drain e (hash_of env creator) (hash_of env lock_resource)")
  case None
  then show ?thesis using assms by (intro exI [of _ "db_drains e"]) (simp add: exact_drain_replay_def)
next
  case (Some row)
  then have "f = e\<lparr>db_drains := update_where (\<lambda>r. dn_id r = dn_id row) (progressed now e) (db_drains e)\<rparr>"
    using assms by (simp add: exact_drain_replay_def split: if_splits) auto
  then show ?thesis by blast
qed

lemma tracked_replay:
  assumes "drain_tracked c h row d' e" "exact_drain_replay env collate creator lock_resource now e = Inr (r, f)"
    and "drain_created env fresh row cs xs d d'" "drains_ok d"
  shows "drain_tracked c h row d' f"
proof -
  from replay_writes [OF assms(2)] obtain rows where f: "f = e\<lparr>db_drains := rows\<rparr>"
    and rows: "rows = db_drains e \<or> (\<exists>i. rows = update_where (\<lambda>r. dn_id r = i) (progressed now e) (db_drains e))" by blast
  have kept: "drain_kept d' (e\<lparr>db_drains := db_drains d'\<rparr>)" using assms(1) by (simp add: drain_tracked_def)
  note progress = created_progress [OF assms(3) kept assms(4)]
  have pos: "0 \<le> progress_accepted e (dn_id row)" by (simp add: progress_accepted_def)
  have total: "progress_accepted e (dn_id row) \<le> dn_accepted row"
    "progress_accepted e (dn_id row) + progress_terminal e (dn_id row) = dn_accepted row + dn_terminal row"
    using progress by (simp_all add: progress_consistent_def)
  have "map drain_core (update_where p (progressed now e) xs) = map drain_core xs" for p xs by (rule map_update_where) simp
  then have "map drain_core rows = map drain_core (db_drains e)" using rows by auto
  moreover have "0 \<le> dn_accepted r \<and> dn_accepted r \<le> dn_accepted row \<and> dn_accepted r + dn_terminal r = dn_accepted row + dn_terminal row"
    if "r \<in> set rows" "dn_id r = dn_id row" for r
    using rows that assms(1) pos total
    by (elim disjE exE) (auto simp: drain_tracked_def set_update_where progressed_def Let_def split: if_splits)
  ultimately show ?thesis
    using assms(1) by (simp add: drain_tracked_def f drain_holds_def lock_invoices_def)
qed

lemma tracked_run:
  assumes "drain_tracked c h row d' e" "(drained_step env collate)\<^sup>*\<^sup>* e f"
    and "drain_created env fresh row cs xs d d'" "drains_ok d"
  shows "drain_tracked c h row d' f"
  using assms(2)
proof (induction rule: rtranclp_induct)
  case (step x y)
  from step(2) show ?case
    using step(3) tracked_work tracked_replay [OF _ _ assms(3,4)] by cases blast+
qed (use assms(1) in simp)

lemma worked_run:
  assumes "drain_tracked c h row d' e" "(store_step env)\<^sup>*\<^sup>* e f"
  shows "drain_tracked c h row d' f \<and> db_drains f = db_drains e"
  using assms(2,1)
proof (induction rule: rtranclp_induct)
  case (step x y)
  then show ?case using tracked_work [of c h row d' x] by auto
qed simp

lemma written_row:
  assumes "drain_written row cs xs d d'" "r \<in> set (db_drains d')" "dn_id r = dn_id row"
  shows "r = row"
proof (rule ccontr)
  assume "r \<noteq> row"
  then have "r \<in> set (db_drains d)" using assms(1,2) by (simp add: drain_written_def)
  then have "dn_id row \<in> dn_id ` set (db_drains d)" unfolding assms(3) [symmetric] by (rule imageI)
  then show False using assms(1) by (simp add: drain_written_def)
qed

lemma written_tracked:
  assumes "drain_written row cs xs d d'" "drains_ok d" "dn_creator row = c" "dn_lock_hash row = h"
    and "distinct (map ob_id (db_outbox d'))" "distinct (map iv_id (db_invoices d'))" "0 \<le> dn_accepted row"
  shows "drain_tracked c h row d' d'"
proof -
  have "d'\<lparr>db_drains := db_drains d'\<rparr> = d'" by simp
  then show ?thesis
    using drain_kept_refl [OF assms(5,6)] written_holds [OF assms(1-4)] written_row [OF assms(1)] assms(7) by (auto simp: drain_tracked_def)
qed

end
