(* ===== verification/Paykit_Adapter.thy ===== *)
theory Paykit_Adapter
  imports Store_Runs
begin

text \<open>
  The Paykit adapter of one creator, \<open>paykit-server/src/paykit.rs\<close>: the payment kit it calls, the
  projection of the requests the kit reports into the request lifecycles, the receive that must
  precede a drain, and the drain it creates after that receive.  The kit is a parameter with a state
  of its own.
\<close>

section \<open>The payment kit\<close>

datatype sdk_error =
    SdkConcurrentUpdate | SdkSharedStateBusy | SdkStorage | SdkIdentity | SdkTransport | SdkNotFound | SdkProtocol
  | SdkLinkObservation | SdkPolicy | SdkPaymentAdapter | SdkRecoveryRequired | SdkOther

datatype linked_peer_state = PeerLinked | PeerRecoveryRequired | PeerOther

datatype outbound_status =
    OutboundPending | OutboundSending | OutboundFailed | OutboundSent | OutboundInvalid | OutboundRecoveryRequired
  | OutboundSuperseded

datatype local_role = RolePayee | RolePayer

datatype sdk_request_state = KnownState request_state | UnknownState

record 'd terms_record =
  tr_amount :: string
  tr_asset :: string
  tr_conversion :: "payment_conversion option"
  tr_payment_reference :: string
  tr_proposal_expires_at :: "string option"
  tr_payment_deadline :: "'d option"
  tr_accepted :: "string list"
  tr_payment_endpoints :: "(string \<times> string) list option"
  tr_metadata :: "(string \<times> json) list"
  tr_recurring :: bool

text \<open>The last event is dated by whole seconds and the nanoseconds within the second.\<close>

record ('p, 'd) request_record =
  rr_counterparty :: 'p
  rr_payment_request_id :: string
  rr_local_role :: "local_role option"
  rr_proposal_app_id :: "string option"
  rr_terms :: "'d terms_record option"
  rr_state :: sdk_request_state
  rr_proposal_event_id :: "string option"
  rr_accepted_event_id :: "string option"
  rr_rejected_event_id :: "string option"
  rr_canceled_event_id :: "string option"
  rr_payment_proofs :: "string list"
  rr_last_stream_item_id :: "u64 option"
  rr_proposal_outbound_message_id :: "u64 option"
  rr_last_outbound_message_id :: "u64 option"
  rr_last_event_at :: "(int \<times> int) option"

record app_capabilities =
  cap_private_payments :: bool
  cap_payment_requests :: bool
  cap_receipts :: bool
  cap_outgoing_payments :: bool

record app_registry =
  reg_noise_public_key :: "string option"
  reg_apps :: "(string \<times> app_capabilities) list"

record 'p outbound_record =
  or_outbound_message_id :: u64
  or_app_id :: string
  or_status :: outbound_status
  or_counterparty :: 'p

record send_report =
  sr_sent :: "u64 list"
  sr_failed :: nat
  sr_reservation_cleanup_failures :: nat
  sr_recovery_marker_failures :: nat

text \<open>
  The calls of the kit.  It keeps a state \<open>'s\<close> of its own; \<open>'p\<close> is its public key type.
\<close>

record ('p, 'd, 's) kit =
  kit_peer :: "string \<Rightarrow> 'p option"
  kit_peer_str :: "'p \<Rightarrow> string"
  kit_receive :: "'p \<Rightarrow> 's \<Rightarrow> (sdk_error, unit) res \<times> 's"
  kit_receive_linked :: "'s \<Rightarrow> (sdk_error, sdk_error option list) res \<times> 's"
  kit_payment_requests :: "'s \<Rightarrow> (sdk_error, ('p, 'd) request_record list) res \<times> 's"
  kit_registry :: "'p \<Rightarrow> 's \<Rightarrow> (sdk_error, app_registry option) res \<times> 's"
  kit_authorization :: "'p \<Rightarrow> 's \<Rightarrow> (sdk_error, unit) res \<times> 's"
  kit_ensure_link :: "'p \<Rightarrow> 's \<Rightarrow> (sdk_error, linked_peer_state) res \<times> 's"
  kit_propose :: "'p \<Rightarrow> string \<Rightarrow> 'd sdk_terms \<Rightarrow> 's \<Rightarrow> (sdk_error, ('p, 'd) request_record) res \<times> 's"
  kit_cancel :: "'p \<Rightarrow> string \<Rightarrow> 's \<Rightarrow> (sdk_error, ('p, 'd) request_record) res \<times> 's"
  kit_outbound :: "'s \<Rightarrow> (sdk_error, 'p outbound_record list) res \<times> 's"
  kit_process_outbound :: "'p \<Rightarrow> 's \<Rightarrow> (sdk_error, send_report) res \<times> 's"
  kit_linked_peers :: "'s \<Rightarrow> (sdk_error, ('p \<times> linked_peer_state) list) res \<times> 's"
  kit_pending_outbound :: "'s \<Rightarrow> (sdk_error, 'p list) res \<times> 's"

text \<open>A call that fails ends the operation, and keeps the state it has reached.\<close>

definition bindk :: "('e, 'a) res \<times> 's \<Rightarrow> ('a \<Rightarrow> 's \<Rightarrow> ('e, 'b) res \<times> 's) \<Rightarrow> ('e, 'b) res \<times> 's" where
  "bindk r f = (case r of (Inl e, s) \<Rightarrow> (Inl e, s) | (Inr x, s) \<Rightarrow> f x s)"

definition map_errk :: "('e \<Rightarrow> 'f) \<Rightarrow> ('e, 'a) res \<times> 's \<Rightarrow> ('f, 'a) res \<times> 's" where
  "map_errk g r = (map_err g (fst r), snd r)"

lemma bindk_simps [simp]: "bindk (Inl e, s) f = (Inl e, s)" "bindk (Inr x, s) f = f x s"
  by (simp_all add: bindk_def)

lemma bindk_Inr: "bindk r f = (Inr y, s') \<longleftrightarrow> (\<exists>x s. r = (Inr x, s) \<and> f x s = (Inr y, s'))"
  by (auto simp: bindk_def split: prod.splits sum.splits)

section \<open>Errors\<close>

datatype retryable_handoff_cause =
    CauseStorage | CauseIdentity | CauseTransport | CauseNotFound | CausePaymentAdapter | CauseRecoveryRequired
  | CauseLinkObservation | CausePolicy | CauseLinkPending | CauseOther

datatype handoff_error = HandoffRetryable retryable_handoff_cause | HandoffPermanent

definition classify_sdk :: "sdk_error \<Rightarrow> handoff_error" where
  "classify_sdk e =
     (case e of
        SdkProtocol \<Rightarrow> HandoffPermanent
      | SdkLinkObservation \<Rightarrow> HandoffRetryable CauseLinkObservation
      | SdkPolicy \<Rightarrow> HandoffRetryable CausePolicy
      | SdkStorage \<Rightarrow> HandoffRetryable CauseStorage
      | SdkIdentity \<Rightarrow> HandoffRetryable CauseIdentity
      | SdkTransport \<Rightarrow> HandoffRetryable CauseTransport
      | SdkNotFound \<Rightarrow> HandoffRetryable CauseNotFound
      | SdkPaymentAdapter \<Rightarrow> HandoffRetryable CausePaymentAdapter
      | SdkRecoveryRequired \<Rightarrow> HandoffRetryable CauseRecoveryRequired
      | _ \<Rightarrow> HandoffRetryable CauseOther)"

definition require_linked :: "linked_peer_state \<Rightarrow> (handoff_error, unit) res" where
  "require_linked state =
     (case state of
        PeerLinked \<Rightarrow> Inr ()
      | PeerRecoveryRequired \<Rightarrow> Inl (HandoffRetryable CauseRecoveryRequired)
      | PeerOther \<Rightarrow> Inl (HandoffRetryable CauseLinkPending))"

datatype lifecycle_sync_error = SyncSdk | SyncPersistence | SyncConflict | SyncInvalidProjection | SyncPartialReceive

definition map_projection_persistence_error :: "persistence_error \<Rightarrow> lifecycle_sync_error" where
  "map_projection_persistence_error e = (case e of StoreConflict \<Rightarrow> SyncConflict | _ \<Rightarrow> SyncPersistence)"

datatype payment_drain_error = DrainCreatorMismatch | DrainConflict | DrainUnavailable

definition map_lifecycle_drain_error :: "lifecycle_sync_error \<Rightarrow> payment_drain_error" where
  "map_lifecycle_drain_error e = (case e of SyncConflict \<Rightarrow> DrainConflict | _ \<Rightarrow> DrainUnavailable)"

definition map_drain_persistence_error :: "persistence_error \<Rightarrow> payment_drain_error" where
  "map_drain_persistence_error e = (case e of StoreConflict \<Rightarrow> DrainConflict | _ \<Rightarrow> DrainUnavailable)"

section \<open>Projecting the kit's requests\<close>

definition first_some :: "'a option list \<Rightarrow> 'a option" where
  "first_some xs = (case dropWhile (\<lambda>x. x = None) xs of [] \<Rightarrow> None | x # _ \<Rightarrow> x)"

definition last_proof :: "('p, 'd) request_record \<Rightarrow> string option" where
  "last_proof record = (if rr_payment_proofs record = [] then None else Some (last (rr_payment_proofs record)))"

definition recovery_state_event_id ::
  "string option \<Rightarrow> string option \<Rightarrow> string option \<Rightarrow> string option \<Rightarrow> string option \<Rightarrow> string option" where
  "recovery_state_event_id canceled rejected latest_payment_proof accepted proposal =
     first_some [canceled, rejected, latest_payment_proof, accepted, proposal]"

definition persisted_lifecycle_state :: "sdk_request_state \<Rightarrow> (lifecycle_sync_error, request_state) res" where
  "persisted_lifecycle_state state =
     (case state of KnownState st \<Rightarrow> Inr st | UnknownState \<Rightarrow> Inl SyncInvalidProjection)"

definition state_event_id :: "('p, 'd) request_record \<Rightarrow> request_state \<Rightarrow> string option" where
  "state_event_id record state =
     (case state of
        Proposed \<Rightarrow> rr_proposal_event_id record
      | ProposalExpired \<Rightarrow> rr_proposal_event_id record
      | Accepted \<Rightarrow> rr_accepted_event_id record
      | ActiveRecurring \<Rightarrow> rr_accepted_event_id record
      | Rejected \<Rightarrow> rr_rejected_event_id record
      | Canceled \<Rightarrow> rr_canceled_event_id record
      | ProofSubmitted \<Rightarrow> last_proof record
      | RecoveryRequired \<Rightarrow>
          recovery_state_event_id (rr_canceled_event_id record) (rr_rejected_event_id record) (last_proof record)
            (rr_accepted_event_id record) (rr_proposal_event_id record)
      | InvalidConflict \<Rightarrow>
          first_some [rr_canceled_event_id record, rr_rejected_event_id record, rr_accepted_event_id record,
            rr_proposal_event_id record])"

definition projected_terms :: "('r, 'd) sdk \<Rightarrow> 'd terms_record \<Rightarrow> (lifecycle_sync_error, payment_terms) res" where
  "projected_terms sdk terms =
     bindr (case tr_conversion terms of
              Some (Fixed rates) \<Rightarrow> Inr rates
            | Some PerPeriod \<Rightarrow> Inl SyncInvalidProjection
            | None \<Rightarrow> Inr []) (\<lambda>rates.
     bindr (case tr_payment_deadline terms of
              None \<Rightarrow> Inr None
            | Some deadline \<Rightarrow> bindr (ok_or (deadline_at sdk deadline) SyncInvalidProjection) (\<lambda>t. Inr (Some t)))
       (\<lambda>payment_deadline.
     bindr (ok_or (tr_payment_endpoints terms) SyncInvalidProjection) (\<lambda>payment_endpoints.
     Inr \<lparr>pt_amount = tr_amount terms, pt_asset = tr_asset terms, pt_rates = rates,
          pt_payment_reference = tr_payment_reference terms,
          pt_proposal_expires_at = tr_proposal_expires_at terms, pt_payment_deadline = payment_deadline,
          pt_accepted_endpoint_identifiers = tr_accepted terms,
          pt_payment_endpoints = btree_collect payment_endpoints, pt_metadata = tr_metadata terms\<rparr>)))"

text \<open>The signed 64-bit seconds and the nanoseconds within a second always fit the 128-bit product.\<close>

definition project_request ::
  "('p, 'd, 's) kit \<Rightarrow> ('r, 'd) sdk \<Rightarrow> (int \<Rightarrow> int option) \<Rightarrow> ('p, 'd) request_record
     \<Rightarrow> (lifecycle_sync_error, lifecycle_projection) res" where
  "project_request kit sdk from_nanos record =
     (if rr_local_role record \<noteq> Some RolePayee then Inl SyncInvalidProjection
      else
        bindr (ok_or (case rr_terms record of Some terms \<Rightarrow> if tr_recurring terms then None else Some terms | None \<Rightarrow> None)
                 SyncInvalidProjection) (\<lambda>terms.
        bindr (persisted_lifecycle_state (rr_state record)) (\<lambda>state.
        bindr (ok_or (rr_last_event_at record) SyncInvalidProjection) (\<lambda>(secs, nanos).
        bindr (ok_or (from_nanos (secs * 1000000000 + nanos)) SyncInvalidProjection) (\<lambda>last_event_at.
        bindr (ok_or (rr_proposal_app_id record) SyncInvalidProjection) (\<lambda>app_id.
        bindr (projected_terms sdk terms) (\<lambda>projected.
        Inr \<lparr>lp_payment_request_id = rr_payment_request_id record,
             lp_proposal = \<lparr>pc_reader_pubky = ''pubky'' @ kit_peer_str kit (rr_counterparty record),
               pc_app_id = app_id, pc_terms = projected\<rparr>,
             lp_request_state = state, lp_state_event_id = state_event_id record state,
             lp_last_stream_item_id = rr_last_stream_item_id record,
             lp_last_outbound_message_id = rr_last_outbound_message_id record,
             lp_last_event_at = last_event_at\<rparr>)))))))"

definition lifecycle_projections ::
  "('p, 'd, 's) kit \<Rightarrow> ('r, 'd) sdk \<Rightarrow> (int \<Rightarrow> int option) \<Rightarrow> string \<Rightarrow> ('p, 'd) request_record list
     \<Rightarrow> (lifecycle_sync_error, lifecycle_projection) res list" where
  "lifecycle_projections kit sdk from_nanos app_id records =
     map (project_request kit sdk from_nanos)
       (filter (\<lambda>record. rr_proposal_app_id record = None \<or> rr_proposal_app_id record = Some app_id)
         (filter (\<lambda>record. rr_local_role record \<noteq> Some RolePayer) records))"

section \<open>Receiving and projecting\<close>

datatype receive_health = ReceiveAvailable | ReceiveUnavailable

record 'p intake_report =
  ir_counterparty :: 'p
  ir_error :: "sdk_error option"
  ir_report :: "unit option"

definition parse_receive_targets ::
  "('p, 'd, 's) kit \<Rightarrow> string list \<Rightarrow> (lifecycle_sync_error, 'p list) res" where
  "parse_receive_targets kit targets = mapr (\<lambda>target. ok_or (kit_peer kit target) SyncInvalidProjection) targets"

definition receive_health_for_required_targets :: "'p intake_report list \<Rightarrow> 'p list \<Rightarrow> receive_health" where
  "receive_health_for_required_targets reports required_targets =
     (if list_all (\<lambda>required.
           let matching = filter (\<lambda>report. ir_counterparty report = required) reports in
           list_all (\<lambda>report. ir_error report = None) matching \<and>
           list_ex (\<lambda>report. ir_report report \<noteq> None \<and> ir_error report = None) matching) required_targets
      then ReceiveAvailable else ReceiveUnavailable)"

fun receive_from_targets :: "('p, 'd, 's) kit \<Rightarrow> 'p list \<Rightarrow> 's \<Rightarrow> 'p intake_report list \<times> 's" where
  "receive_from_targets kit [] s = ([], s)"
| "receive_from_targets kit (target # targets) s =
     (let (received, s1) = kit_receive kit target s;
          (reports, s2) = receive_from_targets kit targets s1 in
      (\<lparr>ir_counterparty = target,
        ir_error = (case received of Inl e \<Rightarrow> Some e | Inr _ \<Rightarrow> None),
        ir_report = (case received of Inl _ \<Rightarrow> None | Inr x \<Rightarrow> Some x)\<rparr> # reports, s2))"

fun persist_projections ::
  "('r, 'd) env \<Rightarrow> (int \<Rightarrow> int option) \<Rightarrow> uuid \<Rightarrow> (lifecycle_sync_error, lifecycle_projection) res list
     \<Rightarrow> lifecycle_sync_error option \<Rightarrow> db \<Rightarrow> lifecycle_sync_error option \<times> db" where
  "persist_projections env from_nanos creator_id [] first_error d = (first_error, d)"
| "persist_projections env from_nanos creator_id (projection # projections) first_error d =
     (let keep_first = (\<lambda>e. if first_error = None then Some e else first_error) in
      case projection of
        Inl e \<Rightarrow> persist_projections env from_nanos creator_id projections (keep_first e) d
      | Inr p \<Rightarrow>
          (case apply_lifecycle env from_nanos creator_id p d of
             Inl e \<Rightarrow> persist_projections env from_nanos creator_id projections
                       (keep_first (map_projection_persistence_error e)) d
           | Inr (_, d') \<Rightarrow> persist_projections env from_nanos creator_id projections first_error d'))"

definition project_lifecycles_after_receive ::
  "('r, 'd) env \<Rightarrow> (int \<Rightarrow> int option) \<Rightarrow> uuid \<Rightarrow> (lifecycle_sync_error, lifecycle_projection) res list
     \<Rightarrow> receive_health \<Rightarrow> db \<Rightarrow> (lifecycle_sync_error, unit) res \<times> db" where
  "project_lifecycles_after_receive env from_nanos creator_id projections health d =
     (let (first_error, d') = persist_projections env from_nanos creator_id projections None d in
      (if health = ReceiveUnavailable then Inl SyncPartialReceive
       else case first_error of Some e \<Rightarrow> Inl e | None \<Rightarrow> Inr (), d'))"

definition project_payment_requests_locked ::
  "('p, 'd, 's) kit \<Rightarrow> ('r, 'd) env \<Rightarrow> (int \<Rightarrow> int option) \<Rightarrow> string \<Rightarrow> uuid \<Rightarrow> receive_health \<Rightarrow> 's \<times> db
     \<Rightarrow> (lifecycle_sync_error, ('p, 'd) request_record list) res \<times> 's \<times> db" where
  "project_payment_requests_locked kit env from_nanos app_id creator_id health = (\<lambda>(s, d).
     case kit_payment_requests kit s of
       (Inl _, s1) \<Rightarrow> (Inl SyncSdk, s1, d)
     | (Inr records, s1) \<Rightarrow>
         (case project_lifecycles_after_receive env from_nanos creator_id
                 (lifecycle_projections kit (env_sdk env) from_nanos app_id records) health d of
            (Inl e, d1) \<Rightarrow> (Inl e, s1, d1)
          | (Inr _, d1) \<Rightarrow> (Inr records, s1, d1)))"

definition refresh_payment_requests_locked ::
  "('p, 'd, 's) kit \<Rightarrow> ('r, 'd) env \<Rightarrow> (int \<Rightarrow> int option) \<Rightarrow> string \<Rightarrow> uuid \<Rightarrow> 'p list \<Rightarrow> 's \<times> db
     \<Rightarrow> (lifecycle_sync_error, unit) res \<times> 's \<times> db" where
  "refresh_payment_requests_locked kit env from_nanos app_id creator_id required_targets = (\<lambda>(s, d).
     let (reports, s1) = receive_from_targets kit required_targets s;
         health = receive_health_for_required_targets reports required_targets in
     bindk (project_payment_requests_locked kit env from_nanos app_id creator_id health (s1, d)) (\<lambda>_ w. (Inr (), w)))"

definition reconcile_and_create_payment_drain ::
  "('p, 'd, 's) kit \<Rightarrow> ('r, 'd) env \<Rightarrow> (string \<Rightarrow> string) \<Rightarrow> (int \<Rightarrow> int option) \<Rightarrow> drain_fresh \<Rightarrow> string \<Rightarrow> uuid \<Rightarrow> string
     \<Rightarrow> string \<Rightarrow> string \<Rightarrow> 's \<times> db \<Rightarrow> (payment_drain_error, drain_snapshot) res \<times> 's \<times> db" where
  "reconcile_and_create_payment_drain kit env collate from_nanos fresh app_id creator_id creator owner lock_resource = (\<lambda>(s, d).
     if owner \<noteq> creator then (Inl DrainCreatorMismatch, s, d)
     else case exact_drain_replay env collate owner lock_resource (df_now fresh) d of
       Inl e \<Rightarrow> (Inl (map_drain_persistence_error e), s, d)
     | Inr (Some replay, d1) \<Rightarrow> (Inr replay, s, d1)
     | Inr (None, d1) \<Rightarrow>
         (case map_err (map_lifecycle_drain_error \<circ> map_projection_persistence_error)
                 (required_receive_targets_for_lock env d1 creator_id lock_resource) of
            Inl e \<Rightarrow> (Inl e, s, d1)
          | Inr required_targets \<Rightarrow>
              (case map_err map_lifecycle_drain_error (parse_receive_targets kit required_targets) of
                 Inl e \<Rightarrow> (Inl e, s, d1)
               | Inr peers \<Rightarrow>
                   bindk (map_errk map_lifecycle_drain_error
                            (refresh_payment_requests_locked kit env from_nanos app_id creator_id peers (s, d1))) (\<lambda>_ (s2, d2).
                   case create_inner env collate fresh owner lock_resource (Some required_targets) d2 of
                     Inl e \<Rightarrow> (Inl (map_drain_persistence_error e), s2, d2)
                   | Inr (snapshot, d3) \<Rightarrow> (Inr snapshot, s2, d3)))))"

section \<open>What a refresh has recorded\<close>

lemma persist_projections_steps:
  "persist_projections env from_nanos creator_id ps e d = (e', d') \<Longrightarrow> (lifecycle_step env)\<^sup>*\<^sup>* d d'"
proof (induction ps arbitrary: e d)
  case (Cons p ps)
  show ?case
  proof (cases p)
    case (Inl x)
    then show ?thesis using Cons by (simp add: Let_def)
  next
    case (Inr q)
    show ?thesis
    proof (cases "apply_lifecycle env from_nanos creator_id q d")
      case (Inl x)
      then show ?thesis using Cons \<open>p = Inr q\<close> by (simp add: Let_def)
    next
      case applied: (Inr y)
      obtain outcome d1 where y: "y = (outcome, d1)" by force
      have "lifecycle_step env d d1" using applied y by (auto intro: lifecycle_step.intros)
      moreover have "(lifecycle_step env)\<^sup>*\<^sup>* d1 d'"
        using Cons.IH Cons.prems applied y \<open>p = Inr q\<close> by (simp add: Let_def)
      ultimately show ?thesis by (rule converse_rtranclp_into_rtranclp)
    qed
  qed
qed simp

lemma first_error_kept: "persist_projections env from_nanos creator_id ps (Some e) d = (e', d') \<Longrightarrow> e' = Some e"
  by (induction ps arbitrary: d) (auto split: sum.splits)

text \<open>A refresh without an error has applied every projection.\<close>

lemma persist_projections_clean:
  assumes "persist_projections env from_nanos creator_id (p # ps) None d = (None, d')"
  obtains q outcome d1 where "p = Inr q" "apply_lifecycle env from_nanos creator_id q d = Inr (outcome, d1)"
    "persist_projections env from_nanos creator_id ps None d1 = (None, d')"
proof (cases p)
  case (Inl e)
  then show ?thesis using assms first_error_kept [of env from_nanos creator_id ps e d] by auto
next
  case (Inr q)
  show ?thesis
  proof (cases "apply_lifecycle env from_nanos creator_id q d")
    case (Inl e)
    then show ?thesis using assms Inr first_error_kept by (fastforce simp: Let_def)
  next
    case applied: (Inr y)
    then show ?thesis using that assms Inr by (cases y) simp
  qed
qed

text \<open>No stored request of this identifier is still only proposed.\<close>

definition not_proposed :: "string \<Rightarrow> db \<Rightarrow> bool" where
  "not_proposed i d \<longleftrightarrow> (\<forall>row \<in> set (db_lifecycles d). lr_payment_request_id row = i \<longrightarrow> lr_request_state row \<noteq> ''proposed'')"

definition lifecycle_ids :: "db \<Rightarrow> string list" where
  "lifecycle_ids d = map lr_payment_request_id (db_lifecycles d)"

lemma applied_frame:
  assumes "apply_lifecycle env from_nanos creator_id p d = Inr (outcome, d')"
  obtains rows where "d' = d\<lparr>db_lifecycles := rows\<rparr>"
  using assms
proof (rule apply_lifecycle_Inr, goal_cases)
  case 1
  then show ?thesis using that [of "db_lifecycles d"] by simp
next
  case (2 stream outbound event_at owner)
  from 2(8) show ?thesis
    by (rule record_lifecycle_Inr) (use that in \<open>auto intro: that [of "db_lifecycles d"]\<close>)
qed

lemma proposed_text: "request_state_str st = ''proposed'' \<longleftrightarrow> st = Proposed"
  by (cases st) simp_all

lemma applied_ids:
  assumes "apply_lifecycle env from_nanos creator_id p d = Inr (outcome, d')" "distinct (lifecycle_ids d)"
  shows "distinct (lifecycle_ids d')"
  using assms(1)
proof (rule apply_lifecycle_Inr, goal_cases)
  case 1
  then show ?case using assms(2) by simp
next
  case (2 stream outbound event_at owner)
  have "map lr_payment_request_id (update_where q (update_lifecycle p stream outbound event_at) xs) = map lr_payment_request_id xs" for q xs
    by (rule map_update_where) (simp add: update_lifecycle_def)
  with 2(7) show ?case
    by (rule_tac record_lifecycle_Inr [OF 2(7)])
      (use assms(2) in \<open>auto simp: lifecycle_ids_def find_lifecycle_def find_None_iff new_lifecycle_def\<close>)
qed

lemma applied_not_proposed:
  assumes "apply_lifecycle env from_nanos creator_id p d = Inr (outcome, d')" "distinct (lifecycle_ids d)"
    and "lp_payment_request_id p = i \<Longrightarrow> lp_request_state p \<noteq> Proposed"
    and "not_proposed i d \<or> lp_payment_request_id p = i \<and> attributed_owner env d creator_id p \<noteq> Inr None"
  shows "not_proposed i d'"
  using assms(1)
proof (rule apply_lifecycle_Inr, goal_cases)
  case 1
  then show ?case using assms(4) by simp
next
  case (2 stream outbound event_at owner)
  from 2(7) show ?case
  proof (rule record_lifecycle_Inr, goal_cases)
    case (1 existing)
    then have row: "existing \<in> set (db_lifecycles d)" "lr_payment_request_id existing = lp_payment_request_id p"
      by (auto simp: find_lifecycle_def find_Some_iff)
    show ?case
    proof (cases "lp_payment_request_id p = i")
      case True
      have "r = existing" if "r \<in> set (db_lifecycles d)" "lr_payment_request_id r = i" for r
        using that row True assms(2) unfolding lifecycle_ids_def by (metis inj_onD distinct_map)
      moreover have "lr_request_state existing \<noteq> ''proposed''"
        using 1(2) assms(3) True by (simp add: lifecycle_exact_replay_def proposed_text)
      ultimately show ?thesis using 1(4) by (auto simp: not_proposed_def)
    next
      case False
      then show ?thesis using assms(4) 1(4) by simp
    qed
  next
    case (2 existing st)
    show ?case using assms(3,4) unfolding 2(6)
      by (cases "lp_payment_request_id p = i") (auto simp: not_proposed_def update_where_def update_lifecycle_def proposed_text split: if_splits)
  next
    case 3
    have "not_proposed i d"
      using assms(4) 3(1) by (auto simp: not_proposed_def find_lifecycle_def find_None_iff)
    then show ?case using assms(3) unfolding 3(4) by (auto simp: not_proposed_def new_lifecycle_def proposed_text)
  qed
qed

lemma persisted_not_proposed:
  assumes "persist_projections env from_nanos creator_id ps None d = (None, d')" "distinct (lifecycle_ids d)"
    and "\<forall>p. Inr p \<in> set ps \<and> lp_payment_request_id p = i \<longrightarrow> lp_request_state p \<noteq> Proposed"
    and "not_proposed i d \<or> (\<exists>p. Inr p \<in> set ps \<and> lp_payment_request_id p = i \<and> attributed_owner env d creator_id p \<noteq> Inr None)"
  shows "not_proposed i d'"
  using assms
proof (induction ps arbitrary: d)
  case (Cons x ps)
  obtain q outcome d1 where q: "x = Inr q" "apply_lifecycle env from_nanos creator_id q d = Inr (outcome, d1)"
    and rest: "persist_projections env from_nanos creator_id ps None d1 = (None, d')"
    by (rule persist_projections_clean [OF Cons.prems(1)])
  obtain rows where d1: "d1 = d\<lparr>db_lifecycles := rows\<rparr>" by (rule applied_frame [OF q(2)])
  have ids: "distinct (lifecycle_ids d1)" by (rule applied_ids [OF q(2) Cons.prems(2)])
  have state: "lp_payment_request_id q = i \<Longrightarrow> lp_request_state q \<noteq> Proposed" using Cons.prems(3) q(1) by simp
  have "not_proposed i d1 \<or> (\<exists>p. Inr p \<in> set ps \<and> lp_payment_request_id p = i \<and> attributed_owner env d1 creator_id p \<noteq> Inr None)"
    using applied_not_proposed [OF q(2) Cons.prems(2) state] Cons.prems(4) q(1) by (auto simp: d1)
  then show ?case using Cons.IH [OF rest ids] Cons.prems(3) by simp
qed simp

lemma attempt_row_lifecycle:
  assumes "a \<in> set (attempt_rows collate d v)" "il_request_state a = Some st"
  shows "\<exists>r \<in> set (db_lifecycles d). lr_request_state r = st \<and> il_payment_request_id a = Some (lr_payment_request_id r)"
proof (cases "filter (\<lambda>r. lr_invoice r = Some (iv_id v)) (db_lifecycles d)")
  case Nil
  then show ?thesis using assms by (simp add: attempt_rows_def)
next
  case (Cons x xs)
  from arg_cong [OF Cons, of set] have "set (x # xs) \<subseteq> set (db_lifecycles d)" by auto
  then show ?thesis using assms by (auto simp: attempt_rows_def Cons set_insort_key)
qed

lemma planned_only_proposed:
  assumes "plan_drain env collate fresh c ch h evidence d = Inr (n, cs, xs)" "x \<in> set xs"
  shows "\<exists>r \<in> set (db_lifecycles d). lr_payment_request_id r = pc_payment_request_id x \<and> lr_request_state r = ''proposed''"
proof -
  obtain drained where m: "mapr (drain_invoice env fresh d c ch) (drained_generation collate d c h n) = Inr drained"
    and xs: "xs = sort_key (\<lambda>c. (pc_invoice c, pc_payment_request_id c, pc_outbox c)) (concat (map snd drained))"
    by (rule plan_drain_Inr [OF assms(1)])
  from assms(2) xs obtain y where y: "y \<in> set drained" "x \<in> set (snd y)" by auto
  from mapr_mem [OF m y(1)] obtain i as where as: "(i, as) \<in> set (drained_generation collate d c h n)"
    "drain_invoice env fresh d c ch (i, as) = Inr y" by auto
  then obtain parsed where parsed: "mapr parse_attempt as = Inr parsed"
    and prep: "prepare_cancellations env fresh d c ch i (filter (\<lambda>(st, _). st = Proposed) parsed) = Inr (snd y)"
    by (auto simp: drain_invoice_def)
  from prep y(2) obtain p where
    "mapr (\<lambda>(_, request, _). prepare_cancellation env fresh d c ch i p request) (filter (\<lambda>(st, _). st = Proposed) parsed) = Inr (snd y)"
    by (auto simp: prepare_cancellations_def split: if_splits)
  from mapr_mem [OF this y(2)] obtain request at' where q: "(Proposed, request, at') \<in> set parsed"
    "prepare_cancellation env fresh d c ch i p request = Inr x" by auto
  from mapr_mem [OF parsed q(1)] obtain a where a: "a \<in> set as" "parse_attempt a = Inr (Proposed, request, at')" by blast
  have request: "request = Some (pc_payment_request_id x)" by (rule prepare_cancellation_Inr(2) [OF q(2)])
  from drained_attempts [OF as(1)] obtain v where v: "set as = set (attempt_rows collate d v)" by blast
  from a(2) request have "il_payment_request_id a = Some (pc_payment_request_id x)" "il_request_state a = Some ''proposed''"
    by (auto simp: parse_attempt_def request_state_parse_def split: option.splits if_splits)
  with attempt_row_lifecycle [of a collate d v] a(1) v show ?thesis by auto
qed

lemma received_all:
  assumes "receive_from_targets kit targets s = (reports, s')"
    and "receive_health_for_required_targets reports targets = ReceiveAvailable"
  shows "map ir_counterparty reports = targets" "\<forall>report \<in> set reports. ir_error report = None"
proof -
  show counterparties: "map ir_counterparty reports = targets"
    using assms(1) by (induction targets arbitrary: s reports s') (auto split: prod.splits simp: Let_def)
  show "\<forall>report \<in> set reports. ir_error report = None"
    using assms(2) unfolding counterparties [symmetric]
    by (auto simp: receive_health_for_required_targets_def list_all_iff Let_def split: if_splits)
qed

lemma refresh_Inr:
  assumes "refresh_payment_requests_locked kit env from_nanos app_id creator_id peers (s, d) = (Inr u, s', d')"
  obtains reports s1 records where "receive_from_targets kit peers s = (reports, s1)"
    "receive_health_for_required_targets reports peers = ReceiveAvailable"
    "kit_payment_requests kit s1 = (Inr records, s')"
    "persist_projections env from_nanos creator_id
       (lifecycle_projections kit (env_sdk env) from_nanos app_id records) None d = (None, d')"
proof -
  obtain reports s1 where r: "receive_from_targets kit peers s = (reports, s1)" by force
  let ?health = "receive_health_for_required_targets reports peers"
  from assms r obtain records where k: "kit_payment_requests kit s1 = (Inr records, s')"
    and p: "project_lifecycles_after_receive env from_nanos creator_id
      (lifecycle_projections kit (env_sdk env) from_nanos app_id records) ?health d = (Inr (), d')"
    by (auto simp: refresh_payment_requests_locked_def project_payment_requests_locked_def Let_def bindk_Inr
        split: prod.splits sum.splits)
  from p have "?health = ReceiveAvailable"
    by (cases ?health) (auto simp: project_lifecycles_after_receive_def Let_def split: prod.splits)
  moreover from p have "persist_projections env from_nanos creator_id
       (lifecycle_projections kit (env_sdk env) from_nanos app_id records) None d = (None, d')"
    by (auto simp: project_lifecycles_after_receive_def Let_def split: prod.splits if_splits option.splits)
  ultimately show thesis using that r k by blast
qed

lemma reconcile_drain_new:
  assumes "reconcile_and_create_payment_drain kit env collate from_nanos fresh app_id creator_id creator owner lock_resource (s, d)
      = (Inr snapshot, s', d')" "exact_drain_replay env collate owner lock_resource (df_now fresh) d = Inr (None, d1)"
  obtains targets peers d2 where "d1 = d" "owner = creator"
    "required_receive_targets_for_lock env d creator_id lock_resource = Inr targets"
    "parse_receive_targets kit targets = Inr peers"
    "refresh_payment_requests_locked kit env from_nanos app_id creator_id peers (s, d) = (Inr (), s', d2)"
    "create_inner env collate fresh creator lock_resource (Some targets) d2 = Inr (snapshot, d')"
proof -
  have d1: "d1 = d"
    using assms(2) by (auto simp: exact_drain_replay_def Let_def split: option.splits if_splits)
  from assms have owner: "owner = creator" by (auto simp: reconcile_and_create_payment_drain_def split: if_splits)
  from assms d1 owner obtain targets where t: "required_receive_targets_for_lock env d creator_id lock_resource = Inr targets"
    by (cases "required_receive_targets_for_lock env d creator_id lock_resource")
      (auto simp: reconcile_and_create_payment_drain_def map_err_def)
  from assms d1 owner t obtain peers where p: "parse_receive_targets kit targets = Inr peers"
    by (cases "parse_receive_targets kit targets") (auto simp: reconcile_and_create_payment_drain_def map_err_def)
  obtain r w where rw: "refresh_payment_requests_locked kit env from_nanos app_id creator_id peers (s, d) = (r, w)"
    by (metis prod.exhaust)
  from assms d1 owner t p rw obtain d2 where "r = Inr ()" "w = (s', d2)"
    "create_inner env collate fresh creator lock_resource (Some targets) d2 = Inr (snapshot, d')"
    by (cases r) (auto simp: reconcile_and_create_payment_drain_def map_err_def map_errk_def split: sum.splits prod.splits)
  with that d1 owner t p rw show thesis by blast
qed

lemma replayed_snapshot:
  "exact_drain_replay env collate creator lock_resource now d = Inr (Some snapshot, d') \<Longrightarrow> ps_replayed snapshot"
  by (auto simp: exact_drain_replay_def Let_def snapshot_of_def split: option.splits if_splits)

lemma lifecycle_run_tables:
  assumes "(lifecycle_step env)\<^sup>*\<^sup>* d d'"
  obtains rows where "d' = d\<lparr>db_lifecycles := rows\<rparr>"
proof -
  from assms have "\<exists>rows. d' = d\<lparr>db_lifecycles := rows\<rparr>"
  proof (induction rule: rtranclp_induct)
    case base
    show ?case by (rule exI [of _ "db_lifecycles d"]) simp
  next
    case (step d1 d2)
    from step(2) obtain from_nanos creator_id p outcome where "apply_lifecycle env from_nanos creator_id p d1 = Inr (outcome, d2)"
      by cases
    then obtain rows where "d2 = d1\<lparr>db_lifecycles := rows\<rparr>" by (rule applied_frame)
    then show ?case using step(3) by auto
  qed
  then show thesis using that by blast
qed

lemma drain_cancellations_planned:
  assumes "create_inner env collate fresh creator lock_resource evidence d = Inr (s, d')" "\<not> ps_replayed s"
    and "keys_ok d" "drains_ok d" "x \<in> set (db_drain_cancellations d')" "dc_drain x = ps_drain_id s"
  shows "\<not> not_proposed (dc_payment_request_id x) d"
proof -
  have keys: "distinct (map ob_id (db_outbox d))" using assms(3) by (simp add: keys_ok_def)
  obtain c n cs xs row where "find_creator_by_hash d (hash_of env creator) = Inr c"
    and plan: "plan_drain env collate fresh (cr_id c) (hash_of env creator) (hash_of env lock_resource) evidence
      (ensure_generation (cr_id c) (hash_of env lock_resource) d) = Inr (n, cs, xs)"
    and created: "drain_created env fresh row cs xs (ensure_generation (cr_id c) (hash_of env lock_resource) d) d'"
    and s: "s = \<lparr>ps_drain_id = dn_id row, ps_created_at = dn_created_at row, ps_accepted_count = of_int (dn_accepted row),
      ps_terminal_count = of_int (dn_terminal row), ps_cancellation_enqueued_count = of_nat (length xs),
      ps_completed = (dn_accepted row = 0), ps_replayed = False\<rparr>"
    by (rule create_inner_new [OF assms(1,2) keys])
  let ?d = "ensure_generation (cr_id c) (hash_of env lock_resource) d"
  have w: "drain_written row cs xs ?d d'" using created by (simp add: drain_created_def)
  have "dc_drain ` set (db_drain_cancellations ?d) \<subseteq> dn_id ` set (db_drains ?d)"
    using drains_ok_ensure [OF assms(4)] unfolding drains_ok_def by blast
  moreover have "dn_id row \<notin> dn_id ` set (db_drains ?d)" using w unfolding drain_written_def by blast
  moreover have "dc_drain x = dn_id row" using assms(6) s by simp
  ultimately have "x \<notin> set (db_drain_cancellations ?d)" by (metis image_eqI subsetD)
  then obtain y where y: "y \<in> set xs" "dc_payment_request_id x = pc_payment_request_id y"
    using w assms(5) unfolding drain_written_def by auto
  have "db_lifecycles ?d = db_lifecycles d" by (simp add: ensure_generation_def split: option.splits)
  then show ?thesis using planned_only_proposed [OF plan y(1)] y(2) by (auto simp: not_proposed_def)
qed

text \<open>C33: A drain created after a reconciliation cancels nothing that was answered: every reader with an
  open request of the lock was received from without an error, and a payment request that the payment
  kit reports in any state but proposed, and that belongs to the creator, is not among the
  cancellations of the drain.\<close>

theorem drain_spares_answered_requests:
  assumes "reconcile_and_create_payment_drain kit env collate from_nanos fresh app_id creator_id creator owner lock_resource (s, d)
      = (Inr snapshot, s', d')" "\<not> ps_replayed snapshot"
    and "keys_ok d" "drains_ok d" "distinct (lifecycle_ids d)"
  shows "\<exists>targets peers reports s1 records.
    required_receive_targets_for_lock env d creator_id lock_resource = Inr targets \<and>
    parse_receive_targets kit targets = Inr peers \<and> receive_from_targets kit peers s = (reports, s1) \<and>
    map ir_counterparty reports = peers \<and> (\<forall>report \<in> set reports. ir_error report = None) \<and>
    kit_payment_requests kit s1 = (Inr records, s') \<and>
    (let projections = lifecycle_projections kit (env_sdk env) from_nanos app_id records in
      \<forall>p. Inr p \<in> set projections \<and> attributed_owner env d creator_id p \<noteq> Inr None \<and>
        (\<forall>q. Inr q \<in> set projections \<and> lp_payment_request_id q = lp_payment_request_id p \<longrightarrow> lp_request_state q \<noteq> Proposed) \<longrightarrow>
        (\<forall>x \<in> set (db_drain_cancellations d'). dc_drain x = ps_drain_id snapshot \<longrightarrow>
          dc_payment_request_id x \<noteq> lp_payment_request_id p))"
proof -
  have owner: "owner = creator" using assms(1) by (auto simp: reconcile_and_create_payment_drain_def split: if_splits)
  have "\<exists>d1. exact_drain_replay env collate owner lock_resource (df_now fresh) d = Inr (None, d1)"
    using assms(1,2) owner replayed_snapshot
    by (auto simp: reconcile_and_create_payment_drain_def split: sum.splits prod.splits option.splits) blast+
  then obtain d1 where none: "exact_drain_replay env collate owner lock_resource (df_now fresh) d = Inr (None, d1)" by blast
  obtain targets peers d2 where t: "required_receive_targets_for_lock env d creator_id lock_resource = Inr targets"
    "parse_receive_targets kit targets = Inr peers"
    and r: "refresh_payment_requests_locked kit env from_nanos app_id creator_id peers (s, d) = (Inr (), s', d2)"
    and c: "create_inner env collate fresh creator lock_resource (Some targets) d2 = Inr (snapshot, d')"
    by (rule reconcile_drain_new [OF assms(1) none])
  obtain reports s1 records where received: "receive_from_targets kit peers s = (reports, s1)"
      "receive_health_for_required_targets reports peers = ReceiveAvailable"
    and k: "kit_payment_requests kit s1 = (Inr records, s')"
    and p: "persist_projections env from_nanos creator_id
       (lifecycle_projections kit (env_sdk env) from_nanos app_id records) None d = (None, d2)"
    by (rule refresh_Inr [OF r])
  obtain rows where "d2 = d\<lparr>db_lifecycles := rows\<rparr>"
    by (rule lifecycle_run_tables [OF persist_projections_steps [OF p]])
  then have ok: "keys_ok d2" "drains_ok d2" using assms(3,4) by (simp_all add: keys_ok_def drains_ok_def)
  have "dc_payment_request_id x \<noteq> i" if "not_proposed i d2" "x \<in> set (db_drain_cancellations d')" "dc_drain x = ps_drain_id snapshot" for i x
    using drain_cancellations_planned [OF c assms(2) ok that(2,3)] that(1) by auto
  then show ?thesis
    using t received_all [OF received] received(1) k persisted_not_proposed [OF p assms(5)] by (auto simp: Let_def) blast
qed

section \<open>A concrete reconciliation\<close>

text \<open>A kit that has received the acceptance of the request of the drained invoice.\<close>

definition answered_record :: "(string, string) request_record" where
  "answered_record = \<lparr>rr_counterparty = ''reader'', rr_payment_request_id = ''req'', rr_local_role = Some RolePayee,
     rr_proposal_app_id = Some paykit_app_id,
     rr_terms = Some \<lparr>tr_amount = decimal_amount Btc 500, tr_asset = ''btc'', tr_conversion = None, tr_payment_reference = ''ref'',
       tr_proposal_expires_at = Some (dec_show 1000000000), tr_payment_deadline = Some (dec_show 2000000000),
       tr_accepted = [''btc-bitcoin-p2wpkh''], tr_payment_endpoints = Some [(''btc-bitcoin-p2wpkh'', ''payload'')],
       tr_metadata = [], tr_recurring = False\<rparr>,
     rr_state = KnownState Accepted, rr_proposal_event_id = Some ''event'', rr_accepted_event_id = Some ''accepted'',
     rr_rejected_event_id = None, rr_canceled_event_id = None, rr_payment_proofs = [], rr_last_stream_item_id = Some 5,
     rr_proposal_outbound_message_id = None, rr_last_outbound_message_id = None, rr_last_event_at = Some (0, 6000)\<rparr>"

definition answered_kit :: "(string, string, unit) kit" where
  "answered_kit = \<lparr>kit_peer = (\<lambda>s. Some (drop 5 s)), kit_peer_str = id, kit_receive = (\<lambda>_ s. (Inr (), s)),
     kit_receive_linked = (\<lambda>s. (Inr [], s)), kit_payment_requests = (\<lambda>s. (Inr [answered_record], s)),
     kit_registry = (\<lambda>_ s. (Inr None, s)), kit_authorization = (\<lambda>_ s. (Inr (), s)), kit_ensure_link = (\<lambda>_ s. (Inr PeerLinked, s)),
     kit_propose = (\<lambda>_ _ _ s. (Inr answered_record, s)), kit_cancel = (\<lambda>_ _ s. (Inr answered_record, s)),
     kit_outbound = (\<lambda>s. (Inr [], s)),
     kit_process_outbound = (\<lambda>_ s. (Inr \<lparr>sr_sent = [], sr_failed = 0, sr_reservation_cleanup_failures = 0,
       sr_recovery_marker_failures = 0\<rparr>, s)),
     kit_linked_peers = (\<lambda>s. (Inr [], s)), kit_pending_outbound = (\<lambda>s. (Inr [], s))\<rparr>"

definition answered_projection :: lifecycle_projection where
  "answered_projection = example_projection\<lparr>lp_request_state := Accepted, lp_state_event_id := Some ''accepted'',
     lp_last_stream_item_id := Some 5, lp_last_event_at := 6000\<rparr>"

definition answered_lifecycle :: lifecycle_row where
  "answered_lifecycle = new_lifecycle (OwnerInvoice 12) answered_projection (Some 5) None 6000"

abbreviation unanswered_db :: "string \<Rightarrow> db" where
  "unanswered_db envelope \<equiv> (drain_db envelope)\<lparr>db_lifecycles := []\<rparr>"

abbreviation answered_db :: "string \<Rightarrow> db" where
  "answered_db envelope \<equiv> (drain_db envelope)\<lparr>db_lifecycles := [answered_lifecycle]\<rparr>"

lemma answered_projected:
  "lifecycle_projections answered_kit example_sdk Some paykit_app_id [answered_record] = [Inr answered_projection]"
proof -
  have "btree_collect [(k, v)] = [(k, v)]" for k v :: string by (rule btree_collect_sorted) simp
  then show ?thesis
    by (simp add: lifecycle_projections_def project_request_def answered_record_def persisted_lifecycle_state_def
        projected_terms_def state_event_id_def answered_projection_def example_projection_def answered_kit_def
        example_dated_def example_quote_intent_def example_sdk_def paykit_app_id_def del: decimal_amount.simps bindr_eq_Inr)
qed

lemma answered_attributed:
  assumes "decrypt_delivery_intent drain_env 13 (hash_of drain_env ''creator'') envelope = Inr example_dated"
  shows "attributed_owner drain_env (unanswered_db envelope) 1 answered_projection = Inr (Some (OwnerInvoice 12))"
proof -
  let ?d = "unanswered_db envelope"
  let ?row = "queued_proposal 13 1 12 envelope (payment_request_proposal_lookup_hash example_crypto ''ref'') 0"
  have same: "lp_proposal answered_projection = lp_proposal example_projection"
    "lp_payment_request_id answered_projection = ''req''"
    by (simp_all add: answered_projection_def example_projection_def)
  have rows: "intent_rows drain_env ?d 1 (lp_proposal example_projection) = [?row]"
    by (simp add: intent_rows_def drain_db_def example_open_def queued_proposal_def example_projection_def example_dated_def
        del: decimal_amount.simps)
  have creator: "find_creator ?d 1 = Some \<lparr>cr_id = 1, cr_lookup_hash = hash_of drain_env ''creator'',
      cr_next_child_index = 0, cr_account_generation = 0\<rparr>"
    by (simp add: find_creator_def drain_db_def example_open_def example_db_def)
  have matches: "matches_proposal example_dated (pc_reader_pubky (lp_proposal example_projection))
      (pc_app_id (lp_proposal example_projection)) (pc_terms (lp_proposal example_projection))"
    by (simp add: matches_proposal_def example_projection_def example_dated_def del: decimal_amount.simps)
  have row: "ob_id ?row = 13" "ob_intent_envelope ?row = envelope" "ob_invoice ?row = Some 12" "ob_preparation ?row = None"
    by (simp_all add: queued_proposal_def)
  have direct: "direct_owners ?d 1 ''req'' = Inr []"
    by (simp add: direct_owners_def drain_db_def example_open_def queued_proposal_def)
  have "semantic_owners drain_env (hash_of drain_env ''creator'') (lp_proposal example_projection) [?row] [] =
      Inr [OwnerInvoice 12]"
    using assms matches by (simp add: row lifecycle_owner_of_def del: bindr_eq_Inr)
  then show ?thesis
    using direct creator rows by (simp add: attributed_owner_def same del: bindr_eq_Inr semantic_owners.simps)
qed

lemma answered_applied:
  assumes "decrypt_delivery_intent drain_env 13 (hash_of drain_env ''creator'') envelope = Inr example_dated"
  shows "apply_lifecycle drain_env Some 1 answered_projection (unanswered_db envelope) =
    Inr (LifecycleApplied, answered_db envelope)"
proof -
  let ?d = "unanswered_db envelope"
  have "record_lifecycle (OwnerInvoice 12) answered_projection (Some 5) None 6000 ?d = Inr (LifecycleApplied, answered_db envelope)"
    by (simp add: record_lifecycle_def find_lifecycle_def drain_db_def example_open_def example_db_def owner_accepts_requests_def
        generation_open_def example_invoice_def answered_lifecycle_def)
  moreover have "lock_owner ?d 1 (OwnerInvoice 12) = Inr ()"
    by (simp add: lock_owner_def drain_db_def example_open_def example_invoice_def)
  moreover have "validate_projection answered_projection = Inr ()"
    "optional_cursor (lp_last_stream_item_id answered_projection) = Inr (Some 5)"
    "optional_cursor (lp_last_outbound_message_id answered_projection) = Inr None"
    "postgres_timestamp Some (lp_last_event_at answered_projection) = Inr 6000"
    by (simp_all add: validate_projection_def answered_projection_def example_projection_def optional_cursor_def
        i64_try_from_def i64_max_def postgres_timestamp_def)
  ultimately show ?thesis
    using answered_attributed [OF assms] by (simp add: apply_lifecycle_def del: bindr_eq_Inr)
qed

lemma answered_targets:
  assumes "decrypt_delivery_intent drain_env 13 (hash_of drain_env ''creator'') envelope = Inr example_dated"
    and "rows = [] \<or> rows = [answered_lifecycle]"
  shows "decode_required_receive_targets drain_env
    (required_receive_rows ((drain_db envelope)\<lparr>db_lifecycles := rows\<rparr>) 1 (\<lambda>v. iv_lock_hash v = hash_of drain_env ''lock'')) [] =
    Inr [''pubkyreader'']"
proof -
  have reader: "intent_reader_pubky example_dated = ''pubkyreader''" "\<exists>terms. intent_operation example_dated = PaymentRequestProposal terms"
    by (simp_all add: example_dated_def example_quote_intent_def del: decimal_amount.simps)
  have "required_receive_rows ((drain_db envelope)\<lparr>db_lifecycles := rows\<rparr>) 1 (\<lambda>v. iv_lock_hash v = hash_of drain_env ''lock'') =
      [(13, hash_of drain_env ''creator'', envelope)]"
    using assms(2)
    by (auto simp: required_receive_rows_def drain_db_def example_open_def example_db_def example_invoice_def current_generation_def
        pending_proposal_def queued_proposal_def answered_lifecycle_def new_lifecycle_def answered_projection_def
        open_request_state_def find_creator_def map_filter_def)
  then show ?thesis using assms(1) reader by (auto simp del: bindr_eq_Inr)
qed

lemma answered_plan:
  assumes "decrypt_delivery_intent drain_env 13 (hash_of drain_env ''creator'') envelope = Inr example_dated"
  shows "plan_drain drain_env id drain_example_fresh 1 (hash_of drain_env ''creator'') (hash_of drain_env ''lock'')
    (Some [''pubkyreader'']) (answered_db envelope) = Inr (0, [(12, ''accepted'')], [])"
proof -
  let ?attempt = "\<lparr>il_invoice = 12, il_request_state = Some ''accepted'', il_terminal_fallback = None,
     il_payment_request_id = Some ''req'', il_last_event_at = Some 6000\<rparr>"
  have "generation_invoices (answered_db envelope) 1 (hash_of drain_env ''lock'') 0 =
      [example_invoice\<lparr>iv_lock_hash := hash_of example_env ''lock''\<rparr>]"
    by (simp add: generation_invoices_def drain_db_def example_invoice_def)
  moreover have "attempt_rows id (answered_db envelope) (example_invoice\<lparr>iv_lock_hash := hash_of example_env ''lock''\<rparr>) = [?attempt]"
    by (simp add: attempt_rows_def drain_db_def example_invoice_def example_open_def answered_lifecycle_def new_lifecycle_def
        answered_projection_def example_projection_def terminal_fallback_def example_db_def queued_proposal_def)
  ultimately have attempts: "drained_generation id (answered_db envelope) 1 (hash_of drain_env ''lock'') 0 = [(12, [?attempt])]"
    by (simp add: attempts_by_invoice_def)
  have "drain_invoice drain_env drain_example_fresh (answered_db envelope) 1 (hash_of drain_env ''creator'') (12, [?attempt]) =
      Inr ((12, ''accepted''), [])"
    by (simp add: drain_invoice_def parse_attempt_def request_state_parse_def classify_def prepare_cancellations_def
        del: bindr_eq_Inr)
  moreover have "find_generation (answered_db envelope) 1 (hash_of drain_env ''lock'') =
      Some \<lparr>lg_creator = 1, lg_lock_hash = hash_of example_env ''lock'', lg_current_generation = 0,
        lg_active_drain = None, lg_last_cleanup_token = None\<rparr>"
    by (simp add: find_generation_def drain_db_def)
  ultimately show ?thesis
    using attempts answered_targets [OF assms, of "[answered_lifecycle]"]
    by (simp add: plan_drain_def required_receive_targets_for_lock_in_transaction_def receive_evidence_covers_def
        del: bindr_eq_Inr)
qed

lemma answered_created:
  assumes "decrypt_delivery_intent drain_env 13 (hash_of drain_env ''creator'') envelope = Inr example_dated"
  obtains s d' where "create_inner drain_env id drain_example_fresh ''creator'' ''lock'' (Some [''pubkyreader''])
      (answered_db envelope) = Inr (s, d')" "\<not> ps_replayed s"
proof -
  let ?ch = "hash_of drain_env ''creator''" and ?h = "hash_of drain_env ''lock''" and ?d = "answered_db envelope"
  obtain de where de: "seal_column drain_env (df_drain_nonce drain_example_fresh)
      (ctx_payment_drain ?ch (df_drain_id drain_example_fresh)) (Some ''lock'') = Inr de"
    using example_seal [of "df_drain_nonce drain_example_fresh" "ctx_payment_drain ?ch (df_drain_id drain_example_fresh)" "''lock''"]
    by (auto simp: seal_column_def)
  let ?row = "new_drain drain_env drain_example_fresh 1 ?h 0 [(12, ''accepted'')] [] de"
  have "\<exists>s d'. write_drain ?row [(12, ''accepted'')] [] ?d = Inr (s, d') \<and> \<not> ps_replayed s"
    by (simp add: write_drain_def insert_drain_def fence_generation_def insert_drain_item_def drain_count_def drain_db_def
        example_open_def example_db_def example_invoice_def drain_example_fresh_def del: bindr_eq_Inr)
  moreover have "find_creator_by_hash ?d ?ch = Inr \<lparr>cr_id = 1, cr_lookup_hash = ?ch, cr_next_child_index = 0, cr_account_generation = 0\<rparr>"
    using example_hash_length by (simp add: find_creator_by_hash_Inr drain_db_def example_open_def example_db_def)
  moreover have "ensure_generation 1 ?h ?d = ?d" "db_drains ?d = []"
    by (simp_all add: ensure_generation_def find_generation_def drain_db_def example_open_def example_db_def)
  ultimately have "\<exists>s d'. create_inner drain_env id drain_example_fresh ''creator'' ''lock'' (Some [''pubkyreader'']) ?d = Inr (s, d') \<and>
      \<not> ps_replayed s"
    using answered_plan [OF assms] de by (simp add: create_inner_def create_drain_def del: bindr_eq_Inr)
  then show thesis using that by blast
qed

lemma answered_reconciled:
  assumes opened: "decrypt_delivery_intent drain_env 13 (hash_of drain_env ''creator'') envelope = Inr example_dated"
    and created: "create_inner drain_env id drain_example_fresh ''creator'' ''lock'' (Some [''pubkyreader''])
      (answered_db envelope) = Inr (s, d')"
  shows "reconcile_and_create_payment_drain answered_kit drain_env id Some drain_example_fresh paykit_app_id 1 ''creator'' ''creator''
    ''lock'' ((), unanswered_db envelope) = (Inr s, (), d')"
proof -
  have "exact_drain_replay drain_env id ''creator'' ''lock'' (df_now drain_example_fresh) (unanswered_db envelope) =
      Inr (None, unanswered_db envelope)"
    by (simp add: exact_drain_replay_def current_drain_def drain_db_def example_open_def example_db_def)
  moreover have "required_receive_targets_for_lock drain_env (unanswered_db envelope) 1 ''lock'' = Inr [''pubkyreader'']"
    using answered_targets [OF opened, of "[]"] by (simp add: required_receive_targets_for_lock_def)
  moreover have "parse_receive_targets answered_kit [''pubkyreader''] = Inr [''reader'']"
    by (simp add: parse_receive_targets_def answered_kit_def del: bindr_eq_Inr)
  moreover have "persist_projections drain_env Some 1 [Inr answered_projection] None (unanswered_db envelope) = (None, answered_db envelope)"
    using answered_applied [OF opened] by simp
  moreover have "kit_receive answered_kit p w = (Inr (), w)" "kit_payment_requests answered_kit w = (Inr [answered_record], w)" for p w
    by (simp_all add: answered_kit_def)
  ultimately show ?thesis
    using created answered_projected
    by (simp add: reconcile_and_create_payment_drain_def refresh_payment_requests_locked_def project_payment_requests_locked_def
        project_lifecycles_after_receive_def receive_health_for_required_targets_def map_errk_def map_err_def)
qed

lemma answered_db_ok: "keys_ok (unanswered_db envelope)" "drains_ok (unanswered_db envelope)" "distinct (lifecycle_ids (unanswered_db envelope))"
  using drain_db_ok(1,2) [of envelope] by (simp_all add: keys_ok_def drains_ok_def lifecycle_ids_def)

theorem drain_spares_answered_requests_witness:
  "\<exists>envelope snapshot d'. reconcile_and_create_payment_drain answered_kit drain_env id Some drain_example_fresh paykit_app_id 1
       ''creator'' ''creator'' ''lock'' ((), unanswered_db envelope) = (Inr snapshot, (), d') \<and>
     (\<forall>x \<in> set (db_drain_cancellations d'). dc_drain x = ps_drain_id snapshot \<longrightarrow> dc_payment_request_id x \<noteq> ''req'')"
proof -
  obtain envelope where "open_intent drain_env (hash_of drain_env ''creator'') 13 envelope = Inr example_dated"
    by (rule drain_proposal)
  then have opened: "decrypt_delivery_intent drain_env 13 (hash_of drain_env ''creator'') envelope = Inr example_dated"
    using example_hash_length
    by (simp add: open_intent_def decrypt_delivery_intent_def lookup_hash_from_storage_def del: bindr_eq_Inr)
  obtain s d' where created: "create_inner drain_env id drain_example_fresh ''creator'' ''lock'' (Some [''pubkyreader''])
      (answered_db envelope) = Inr (s, d')" "\<not> ps_replayed s" by (rule answered_created [OF opened])
  note run = answered_reconciled [OF opened created(1)]
  have kit: "kit_payment_requests answered_kit w = (Inr [answered_record], w)" for w by (simp add: answered_kit_def)
  have id: "lp_payment_request_id answered_projection = ''req''" "lp_request_state answered_projection = Accepted"
    by (simp_all add: answered_projection_def example_projection_def)
  from drain_spares_answered_requests [OF run created(2) answered_db_ok]
  have "\<forall>x \<in> set (db_drain_cancellations d'). dc_drain x = ps_drain_id s \<longrightarrow> dc_payment_request_id x \<noteq> ''req''"
    using answered_attributed [OF opened] by (auto simp: Let_def kit answered_projected id)
  with run show ?thesis by blast
qed

end
