(* ===== verification/Handoff_Worker.thy ===== *)
theory Handoff_Worker
  imports Paykit_Adapter
begin

text \<open>
  The outbox worker of a creator: one hand-off of a claimed delivery to the payment kit, its retry
  schedule, the settlement of its outcome, the reconciliation of handed-off deliveries and transport
  maintenance (workers/outbox.rs, the adapter of paykit.rs, and the worker turn of server.rs).  The
  payment kit is a parameter; the transactions of the other sessions happen between any two accesses
  of the worker to the store.
\<close>

section \<open>Failures of a handoff\<close>

datatype handoff_failure =
    FailureRetryable outbox_retry_class
  | FailureProposalExpired
  | FailureCancellationObsolete
  | FailurePermanent

definition at_stage :: "outbox_retry_class \<Rightarrow> handoff_error \<Rightarrow> handoff_failure" where
  "at_stage stage e =
     (case e of
        HandoffRetryable CauseLinkPending \<Rightarrow> FailureRetryable LinkPending
      | HandoffRetryable _ \<Rightarrow> FailureRetryable stage
      | HandoffPermanent \<Rightarrow> FailurePermanent)"

definition at_link_stage :: "handoff_error \<Rightarrow> handoff_failure" where
  "at_link_stage e =
     (case e of
        HandoffRetryable CauseLinkPending \<Rightarrow> FailureRetryable LinkPending
      | HandoffRetryable cause \<Rightarrow>
          (if cause \<in> {CauseStorage, CauseIdentity, CauseTransport, CausePaymentAdapter, CauseOther}
           then FailureRetryable LinkDependency else FailureRetryable LinkEstablishment)
      | HandoffPermanent \<Rightarrow> FailurePermanent)"

datatype processing_health = HealthAvailable | HealthRetryable duration | HealthPermanentFailure

record retry_schedule =
  rs_default :: duration
  rs_link_establishment :: duration

definition delay_for :: "retry_schedule \<Rightarrow> outbox_retry_class \<Rightarrow> duration" where
  "delay_for schedule stage = (if stage = LinkPending then rs_link_establishment schedule else rs_default schedule)"

section \<open>Retry delays\<close>

text \<open>A duration as its nanoseconds; multiplication saturates at the greatest duration.\<close>

definition duration_nanos :: "duration \<Rightarrow> int" where
  "duration_nanos dur = uint (dur_secs dur) * 1000000000 + uint (dur_nanos dur)"

definition duration_max :: duration where
  "duration_max = \<lparr>dur_secs = - 1, dur_nanos = 999999999\<rparr>"

definition duration_saturating_mul :: "duration \<Rightarrow> int \<Rightarrow> duration" where
  "duration_saturating_mul dur factor =
     (let total = uint (dur_nanos dur) * factor;
          secs = uint (dur_secs dur) * factor + total div 1000000000 in
      if secs < 2 ^ 64 then \<lparr>dur_secs = of_int secs, dur_nanos = of_int (total mod 1000000000)\<rparr> else duration_max)"

definition duration_min :: "duration \<Rightarrow> duration \<Rightarrow> duration" where
  "duration_min a b = (if duration_nanos b < duration_nanos a then b else a)"

definition retry_delay :: "duration \<Rightarrow> duration \<Rightarrow> int \<Rightarrow> duration" where
  "retry_delay initial maximum attempt_count =
     (let exponent = min 31 (nat (attempt_count - 1))
      in duration_min (duration_saturating_mul initial (2 ^ exponent)) maximum)"

definition max_link_establishment_retry_delay :: duration where
  "max_link_establishment_retry_delay = \<lparr>dur_secs = 5, dur_nanos = 0\<rparr>"

text \<open>The number of rapid attempts is validated to fit a signed 32-bit integer; otherwise the process stops.\<close>

definition outbox_retry_schedule ::
  "duration \<Rightarrow> duration \<Rightarrow> u32 \<Rightarrow> duration \<Rightarrow> int \<Rightarrow> int \<Rightarrow> retry_schedule option" where
  "outbox_retry_schedule initial maximum rapid_attempts rapid_interval attempt_count failure_count =
     (let dflt = retry_delay initial maximum (min (failure_count + 1) i32_max);
          rapid = uint rapid_attempts in
      if i32_max < rapid then None
      else Some \<lparr>rs_default = dflt,
        rs_link_establishment =
          (if attempt_count \<le> rapid then rapid_interval
           else duration_min (retry_delay initial maximum (attempt_count - rapid)) max_link_establishment_retry_delay)\<rparr>)"

section \<open>The calls of the adapter\<close>

datatype reader_authorization = AuthorizationVerified | AuthorizationMissing | AuthorizationInvalid

definition handoff_reader_authorization :: "(sdk_error, 'a) res \<Rightarrow> (handoff_error, reader_authorization) res" where
  "handoff_reader_authorization fetched =
     (case fetched of
        Inr _ \<Rightarrow> Inr AuthorizationVerified
      | Inl SdkNotFound \<Rightarrow> Inr AuthorizationMissing
      | Inl SdkProtocol \<Rightarrow> Inr AuthorizationInvalid
      | Inl e \<Rightarrow> Inl (classify_sdk e))"

definition reader_is_capable :: "app_registry \<Rightarrow> bool" where
  "reader_is_capable registry \<longleftrightarrow> reg_noise_public_key registry \<noteq> None \<and>
     list_ex (\<lambda>(_, app). cap_payment_requests app \<and> cap_outgoing_payments app) (reg_apps registry)"

definition parse_peer :: "('p, 'd, 's) kit \<Rightarrow> string \<Rightarrow> 's \<Rightarrow> (handoff_error, 'p) res \<times> 's" where
  "parse_peer kit reader s = (ok_or (kit_peer kit reader) HandoffPermanent, s)"

definition fetch_registry ::
  "('p, 'd, 's) kit \<Rightarrow> string \<Rightarrow> 's \<Rightarrow> (handoff_error, app_registry option) res \<times> 's" where
  "fetch_registry kit reader s =
     bindk (parse_peer kit reader s) (\<lambda>peer s. map_errk classify_sdk (kit_registry kit peer s))"

definition fetch_authorization ::
  "('p, 'd, 's) kit \<Rightarrow> string \<Rightarrow> 's \<Rightarrow> (handoff_error, reader_authorization) res \<times> 's" where
  "fetch_authorization kit reader s =
     bindk (parse_peer kit reader s) (\<lambda>peer s.
     let (fetched, s') = kit_authorization kit peer s in (handoff_reader_authorization fetched, s'))"

definition ensure_link_with_peer :: "('p, 'd, 's) kit \<Rightarrow> string \<Rightarrow> 's \<Rightarrow> (handoff_error, unit) res \<times> 's" where
  "ensure_link_with_peer kit reader s =
     bindk (parse_peer kit reader s) (\<lambda>peer s.
     bindk (map_errk classify_sdk (kit_ensure_link kit peer s)) (\<lambda>state s. (require_linked state, s)))"

definition propose_payment_request ::
  "('p, 'd, 's) kit \<Rightarrow> ('r, 'd) sdk \<Rightarrow> string \<Rightarrow> string \<Rightarrow> payment_terms \<Rightarrow> 's
     \<Rightarrow> (handoff_error, handoff_result) res \<times> 's" where
  "propose_payment_request kit sdk reader payment_request_id terms s =
     bindk (parse_peer kit reader s) (\<lambda>peer s.
     bindk (map_err (\<lambda>_. HandoffPermanent) (to_sdk sdk terms), s) (\<lambda>kit_terms s.
     bindk (map_errk classify_sdk (kit_propose kit peer payment_request_id kit_terms s)) (\<lambda>record s.
     (bindr (ok_or (rr_proposal_outbound_message_id record) HandoffPermanent) (\<lambda>message.
      bindr (ok_or (rr_proposal_event_id record) HandoffPermanent) (\<lambda>event.
      Inr (ProposalSent message event (rr_payment_request_id record)))), s))))"

definition cancel_payment_request ::
  "('p, 'd, 's) kit \<Rightarrow> ('r, 'd) sdk \<Rightarrow> string \<Rightarrow> string \<Rightarrow> 's \<Rightarrow> (handoff_error, handoff_result) res \<times> 's" where
  "cancel_payment_request kit sdk reader payment_request_id s =
     bindk (parse_peer kit reader s) (\<lambda>peer s.
     bindk (guardr (\<not> payment_request_id_ok sdk payment_request_id) HandoffPermanent, s) (\<lambda>_ s.
     bindk (map_errk classify_sdk (kit_cancel kit peer payment_request_id s)) (\<lambda>record s.
     (bindr (ok_or (rr_last_outbound_message_id record) HandoffPermanent) (\<lambda>message.
      bindr (ok_or (rr_canceled_event_id record) HandoffPermanent) (\<lambda>event.
      Inr (CancellationSent message event (rr_payment_request_id record)))), s))))"

definition terminal_outbound_status :: "outbound_status \<Rightarrow> bool" where
  "terminal_outbound_status status \<longleftrightarrow>
     status \<in> {OutboundSent, OutboundInvalid, OutboundRecoveryRequired, OutboundSuperseded}"

definition find_outbound :: "u64 \<Rightarrow> 'p outbound_record list \<Rightarrow> 'p outbound_record option" where
  "find_outbound message records =
     find (\<lambda>record. or_outbound_message_id record = message \<and> or_app_id record = paykit_app_id) records"

definition adapter_outbound_status ::
  "('p, 'd, 's) kit \<Rightarrow> u64 \<Rightarrow> 's \<Rightarrow> (handoff_error, outbound_status option) res \<times> 's" where
  "adapter_outbound_status kit message s =
     bindk (map_errk classify_sdk (kit_outbound kit s)) (\<lambda>records s.
     case find_outbound message records of
       None \<Rightarrow> (Inr None, s)
     | Some found \<Rightarrow>
         if terminal_outbound_status (or_status found) then (Inr (Some (or_status found)), s)
         else
           bindk (map_errk classify_sdk (kit_ensure_link kit (or_counterparty found) s)) (\<lambda>state s.
           bindk (require_linked state, s) (\<lambda>_ s.
           bindk (map_errk classify_sdk (kit_process_outbound kit (or_counterparty found) s)) (\<lambda>report s.
           if message \<in> set (sr_sent report) then (Inr (Some OutboundSent), s)
           else bindk (map_errk classify_sdk (kit_outbound kit s)) (\<lambda>records s.
             (Inr (map_option or_status (find_outbound message records)), s))))))"

definition check_send_report :: "send_report \<Rightarrow> (sdk_error, unit) res" where
  "check_send_report report =
     guardr (0 < sr_failed report \<or> 0 < sr_reservation_cleanup_failures report \<or> 0 < sr_recovery_marker_failures report)
       SdkTransport"

definition check_transport_results :: "(sdk_error, unit) res list \<Rightarrow> (sdk_error, unit) res" where
  "check_transport_results results =
     (let contended = (\<lambda>e. e = SdkConcurrentUpdate \<or> e = SdkSharedStateBusy) in
      if list_ex (\<lambda>r. case r of Inl e \<Rightarrow> \<not> contended e | Inr _ \<Rightarrow> False) results then Inl SdkTransport
      else if list_ex is_err results then Inl SdkConcurrentUpdate
      else Inr ())"

section \<open>Transport maintenance\<close>

fun send_each :: "('p, 'd, 's) kit \<Rightarrow> 'p list \<Rightarrow> 's \<Rightarrow> (sdk_error, unit) res list \<times> 's" where
  "send_each kit [] s = ([], s)"
| "send_each kit (peer # peers) s =
     (let (sent, s1) = kit_process_outbound kit peer s; (results, s2) = send_each kit peers s1
      in (bindr sent check_send_report # results, s2))"

definition maintain_outbound_transport :: "('p, 'd, 's) kit \<Rightarrow> 's \<Rightarrow> (sdk_error, unit) res \<times> 's" where
  "maintain_outbound_transport kit s =
     (case kit_pending_outbound kit s of
        (Inl e, s1) \<Rightarrow> (check_transport_results [Inl e], s1)
      | (Inr peers, s1) \<Rightarrow> let (results, s2) = send_each kit peers s1 in (check_transport_results results, s2))"

fun receive_each :: "('p, 'd, 's) kit \<Rightarrow> 'p list \<Rightarrow> 's \<Rightarrow> (sdk_error, unit) res list \<times> 's" where
  "receive_each kit [] s = ([], s)"
| "receive_each kit (peer # peers) s =
     (let (received, s1) = kit_receive kit peer s; (results, s2) = receive_each kit peers s1
      in (received # results, s2))"

definition maintain_transport :: "('p, 'd, 's) kit \<Rightarrow> 's \<Rightarrow> (sdk_error, unit) res \<times> 's" where
  "maintain_transport kit s =
     bindk (kit_linked_peers kit s) (\<lambda>peers s.
     let (received, s1) = receive_each kit (map fst (filter (\<lambda>(_, state). state = PeerLinked) peers)) s;
         (sent, s2) = maintain_outbound_transport kit s1
     in (check_transport_results (received @ [sent]), s2))"

section \<open>A worker among other transactions\<close>

text \<open>
  A worker reads the store at separate moments: at its \<open>n\<close>-th access the clock shows \<open>w_clock n\<close>, the
  other sessions have changed the database by \<open>w_drift n\<close> since the access before, and the database
  may be unreachable.  The renewals of a claim are among the transactions of the other sessions.
\<close>

record world =
  w_clock :: "nat \<Rightarrow> int"
  w_drift :: "nat \<Rightarrow> db \<Rightarrow> db"
  w_down :: "nat \<Rightarrow> bool"

record 's worker_state =
  ws_kit :: 's
  ws_db :: db
  ws_turn :: nat

definition store_turn :: "world \<Rightarrow> 's worker_state \<Rightarrow> 's worker_state" where
  "store_turn w st = st\<lparr>ws_db := w_drift w (ws_turn st) (ws_db st), ws_turn := Suc (ws_turn st)\<rparr>"

definition ask_store ::
  "world \<Rightarrow> (int \<Rightarrow> db \<Rightarrow> 'a) \<Rightarrow> 's worker_state \<Rightarrow> (persistence_error, 'a) res \<times> 's worker_state" where
  "ask_store w f st =
     (let st' = store_turn w st in
      (if w_down w (ws_turn st) then Inl StoreUnavailable else Inr (f (w_clock w (ws_turn st)) (ws_db st')), st'))"

definition run_store ::
  "world \<Rightarrow> (int \<Rightarrow> db \<Rightarrow> (persistence_error, 'a \<times> db) res) \<Rightarrow> 's worker_state
     \<Rightarrow> (persistence_error, 'a) res \<times> 's worker_state" where
  "run_store w op st =
     (let st' = store_turn w st in
      if w_down w (ws_turn st) then (Inl StoreUnavailable, st')
      else case op (w_clock w (ws_turn st)) (ws_db st') of
        Inl e \<Rightarrow> (Inl e, st')
      | Inr (x, d) \<Rightarrow> (Inr x, st'\<lparr>ws_db := d\<rparr>))"

definition on_kit :: "('s \<Rightarrow> 'a \<times> 's) \<Rightarrow> 's worker_state \<Rightarrow> 'a \<times> 's worker_state" where
  "on_kit call st = (let (r, s) = call (ws_kit st) in (r, st\<lparr>ws_kit := s\<rparr>))"

section \<open>One handoff\<close>

definition check_claim ::
  "world \<Rightarrow> claimed_outbox option \<Rightarrow> int option \<Rightarrow> 's worker_state \<Rightarrow> (handoff_failure, unit) res \<times> 's worker_state" where
  "check_claim w claim expiration st =
     (case claim of
        None \<Rightarrow> (Inr (), st)
      | Some c \<Rightarrow>
          bindk (case expiration of
                   None \<Rightarrow> (Inr (), st)
                 | Some deadline \<Rightarrow>
                     bindk (map_errk (\<lambda>_. FailureRetryable AdapterUnavailable)
                              (ask_store w (\<lambda>now _. proposal_expired deadline now) st)) (\<lambda>expired st.
                     (guardr expired FailureProposalExpired, st))) (\<lambda>_ st.
          bindk (map_errk (\<lambda>_. FailureRetryable AdapterUnavailable) (ask_store w (claim_handoff_eligible c) st)) (\<lambda>eligible st.
          (guardr (\<not> eligible) FailurePermanent, st))))"

definition delivery_expiration :: "('r, 'd) sdk \<Rightarrow> delivery_intent \<Rightarrow> (delivery_intent_error, int option) res" where
  "delivery_expiration sdk intent =
     (case intent_operation intent of
        PaymentRequestProposal _ \<Rightarrow> intent_proposal_expires_at sdk intent
      | PaymentRequestCancellation _ \<Rightarrow> Inr None)"

definition authorization_result :: "reader_authorization \<Rightarrow> (handoff_failure, unit) res" where
  "authorization_result authorization =
     (case authorization of
        AuthorizationVerified \<Rightarrow> Inr ()
      | AuthorizationMissing \<Rightarrow> Inl (FailureRetryable ReaderAuthorizationMissing)
      | AuthorizationInvalid \<Rightarrow> Inl (FailureRetryable ReaderAuthorizationInvalid))"

text \<open>Everything before the external effect: the answer is the identifier of the payment request.\<close>

definition prepare_handoff ::
  "world \<Rightarrow> ('p, 'd, 's) kit \<Rightarrow> ('r, 'd) sdk \<Rightarrow> uuid \<Rightarrow> delivery_intent \<Rightarrow> claimed_outbox option \<Rightarrow> 's worker_state
     \<Rightarrow> (handoff_failure, string) res \<times> 's worker_state" where
  "prepare_handoff w kit sdk outbox_id intent claim st =
     bindk (map_err (\<lambda>_. FailurePermanent) (intent_validate sdk intent), st) (\<lambda>_ st.
     bindk (map_err (\<lambda>_. FailurePermanent) (delivery_expiration sdk intent), st) (\<lambda>expiration st.
     bindk (guardr (\<not> payment_request_id_ok sdk (uuid_hyphenated sdk outbox_id)) FailurePermanent, st) (\<lambda>_ st.
     bindk (check_claim w claim expiration st) (\<lambda>_ st.
     bindk (map_errk (at_stage RegistryFetch) (on_kit (fetch_registry kit (intent_reader_pubky intent)) st)) (\<lambda>fetched st.
     bindk (ok_or fetched (FailureRetryable RegistryMissing), st) (\<lambda>registry st.
     bindk (guardr (\<not> reader_is_capable registry) (FailureRetryable RegistryIncapable), st) (\<lambda>_ st.
     bindk (check_claim w claim expiration st) (\<lambda>_ st.
     bindk (map_errk (at_stage ReaderAuthorizationFetch) (on_kit (fetch_authorization kit (intent_reader_pubky intent)) st))
       (\<lambda>authorization st.
     bindk (authorization_result authorization, st) (\<lambda>_ st.
     bindk (check_claim w claim expiration st) (\<lambda>_ st.
     bindk (map_errk at_link_stage (on_kit (ensure_link_with_peer kit (intent_reader_pubky intent)) st)) (\<lambda>_ st.
     bindk (check_claim w claim expiration st) (\<lambda>_ st.
     (Inr (uuid_hyphenated sdk outbox_id), st))))))))))))))"

definition perform_handoff ::
  "('p, 'd, 's) kit \<Rightarrow> ('r, 'd) sdk \<Rightarrow> delivery_intent \<Rightarrow> string \<Rightarrow> 's \<Rightarrow> (handoff_failure, handoff_result) res \<times> 's" where
  "perform_handoff kit sdk intent payment_request_id s =
     (case intent_operation intent of
        PaymentRequestProposal terms \<Rightarrow>
          map_errk (at_stage RetryPaymentRequestProposal)
            (propose_payment_request kit sdk (intent_reader_pubky intent) payment_request_id terms s)
      | PaymentRequestCancellation target \<Rightarrow>
          map_errk (at_stage RetryPaymentRequestCancellation)
            (cancel_payment_request kit sdk (intent_reader_pubky intent) target s))"

definition handoff_steps_with_claim ::
  "world \<Rightarrow> ('p, 'd, 's) kit \<Rightarrow> ('r, 'd) sdk \<Rightarrow> uuid \<Rightarrow> delivery_intent \<Rightarrow> claimed_outbox option \<Rightarrow> 's worker_state
     \<Rightarrow> (handoff_failure, handoff_result) res \<times> 's worker_state" where
  "handoff_steps_with_claim w kit sdk outbox_id intent claim st =
     bindk (prepare_handoff w kit sdk outbox_id intent claim st) (\<lambda>payment_request_id st.
     on_kit (perform_handoff kit sdk intent payment_request_id) st)"

definition claimed_handoff_steps ::
  "world \<Rightarrow> ('p, 'd, 's) kit \<Rightarrow> ('r, 'd) sdk \<Rightarrow> delivery_intent \<Rightarrow> claimed_outbox \<Rightarrow> 's worker_state
     \<Rightarrow> (handoff_failure, handoff_result) res \<times> 's worker_state" where
  "claimed_handoff_steps w kit sdk intent claim st =
     handoff_steps_with_claim w kit sdk (co_id claim) intent (Some claim) st"

text \<open>The refresh runs its transactions at one turn of the worker.\<close>

definition refresh_turn ::
  "world \<Rightarrow> ('p, 'd, 's) kit \<Rightarrow> ('r, 'd) env \<Rightarrow> (int \<Rightarrow> int option) \<Rightarrow> string \<Rightarrow> uuid \<Rightarrow> 'p list \<Rightarrow> 's worker_state
     \<Rightarrow> (lifecycle_sync_error, unit) res \<times> 's worker_state" where
  "refresh_turn w kit env from_nanos app_id creator_id targets st =
     (let st' = store_turn w st;
          (r, s, d) = refresh_payment_requests_locked kit env from_nanos app_id creator_id targets (ws_kit st', ws_db st')
      in (r, st'\<lparr>ws_kit := s, ws_db := d\<rparr>))"

definition execute_claimed_handoff_with_guard ::
  "world \<Rightarrow> ('p, 'd, 's) kit \<Rightarrow> ('r, 'd) env \<Rightarrow> (int \<Rightarrow> int option) \<Rightarrow> string \<Rightarrow> uuid \<Rightarrow> claimed_outbox \<Rightarrow> delivery_intent
     \<Rightarrow> 's worker_state \<Rightarrow> (handoff_failure, handoff_result) res \<times> 's worker_state" where
  "execute_claimed_handoff_with_guard w kit env from_nanos app_id creator_id claim intent st =
     bindk (map_errk (\<lambda>_. FailureRetryable AdapterUnavailable) (ask_store w (provider_v2_deadline_expired claim) st)) (\<lambda>expired st.
     if expired then (Inl FailureProposalExpired, st)
     else
       bindk (case intent_operation intent of
                PaymentRequestProposal _ \<Rightarrow> (Inr (), st)
              | PaymentRequestCancellation _ \<Rightarrow>
                  bindk (ok_or (kit_peer kit (intent_reader_pubky intent)) FailurePermanent, st) (\<lambda>target st.
                  bindk (map_errk (\<lambda>_. FailureRetryable AdapterUnavailable)
                           (refresh_turn w kit env from_nanos app_id creator_id [target] st)) (\<lambda>_ st.
                  bindk (map_errk (\<lambda>_. FailureRetryable AdapterUnavailable)
                           (ask_store w (\<lambda>_. rotation_cancellation_target_is_accepted claim) st)) (\<lambda>accepted st.
                  (guardr accepted FailureCancellationObsolete, st))))) (\<lambda>_ st.
       claimed_handoff_steps w kit (env_sdk env) intent claim st))"

section \<open>Processing a claim\<close>

definition reported :: "processing_health \<Rightarrow> (persistence_error, bool) res \<times> 's worker_state
    \<Rightarrow> (persistence_error, bool \<times> processing_health) res \<times> 's worker_state" where
  "reported health r = bindk r (\<lambda>transitioned st. (Inr (transitioned, health), st))"

definition settle_handoff ::
  "world \<Rightarrow> pg_add \<Rightarrow> claimed_outbox \<Rightarrow> retry_schedule \<Rightarrow> (handoff_failure, handoff_result) res \<Rightarrow> 's worker_state
     \<Rightarrow> (persistence_error, bool \<times> processing_health) res \<times> 's worker_state" where
  "settle_handoff w pg claim schedule outcome st =
     (case outcome of
        Inr result \<Rightarrow> reported HealthAvailable (run_store w (mark_handed_off claim result) st)
      | Inl (FailureRetryable stage) \<Rightarrow>
          (let delay = delay_for schedule stage in
           reported (HealthRetryable delay) (run_store w (mark_retryable pg claim delay stage) st))
      | Inl FailureProposalExpired \<Rightarrow> reported HealthAvailable (run_store w (mark_proposal_expired pg claim) st)
      | Inl FailureCancellationObsolete \<Rightarrow> reported HealthAvailable (run_store w (mark_cancellation_obsolete claim) st)
      | Inl FailurePermanent \<Rightarrow> reported HealthPermanentFailure (run_store w (mark_permanently_failed pg claim) st))"

definition process_claim_with ::
  "world \<Rightarrow> ('r, 'd) env \<Rightarrow> pg_add \<Rightarrow> claimed_outbox \<Rightarrow> retry_schedule
     \<Rightarrow> (delivery_intent \<Rightarrow> 's worker_state \<Rightarrow> (handoff_failure, handoff_result) res \<times> 's worker_state)
     \<Rightarrow> 's worker_state \<Rightarrow> (persistence_error, bool \<times> processing_health) res \<times> 's worker_state" where
  "process_claim_with w env pg claim schedule execute st =
     (case outbox_delivery_intent env claim of
        Inl _ \<Rightarrow> reported HealthPermanentFailure (run_store w (mark_permanently_failed pg claim) st)
      | Inr intent \<Rightarrow>
          bindk (map_err (\<lambda>_. CorruptOrMissing) (delivery_expiration (env_sdk env) intent), st) (\<lambda>expiration st.
          bindk (case expiration of
                   None \<Rightarrow> (Inr False, st)
                 | Some deadline \<Rightarrow> ask_store w (\<lambda>now _. proposal_expired deadline now) st) (\<lambda>expired st.
          if expired then reported HealthAvailable (run_store w (mark_proposal_expired pg claim) st)
          else let (outcome, st) = execute intent st in settle_handoff w pg claim schedule outcome st)))"

definition process_claim ::
  "world \<Rightarrow> ('p, 'd, 's) kit \<Rightarrow> ('r, 'd) env \<Rightarrow> (int \<Rightarrow> int option) \<Rightarrow> pg_add \<Rightarrow> string \<Rightarrow> claimed_outbox \<Rightarrow> retry_schedule
     \<Rightarrow> 's worker_state \<Rightarrow> (persistence_error, bool \<times> processing_health) res \<times> 's worker_state" where
  "process_claim w kit env from_nanos pg app_id claim schedule st =
     process_claim_with w env pg claim schedule
       (execute_claimed_handoff_with_guard w kit env from_nanos app_id (co_creator claim) claim) st"

definition send_handed_off_with_guard ::
  "world \<Rightarrow> ('p, 'd, 's) kit \<Rightarrow> ('r, 'd) env \<Rightarrow> uuid \<Rightarrow> claimed_outbox \<Rightarrow> 's worker_state
     \<Rightarrow> (handoff_error, unit) res \<times> 's worker_state" where
  "send_handed_off_with_guard w kit env creator_id claim st =
     (if co_creator claim \<noteq> creator_id then (Inl HandoffPermanent, st)
      else
        bindk (map_errk (\<lambda>_. HandoffRetryable CauseStorage) (ask_store w (\<lambda>_. handoff_is_committed claim) st)) (\<lambda>committed st.
        if \<not> committed then (Inr (), st)
        else
          bindk (map_err (\<lambda>_. HandoffPermanent) (outbox_delivery_intent env claim), st) (\<lambda>intent st.
          bindk (ok_or (kit_peer kit (intent_reader_pubky intent)) HandoffPermanent, st) (\<lambda>peer st.
          on_kit (\<lambda>s. let (r, s) = kit_process_outbound kit peer s
            in (map_err classify_sdk (bindr r check_send_report), s)) st))))"

section \<open>Reconciling a handed-off delivery\<close>

definition reconciliation_expiration ::
  "('r, 'd) env \<Rightarrow> claimed_handoff \<Rightarrow> (persistence_error, int option) res" where
  "reconciliation_expiration env claim =
     (if ch_intent_kind claim = ''endpoint_publication'' then Inr None
      else if ch_intent_kind claim = ''payment_request_proposal'' then
        bindr (handed_off_delivery_intent env claim) (\<lambda>intent.
        case intent_operation intent of
          PaymentRequestProposal _ \<Rightarrow> map_err (\<lambda>_. CorruptOrMissing) (intent_proposal_expires_at (env_sdk env) intent)
        | PaymentRequestCancellation _ \<Rightarrow> Inl CorruptOrMissing)
      else if ch_intent_kind claim = ''payment_request_cancellation'' then
        bindr (handed_off_delivery_intent env claim) (\<lambda>intent.
        case intent_operation intent of
          PaymentRequestProposal _ \<Rightarrow> Inl CorruptOrMissing
        | PaymentRequestCancellation _ \<Rightarrow> Inr None)
      else Inl CorruptOrMissing)"

definition retry_reconciliation_after_failure ::
  "world \<Rightarrow> pg_add \<Rightarrow> claimed_handoff \<Rightarrow> duration \<Rightarrow> int option \<Rightarrow> outbox_retry_class \<Rightarrow> 's worker_state
     \<Rightarrow> (persistence_error, bool \<times> processing_health) res \<times> 's worker_state" where
  "retry_reconciliation_after_failure w pg claim delay expiration stage st =
     bindk (case expiration of
              None \<Rightarrow> (Inr False, st)
            | Some deadline \<Rightarrow> ask_store w (\<lambda>now _. proposal_expired deadline now) st) (\<lambda>expired st.
     reported (HealthRetryable delay)
       (run_store w (retry_reconciliation pg claim delay (if expired then ReconciliationPending else stage)) st))"

definition process_reconciliation_with_health ::
  "world \<Rightarrow> ('p, 'd, 's) kit \<Rightarrow> ('r, 'd) env \<Rightarrow> pg_add \<Rightarrow> claimed_handoff \<Rightarrow> duration \<Rightarrow> 's worker_state
     \<Rightarrow> (persistence_error, bool \<times> processing_health) res \<times> 's worker_state" where
  "process_reconciliation_with_health w kit env pg claim delay st =
     (let failed = (\<lambda>st. reported HealthPermanentFailure (run_store w (mark_reconciliation_permanently_failed pg claim) st)) in
      case reconciliation_expiration env claim of
        Inl _ \<Rightarrow> failed st
      | Inr expiration \<Rightarrow>
          (case handoff_message_id claim of
             Inl _ \<Rightarrow> failed st
           | Inr message \<Rightarrow>
               (let (status, st) = on_kit (adapter_outbound_status kit message) st in
                case status of
                  Inr (Some OutboundSent) \<Rightarrow> reported HealthAvailable (run_store w (mark_delivered pg claim) st)
                | Inr None \<Rightarrow> failed st
                | Inr (Some s) \<Rightarrow>
                    if terminal_outbound_status s then failed st
                    else retry_reconciliation_after_failure w pg claim delay expiration ReconciliationPending st
                | Inl (HandoffRetryable _) \<Rightarrow>
                    retry_reconciliation_after_failure w pg claim delay expiration Reconciliation st
                | Inl HandoffPermanent \<Rightarrow> failed st)))"

section \<open>One turn of the outbox worker\<close>

datatype adapter_build_error = AdapterBuildPermanent | AdapterBuildUnavailable

record worker_config =
  wc_owner :: uuid
  wc_lease :: duration
  wc_retry_initial :: duration
  wc_retry_max :: duration
  wc_rapid_attempts :: u32
  wc_rapid_interval :: duration

text \<open>The checks of a claimed row before an adapter is built; an answer ends the turn.\<close>

definition claimed_row_gate ::
  "world \<Rightarrow> ('r, 'd) env \<Rightarrow> pg_add \<Rightarrow> claimed_outbox \<Rightarrow> 's worker_state
     \<Rightarrow> (persistence_error, bool \<times> processing_health) res option \<times> 's worker_state" where
  "claimed_row_gate w env pg claim st =
     (let ended = (\<lambda>(r, st). (Some r, st)) in
      case outbox_delivery_intent env claim of
        Inl _ \<Rightarrow> ended (reported HealthPermanentFailure (run_store w (mark_permanently_failed pg claim) st))
      | Inr intent \<Rightarrow>
          (case intent_proposal_expires_at (env_sdk env) intent of
             Inl _ \<Rightarrow> (Some (Inl CorruptOrMissing), st)
           | Inr None \<Rightarrow> (None, st)
           | Inr (Some deadline) \<Rightarrow>
               (case ask_store w (\<lambda>now _. proposal_expired deadline now) st of
                  (Inl e, st) \<Rightarrow> (Some (Inl e), st)
                | (Inr expired, st) \<Rightarrow>
                    if expired then ended (reported HealthAvailable (run_store w (mark_proposal_expired pg claim) st))
                    else (None, st))))"

text \<open>The second answer is whether an adapter was used.\<close>

definition process_claimed_row ::
  "world \<Rightarrow> ('p, 'd, 's) kit \<Rightarrow> ('r, 'd) env \<Rightarrow> (int \<Rightarrow> int option) \<Rightarrow> pg_add \<Rightarrow> string \<Rightarrow> (adapter_build_error, unit) res
     \<Rightarrow> claimed_outbox \<Rightarrow> retry_schedule \<Rightarrow> 's worker_state
     \<Rightarrow> (persistence_error, bool \<times> processing_health) res \<times> bool \<times> 's worker_state" where
  "process_claimed_row w kit env from_nanos pg app_id adapter claim schedule st =
     (case claimed_row_gate w env pg claim st of
        (Some r, st) \<Rightarrow> (r, False, st)
      | (None, st) \<Rightarrow>
          (case adapter of
             Inr _ \<Rightarrow> let (r, st) = process_claim w kit env from_nanos pg app_id claim schedule st in (r, True, st)
           | Inl AdapterBuildPermanent \<Rightarrow>
               let (r, st) = reported HealthPermanentFailure (run_store w (mark_permanently_failed pg claim) st)
               in (r, False, st)
           | Inl AdapterBuildUnavailable \<Rightarrow>
               let (r, st) = reported (HealthRetryable (rs_default schedule))
                     (run_store w (mark_retryable pg claim (rs_default schedule) AdapterUnavailable) st)
               in (r, False, st)))"

text \<open>
  A turn after the setup fence of the creator has been acquired with the result \<open>fence\<close>, with the
  outcome of building the adapter, and whether the server still runs before the claim and after it.
  A retry schedule out of range stops the process: there is no answer.
\<close>

definition process_creator_outbox ::
  "world \<Rightarrow> ('p, 'd, 's) kit \<Rightarrow> ('r, 'd) env \<Rightarrow> (int \<Rightarrow> int option) \<Rightarrow> pg_add \<Rightarrow> (uuid \<Rightarrow> uuid) \<Rightarrow> (uuid \<Rightarrow> bool) \<Rightarrow> int
     \<Rightarrow> worker_config \<Rightarrow> string \<Rightarrow> (persistence_error, unit) res \<Rightarrow> (persistence_error, unit) res
     \<Rightarrow> (adapter_build_error, unit) res \<Rightarrow> bool \<Rightarrow> bool \<Rightarrow> uuid \<Rightarrow> 's worker_state
     \<Rightarrow> (persistence_error, (bool \<times> processing_health) option) res option \<times> 's worker_state" where
  "process_creator_outbox w kit env from_nanos pg tokens locked later cfg app_id fence unlocked adapter running still creator st =
     (case fence of
        Inl e \<Rightarrow> (Some (Inl e), st)
      | Inr _ \<Rightarrow>
          if \<not> running then (Some (Inr None), st)
          else case run_store w (\<lambda>now. claim_for_creator pg tokens locked (wc_owner cfg) creator (wc_lease cfg) now later) st of
              (Inl e, st) \<Rightarrow> (Some (Inl e), st)
            | (Inr None, st) \<Rightarrow> (Some (Inr None), st)
            | (Inr (Some claim), st) \<Rightarrow>
                (case outbox_retry_schedule (wc_retry_initial cfg) (wc_retry_max cfg) (wc_rapid_attempts cfg)
                        (wc_rapid_interval cfg) (co_attempt_count claim) (co_failure_count claim) of
                   None \<Rightarrow> (None, st)
                 | Some schedule \<Rightarrow>
                     let (result, used, st) = process_claimed_row w kit env from_nanos pg app_id adapter claim schedule st;
                         st = (if result = Inr (True, HealthAvailable) \<and> still \<and> used
                               then snd (send_handed_off_with_guard w kit env creator claim st) else st)
                     in (Some (bindr result (\<lambda>r. bindr unlocked (\<lambda>_. Inr (Some r)))), st)))"

end
