(* ===== verification/Handoff_Safety.thy ===== *)
theory Handoff_Safety
  imports Handoff_Worker
begin

text \<open>
  What the outbox worker guarantees: which store operations leave the identity of every delivery, what
  the other sessions keep of the deliveries of a creator, and that in every run of the worker the
  proposals of the payment kit and the rows that were handed off correspond one to one.
\<close>

section \<open>Operations that leave the identities of a delivery\<close>

definition same_delivery :: "outbox_row \<Rightarrow> outbox_row \<Rightarrow> bool" where
  "same_delivery row row' \<longleftrightarrow> ob_id row' = ob_id row \<and> ob_creator row' = ob_creator row \<and>
     ob_intent_envelope row' = ob_intent_envelope row"

lemma same_delivery_trans: "same_delivery a b \<Longrightarrow> same_delivery b c \<Longrightarrow> same_delivery a c"
  by (simp add: same_delivery_def)

definition row_quiet :: "outbox_row \<Rightarrow> outbox_row \<Rightarrow> bool" where
  "row_quiet row row' \<longleftrightarrow> same_delivery row row' \<and> same_identity row row'"

definition outbox_quiet :: "db \<Rightarrow> db \<Rightarrow> bool" where
  "outbox_quiet d d' \<longleftrightarrow> d' = d\<lparr>db_outbox := db_outbox d'\<rparr> \<and> list_all2 row_quiet (db_outbox d) (db_outbox d')"

lemma row_quiet_refl [simp]: "row_quiet row row"
  by (simp add: row_quiet_def same_delivery_def same_identity_def)

lemma outbox_quiet_refl [simp]: "outbox_quiet d d"
  by (simp add: outbox_quiet_def list_all2_refl)

text \<open>The contract of every worker operation but the hand-off itself.\<close>

locale quiet_operation =
  fixes operation :: "db \<Rightarrow> (persistence_error, 'a \<times> db) res"
  assumes quiet: "operation d = Inr (x, d') \<Longrightarrow> outbox_quiet d d'"
begin

lemma same_ids: "operation d = Inr (x, d') \<Longrightarrow> map ob_id (db_outbox d') = map ob_id (db_outbox d)"
proof -
  have "list_all2 row_quiet xs ys \<Longrightarrow> map ob_id ys = map ob_id xs" for xs ys
    by (induction rule: list_all2_induct) (simp_all add: row_quiet_def same_delivery_def)
  then show "operation d = Inr (x, d') \<Longrightarrow> map ob_id (db_outbox d') = map ob_id (db_outbox d)"
    using quiet by (simp add: outbox_quiet_def)
qed

end

lemma transition_fence_rows:
  assumes "transition_fence i fence change d = Inr (b, d')"
    and "\<And>row row'. row \<in> set (db_outbox d) \<Longrightarrow> ob_id row = i \<Longrightarrow> fence row \<Longrightarrow> change row = Inr row' \<Longrightarrow> P row row'"
    and "\<And>row. P row row"
  shows "d' = d\<lparr>db_outbox := db_outbox d'\<rparr> \<and> list_all2 P (db_outbox d) (db_outbox d')"
proof (cases "list_ex (\<lambda>row. ob_id row = i) (db_outbox d)")
  case True
  with assms(1) obtain rows where d': "d' = d\<lparr>db_outbox := rows\<rparr>"
    and "list_all2 (\<lambda>row row'. (if ob_id row = i \<and> fence row then change row else Inr row) = Inr row')
      (db_outbox d) rows"
    by (auto simp: transition_fence_def mapr_Inr_iff)
  then have "list_all2 P (db_outbox d) rows"
    using assms(2,3) by (elim list.rel_mono_strong) (auto split: if_splits)
  then show ?thesis by (simp add: d')
next
  case False
  with assms(1,3) show ?thesis by (simp add: transition_fence_def list_all2_refl)
qed

lemma transition_fence_quiet:
  assumes "transition_fence i fence change d = Inr (b, d')"
    and "\<And>row row'. change row = Inr row' \<Longrightarrow> row_quiet row row'"
  shows "outbox_quiet d d'"
  using transition_fence_rows [OF assms(1), of row_quiet] assms(2) by (simp add: outbox_quiet_def)

lemmas quiet_defs = row_quiet_def same_delivery_def same_identity_def release_def lease_row_def

interpretation renewing: quiet_operation "renew_claim pg claim lease now" for pg claim lease now
proof unfold_locales
  fix d x d'
  assume "renew_claim pg claim lease now d = Inr (x, d')"
  then consider "d' = d" | fence secs where "transition_fence (co_id claim) fence
      (\<lambda>row. bindr (ok_or (pg now (seconds secs)) StoreUnavailable) (\<lambda>expiry.
         Inr (row\<lparr>ob_lease_expires_at := Some expiry\<rparr>))) d = Inr (x, d')"
    by (auto simp: renew_claim_def split: if_splits)
  then show "outbox_quiet d d'"
    by cases (simp, erule transition_fence_quiet, auto simp: quiet_defs)
qed

lemma outbox_transition_quiet: "outbox_transition pg claim status error_class delay now d = Inr (x, d') \<Longrightarrow> outbox_quiet d d'"
  unfolding outbox_transition_def
  by (erule transition_fence_quiet) (auto simp: quiet_defs dest!: rescheduled_Inr)

lemma reconciliation_transition_quiet:
  "reconciliation_transition pg claim status error_class delay now d = Inr (x, d') \<Longrightarrow> outbox_quiet d d'"
  unfolding reconciliation_transition_def
  by (erule transition_fence_quiet) (auto simp: quiet_defs dest!: rescheduled_Inr)

interpretation fail_quiet: quiet_operation "mark_permanently_failed pg claim now" for pg claim now
  by unfold_locales (simp add: mark_permanently_failed_def outbox_transition_quiet)

interpretation expire_quiet: quiet_operation "mark_proposal_expired pg claim now" for pg claim now
  by unfold_locales (simp add: mark_proposal_expired_def outbox_transition_quiet)

interpretation retry_quiet: quiet_operation "mark_retryable pg claim delay cls now" for pg claim delay cls now
  by unfold_locales (auto simp: mark_retryable_def intro: outbox_transition_quiet)

interpretation obsolete_quiet: quiet_operation "mark_cancellation_obsolete claim now" for claim now
  by unfold_locales (unfold mark_cancellation_obsolete_def, erule transition_fence_quiet, auto simp: quiet_defs)

interpretation deliver_quiet: quiet_operation "mark_delivered pg claim now" for pg claim now
  by unfold_locales (simp add: mark_delivered_def reconciliation_transition_quiet)

interpretation reconcile_fail_quiet: quiet_operation "mark_reconciliation_permanently_failed pg claim now" for pg claim now
  by unfold_locales (simp add: mark_reconciliation_permanently_failed_def reconciliation_transition_quiet)

interpretation reconcile_retry_quiet: quiet_operation "retry_reconciliation pg claim delay cls now" for pg claim delay cls now
  by unfold_locales (auto simp: retry_reconciliation_def intro: reconciliation_transition_quiet)

lemma lease_candidates_quiet:
  assumes "lease_candidates pg tokens owner lease later enter candidates d = Inr (rows, d')"
    and "\<And>row. row_quiet row (enter row)"
  shows "outbox_quiet d d'"
proof -
  have "row_quiet row (enter (lease_row owner token expiry row))" for row token expiry
    using assms(2) [of "lease_row owner token expiry row"] by (simp add: quiet_defs)
  then show ?thesis
    using assms(1) by (auto simp: lease_candidates_def Let_def outbox_quiet_def update_where_def list_all2_map2
        list.rel_refl_strong split: if_splits)
qed

interpretation claim_quiet: quiet_operation "claim_matching pg tokens locked owner limit lease creator now later"
  for pg tokens locked owner limit lease creator now later
  by unfold_locales
    (auto simp: claim_matching_def quiet_defs split: if_splits prod.splits elim!: lease_candidates_quiet)

interpretation reconcile_claim_quiet:
  quiet_operation "claim_reconciliation_for_creators pg tokens locked owner limit lease creators now later"
  for pg tokens locked owner limit lease creators now later
  by unfold_locales
    (auto simp: claim_reconciliation_for_creators_def quiet_defs split: if_splits prod.splits elim!: lease_candidates_quiet)

section \<open>What the other transactions leave of a creator's deliveries\<close>

abbreviation creator_keys :: "db \<Rightarrow> (uuid \<times> string) list" where
  "creator_keys d \<equiv> map (\<lambda>c. (cr_id c, cr_lookup_hash c)) (db_creators d)"

definition deliveries_kept :: "uuid \<Rightarrow> db \<Rightarrow> db \<Rightarrow> bool" where
  "deliveries_kept c d d' \<longleftrightarrow> creator_keys d' = creator_keys d \<and>
     (distinct (map ob_id (db_outbox d)) \<longrightarrow> distinct (map ob_id (db_outbox d'))) \<and>
     (\<forall>row \<in> set (db_outbox d). \<exists>row' \<in> set (db_outbox d'). same_delivery row row') \<and>
     (\<forall>row' \<in> set (db_outbox d'). ob_creator row' = c \<longrightarrow> ob_sdk_payment_request_id row' = None \<or>
        (\<exists>row \<in> set (db_outbox d). row_quiet row row'))"

lemma deliveries_kept_same:
  assumes "db_outbox d' = db_outbox d" "creator_keys d' = creator_keys d"
  shows "deliveries_kept c d d'"
proof -
  have "\<forall>row \<in> set (db_outbox d). same_delivery row row \<and> row_quiet row row" by (simp add: same_delivery_def)
  then show ?thesis using assms unfolding deliveries_kept_def by (metis (no_types, lifting))
qed

lemma deliveries_kept_refl [simp]: "deliveries_kept c d d"
  by (rule deliveries_kept_same) simp_all

lemma row_quiet_trans: "row_quiet a b \<Longrightarrow> row_quiet b c \<Longrightarrow> row_quiet a c"
  unfolding row_quiet_def using same_trans(2) same_delivery_trans by blast

lemma row_quiet_fields:
  assumes "row_quiet a b"
  shows "ob_creator b = ob_creator a" "ob_sdk_payment_request_id b = ob_sdk_payment_request_id a"
    "ob_id b = ob_id a" "ob_intent_envelope b = ob_intent_envelope a" "ob_sdk_event_id b = ob_sdk_event_id a"
    "ob_sdk_outbound_message_id b = ob_sdk_outbound_message_id a"
  using assms by (simp_all add: row_quiet_def same_delivery_def same_identity_def)

lemma deliveries_kept_trans:
  assumes "deliveries_kept c a b" "deliveries_kept c b d"
  shows "deliveries_kept c a d"
proof -
  have "\<exists>row' \<in> set (db_outbox d). same_delivery row row'" if "row \<in> set (db_outbox a)" for row
    using assms that same_delivery_trans unfolding deliveries_kept_def by meson
  moreover have "ob_sdk_payment_request_id row' = None \<or> (\<exists>row \<in> set (db_outbox a). row_quiet row row')"
    if "row' \<in> set (db_outbox d)" "ob_creator row' = c" for row'
  proof (cases "ob_sdk_payment_request_id row' = None")
    case False
    with assms(2) that obtain row1 where row1: "row1 \<in> set (db_outbox b)" "row_quiet row1 row'"
      unfolding deliveries_kept_def by metis
    with assms(1) that(2) False obtain row where "row \<in> set (db_outbox a)" "row_quiet row row1"
      unfolding deliveries_kept_def using row_quiet_fields [OF row1(2)] by auto
    then show ?thesis using row1(2) row_quiet_trans by blast
  qed simp
  moreover have "creator_keys d = creator_keys a"
    "distinct (map ob_id (db_outbox a)) \<longrightarrow> distinct (map ob_id (db_outbox d))"
    using assms by (simp_all add: deliveries_kept_def)
  ultimately show ?thesis unfolding deliveries_kept_def by blast
qed

lemma list_all2_in_set1: "list_all2 P xs ys \<Longrightarrow> x \<in> set xs \<Longrightarrow> \<exists>y \<in> set ys. P x y"
  by (induction rule: list_all2_induct) auto

lemma deliveries_kept_rows:
  assumes "d' = d\<lparr>db_outbox := db_outbox d'\<rparr>"
    and rows: "list_all2 (\<lambda>row row'. same_delivery row row' \<and> (ob_creator row = c \<longrightarrow> same_identity row row')) (db_outbox d) (db_outbox d')"
  shows "deliveries_kept c d d'"
proof -
  have "map ob_id ys = map ob_id xs"
    if "list_all2 (\<lambda>row row'. same_delivery row row' \<and> (ob_creator row = c \<longrightarrow> same_identity row row')) xs ys" for xs ys
    using that by (induction rule: list_all2_induct) (simp_all add: same_delivery_def)
  moreover have "db_creators d' = db_creators d" by (subst assms(1)) simp
  moreover have "\<exists>row' \<in> set (db_outbox d'). same_delivery row row'" if "row \<in> set (db_outbox d)" for row
    using list_all2_in_set1 [OF rows that] by blast
  moreover have "\<exists>row \<in> set (db_outbox d). row_quiet row row'" if "row' \<in> set (db_outbox d')" "ob_creator row' = c" for row'
    using list_all2_in_set2 [OF rows that(1)] that(2) by (auto simp: row_quiet_def same_delivery_def)
  ultimately show ?thesis using rows unfolding deliveries_kept_def by auto
qed

lemma deliveries_kept_quiet: "outbox_quiet d d' \<Longrightarrow> deliveries_kept c d d'"
  by (rule deliveries_kept_rows) (auto simp: outbox_quiet_def row_quiet_def elim!: list_all2_mono)

lemma deliveries_kept_frame: "lock_frame d d' \<Longrightarrow> deliveries_kept c d d'"
  by (rule deliveries_kept_same) (simp_all add: lock_frame_def)

lemma deliveries_kept_admission:
  assumes "admit_new env fresh input creator windows deadlines d = Inr (r, d')"
  shows "deliveries_kept c d d'"
proof (rule admit_new_rows [OF assms], goal_cases)
  case (1 generation payment_record record_envelope invoice_envelope assignment_envelope outbox_envelope reference intent)
  have "creator_keys d' = creator_keys d" unfolding 1(4) by (rule map_update_where) simp
  moreover obtain row where row: "db_outbox d' = db_outbox d @ [row]" "ob_sdk_payment_request_id row = None"
    using 1(3) by (auto simp: queued_proposal_def)
  moreover have "distinct (map ob_id (db_outbox d)) \<longrightarrow> distinct (map ob_id (db_outbox d'))"
    using admission_drains(5) [OF assms] by blast
  moreover note deliveries_kept_same [of d d c, OF refl refl]
  ultimately show ?case unfolding deliveries_kept_def by auto
qed

lemma deliveries_kept_enqueue:
  assumes "enqueue_cancellation creator now d x = Inr d'"
  shows "deliveries_kept c d d'"
proof (cases "pc_insert x")
  case True
  with assms have i: "insert_outbox (drain_cancellation creator now x) d = Inr d'"
    by (simp add: enqueue_cancellation_def split: if_splits)
  then have "d' = d\<lparr>db_outbox := db_outbox d @ [drain_cancellation creator now x]\<rparr>"
    by (auto simp: insert_outbox_def split: if_splits)
  moreover note deliveries_kept_same [of d d c, OF refl refl] outbox_ids.insert_distinct [OF i]
  ultimately show ?thesis unfolding deliveries_kept_def by (auto simp: drain_cancellation_def)
next
  case False
  then obtain m where d': "d' = d\<lparr>db_outbox := update_where m (\<lambda>row. row\<lparr>ob_drain_required := True\<rparr>) (db_outbox d)\<rparr>"
    using assms by (auto simp: enqueue_cancellation_def Let_def split: if_splits)
  show ?thesis
    by (rule deliveries_kept_quiet)
      (auto simp: d' outbox_quiet_def update_where_def list.rel_map quiet_defs intro!: list.rel_refl)
qed

lemma deliveries_kept_fold:
  assumes "foldr_res f d xs = Inr d'" "\<And>x d d'. f d x = Inr d' \<Longrightarrow> deliveries_kept c d d'"
  shows "deliveries_kept c d d'"
  using assms(1)
proof (induction xs arbitrary: d)
  case (Cons x xs)
  then obtain d1 where "f d x = Inr d1" "foldr_res f d1 xs = Inr d'" by auto
  then show ?case using assms(2) Cons.IH deliveries_kept_trans by blast
qed simp

lemma deliveries_kept_drain:
  assumes "write_drain row cs xs d = Inr (s, d')"
  shows "deliveries_kept c d d'"
proof -
  from assms obtain d2 d3 d4 d5 where steps: "insert_drain row d = Inr d2"
    "fence_generation (dn_id row) (dn_creator row) (dn_lock_hash row) (dn_generation row) d2 = Inr d3"
    "foldr_res (enqueue_cancellation (dn_creator row) (dn_created_at row)) d3 xs = Inr d4"
    "foldr_res (insert_drain_item (dn_id row)) d4 cs = Inr d5"
    "foldr_res (insert_drain_cancellation (dn_id row)) d5 xs = Inr d'"
    by (auto simp: write_drain_def)
  have "deliveries_kept c d d3"
    using steps(1,2) by (intro deliveries_kept_same)
      (auto simp: insert_drain_def fence_generation_def Let_def split: if_splits)
  moreover have "deliveries_kept c d3 d4" by (rule deliveries_kept_fold [OF steps(3) deliveries_kept_enqueue])
  moreover have "deliveries_kept c d4 d5"
    by (rule deliveries_kept_fold [OF steps(4)], rule deliveries_kept_same)
      (auto simp: insert_drain_item_def split: if_splits prod.splits)
  moreover have "deliveries_kept c d5 d'"
    by (rule deliveries_kept_fold [OF steps(5)], rule deliveries_kept_same)
      (auto simp: insert_drain_cancellation_def split: if_splits)
  ultimately show ?thesis using deliveries_kept_trans by blast
qed

lemma deliveries_kept_create:
  assumes "create_inner env collate fresh creator lock_resource evidence d = Inr (s, d')"
  shows "deliveries_kept c d d'"
proof -
  have "deliveries_kept c d (ensure_generation i h d)" for i h
    by (rule deliveries_kept_same) (simp_all add: ensure_generation_def split: option.splits)
  moreover have "deliveries_kept c d d1" if "exact_drain_replay env collate creator lock_resource now d = Inr (r, d1)" for now r d1
    using that by (intro deliveries_kept_same) (auto simp: exact_drain_replay_def Let_def split: option.splits if_splits)
  ultimately show ?thesis
    using assms deliveries_kept_drain deliveries_kept_trans
    by (fastforce simp: create_inner_def create_drain_def Let_def split: option.splits if_splits prod.splits)
qed

lemma deliveries_kept_cleanup:
  "cleanup_completed env collate creator lock_resource token d = Inr d' \<Longrightarrow> deliveries_kept c d d'"
  by (rule deliveries_kept_same)
    (auto simp: cleanup_completed_def delete_drain_def Let_def split: option.splits if_splits)

text \<open>The transactions of the other sessions: everything but a hand-off of this creator.\<close>

inductive other_step :: "('r, 'd) env \<Rightarrow> uuid \<Rightarrow> db \<Rightarrow> db \<Rightarrow> bool" for env c where
  admit: "create_atomic env fresh input d = Inr (r, d') \<Longrightarrow> other_step env c d d'"
| follow: "lifecycle_step env d d' \<Longrightarrow> other_step env c d d'"
| observe: "evidence_step env d d' \<Longrightarrow> other_step env c d d'"
| claim: "claim_matching pg tokens locked owner limit lease creator now later d = Inr (claims, d') \<Longrightarrow> other_step env c d d'"
| renew: "renew_claim pg claim lease now d = Inr (b, d') \<Longrightarrow> other_step env c d d'"
| hand_off_other: "mark_handed_off claim result now d = Inr (b, d') \<Longrightarrow>
    \<forall>row \<in> set (db_outbox d). ob_id row = co_id claim \<longrightarrow> ob_creator row \<noteq> c \<Longrightarrow> other_step env c d d'"
| fail: "mark_permanently_failed pg claim now d = Inr (b, d') \<Longrightarrow> other_step env c d d'"
| expire: "mark_proposal_expired pg claim now d = Inr (b, d') \<Longrightarrow> other_step env c d d'"
| obsolete: "mark_cancellation_obsolete claim now d = Inr (b, d') \<Longrightarrow> other_step env c d d'"
| retry: "mark_retryable pg claim delay cls now d = Inr (b, d') \<Longrightarrow> other_step env c d d'"
| claim_handoff: "claim_reconciliation_for_creators pg tokens locked owner limit lease creators now later d =
    Inr (handoffs, d') \<Longrightarrow> other_step env c d d'"
| deliver: "mark_delivered pg handoff now d = Inr (b, d') \<Longrightarrow> other_step env c d d'"
| fail_handoff: "mark_reconciliation_permanently_failed pg handoff now d = Inr (b, d') \<Longrightarrow> other_step env c d d'"
| retry_handoff: "retry_reconciliation pg handoff delay cls now d = Inr (b, d') \<Longrightarrow> other_step env c d d'"
| drain: "create_inner env collate fresh creator lock_resource evidence d = Inr (snapshot, d') \<Longrightarrow> other_step env c d d'"
| cleanup: "cleanup_completed env collate creator lock_resource token d = Inr d' \<Longrightarrow> other_step env c d d'"

lemma handed_off_rows:
  assumes "mark_handed_off claim result now d = Inr (b, d')"
  shows "d' = d\<lparr>db_outbox := db_outbox d'\<rparr> \<and>
    list_all2 (\<lambda>row row'. same_delivery row row' \<and> (same_identity row row' \<or> ob_id row = co_id claim \<and>
      ob_sdk_outbound_message_id row' = Some (dec_show (unat (handoff_outbound_message_id result))) \<and>
      ob_sdk_event_id row' = fst (handoff_identity result) \<and>
      ob_sdk_payment_request_id row' = snd (handoff_identity result))) (db_outbox d) (db_outbox d')"
  using assms unfolding mark_handed_off_def
  by (rule transition_fence_rows) (auto simp: same_delivery_def same_identity_def release_def Let_def split: if_splits)

lemma other_step_kept: "other_step env c d d' \<Longrightarrow> deliveries_kept c d d'"
proof (induction rule: other_step.induct)
  case (admit fresh input d r d')
  then show ?case
    by (rule create_atomic_Inr) (auto intro: deliveries_kept_admission)
next
  case (hand_off_other claim result now d b d')
  note rows = handed_off_rows [OF hand_off_other(1)]
  show ?case
  proof (rule deliveries_kept_rows)
    show "d' = d\<lparr>db_outbox := db_outbox d'\<rparr>" using rows by blast
    show "list_all2 (\<lambda>row row'. same_delivery row row' \<and> (ob_creator row = c \<longrightarrow> same_identity row row')) (db_outbox d) (db_outbox d')"
      using conjunct2 [OF rows] by (rule list.rel_mono_strong) (use hand_off_other(2) in auto)
  qed
qed (auto dest: lifecycle_lock_frame evidence_lock_frame
    intro: deliveries_kept_create deliveries_kept_cleanup deliveries_kept_frame deliveries_kept_quiet
    renewing.quiet fail_quiet.quiet expire_quiet.quiet retry_quiet.quiet obsolete_quiet.quiet deliver_quiet.quiet
    reconcile_fail_quiet.quiet reconcile_retry_quiet.quiet claim_quiet.quiet reconcile_claim_quiet.quiet)

lemma other_run_kept: "(other_step env c)\<^sup>*\<^sup>* d d' \<Longrightarrow> deliveries_kept c d d'"
  by (induction rule: rtranclp_induct) (auto intro: deliveries_kept_trans other_step_kept)

section \<open>A kit that binds a proposal to its identifier\<close>

text \<open>
  The documented contract of the kit behind \<open>Adapter::propose_payment_request\<close>: a proposal is created
  or recovered under the identifier it is given, conflicting input is refused, and the identifiers of
  the original are retained.  \<open>sent s i\<close> is the proposal the kit holds under the identifier \<open>i\<close> with its
  recipient, terms, message and event.  No other call proposes.
\<close>

definition kit_keeps ::
  "('p, 'd, 's) kit \<Rightarrow> ('s \<Rightarrow> string \<Rightarrow> ('p \<times> 'd sdk_terms \<times> u64 \<times> string) option) \<Rightarrow> bool" where
  "kit_keeps kit sent \<longleftrightarrow>
     (\<forall>p s. sent (snd (kit_receive kit p s)) = sent s) \<and>
     (\<forall>s. sent (snd (kit_receive_linked kit s)) = sent s) \<and>
     (\<forall>s. sent (snd (kit_payment_requests kit s)) = sent s) \<and>
     (\<forall>p s. sent (snd (kit_registry kit p s)) = sent s) \<and>
     (\<forall>p s. sent (snd (kit_authorization kit p s)) = sent s) \<and>
     (\<forall>p s. sent (snd (kit_ensure_link kit p s)) = sent s) \<and>
     (\<forall>p i s. sent (snd (kit_cancel kit p i s)) = sent s) \<and>
     (\<forall>s. sent (snd (kit_outbound kit s)) = sent s) \<and>
     (\<forall>p s. sent (snd (kit_process_outbound kit p s)) = sent s) \<and>
     (\<forall>s. sent (snd (kit_linked_peers kit s)) = sent s) \<and>
     (\<forall>s. sent (snd (kit_pending_outbound kit s)) = sent s)"

definition kit_bound ::
  "('p, 'd, 's) kit \<Rightarrow> ('s \<Rightarrow> string \<Rightarrow> ('p \<times> 'd sdk_terms \<times> u64 \<times> string) option) \<Rightarrow> bool" where
  "kit_bound kit sent \<longleftrightarrow> kit_keeps kit sent \<and>
     (\<forall>p i x s j. j \<noteq> i \<longrightarrow> sent (snd (kit_propose kit p i x s)) j = sent s j) \<and>
     (\<forall>p i x s y. sent s i = Some y \<longrightarrow> sent (snd (kit_propose kit p i x s)) i = Some y) \<and>
     (\<forall>p i x s p' x' m e. sent s i = None \<and> sent (snd (kit_propose kit p i x s)) i = Some (p', x', m, e) \<longrightarrow> p' = p \<and> x' = x) \<and>
     (\<forall>p i x s record s'. kit_propose kit p i x s = (Inr record, s') \<longrightarrow> rr_payment_request_id record = i \<and>
        (\<exists>m e. sent s' i = Some (p, x, m, e) \<and>
          (\<forall>m'. rr_proposal_outbound_message_id record = Some m' \<longrightarrow> m' = m) \<and>
          (\<forall>e'. rr_proposal_event_id record = Some e' \<longrightarrow> e' = e)))"

definition others_only :: "('r, 'd) env \<Rightarrow> uuid \<Rightarrow> world \<Rightarrow> bool" where
  "others_only env c w \<longleftrightarrow> (\<forall>n d. (other_step env c)\<^sup>*\<^sup>* d (w_drift w n d))"

definition quiet_turn ::
  "uuid \<Rightarrow> ('s \<Rightarrow> string \<Rightarrow> ('p \<times> 'd sdk_terms \<times> u64 \<times> string) option) \<Rightarrow> 's worker_state \<Rightarrow> 's worker_state \<Rightarrow> bool" where
  "quiet_turn c sent st st' \<longleftrightarrow> deliveries_kept c (ws_db st) (ws_db st') \<and> sent (ws_kit st') = sent (ws_kit st)"

lemma quiet_turn_refl [simp]: "quiet_turn c sent st st"
  by (simp add: quiet_turn_def)

lemma quiet_turn_trans: "quiet_turn c sent a b \<Longrightarrow> quiet_turn c sent b d \<Longrightarrow> quiet_turn c sent a d"
  unfolding quiet_turn_def using deliveries_kept_trans by metis

lemma map_errk_snd [simp]: "snd (map_errk g r) = snd r"
  by (simp add: map_errk_def)

lemma bindk_quiet:
  assumes "quiet_turn c sent st (snd r)" "\<And>x st1. r = (Inr x, st1) \<Longrightarrow> quiet_turn c sent st1 (snd (f x st1))"
  shows "quiet_turn c sent st (snd (bindk r f))"
proof (cases r)
  case (Pair y st1)
  then show ?thesis using assms quiet_turn_trans by (cases y) fastforce+
qed

lemma store_turn_quiet: "others_only env c w \<Longrightarrow> quiet_turn c sent st (store_turn w st)"
  using other_run_kept by (simp add: others_only_def quiet_turn_def store_turn_def) blast

lemma ask_store_quiet: "others_only env c w \<Longrightarrow> quiet_turn c sent st (snd (ask_store w f st))"
  by (simp add: ask_store_def Let_def store_turn_quiet)

lemma run_store_quiet:
  assumes "others_only env c w" "\<And>now d x d'. op now d = Inr (x, d') \<Longrightarrow> outbox_quiet d d'"
  shows "quiet_turn c sent st (snd (run_store w op st))"
proof -
  note turn = store_turn_quiet [OF assms(1), of sent st]
  have "quiet_turn c sent st (store_turn w st\<lparr>ws_db := d\<rparr>)"
    if "op now (ws_db (store_turn w st)) = Inr (x, d)" for now x d
  proof -
    have "quiet_turn c sent (store_turn w st) (store_turn w st\<lparr>ws_db := d\<rparr>)"
      using deliveries_kept_quiet [OF assms(2) [OF that]] by (simp add: quiet_turn_def)
    then show ?thesis using turn quiet_turn_trans by blast
  qed
  then show ?thesis using turn by (auto simp: run_store_def Let_def split: sum.splits)
qed

lemma on_kit_quiet: "sent (snd (call (ws_kit st))) = sent (ws_kit st) \<Longrightarrow> quiet_turn c sent st (snd (on_kit call st))"
  by (simp add: on_kit_def quiet_turn_def split_beta Let_def)

lemma reported_quiet: "quiet_turn c sent st (snd r) \<Longrightarrow> quiet_turn c sent st (snd (reported health r))"
  unfolding reported_def by (rule bindk_quiet) simp_all

lemma bindk_sent:
  assumes "sent (snd r) = sent s" "\<And>x s1. r = (Inr x, s1) \<Longrightarrow> sent (snd (f x s1)) = sent s1"
  shows "sent (snd (bindk r f)) = sent s"
proof (cases r)
  case (Pair y s1)
  then show ?thesis using assms by (cases y) auto
qed

lemma reading_calls_quiet:
  assumes "kit_bound kit sent"
  shows "sent (snd (fetch_registry kit reader s)) = sent s" "sent (snd (fetch_authorization kit reader s)) = sent s"
    "sent (snd (ensure_link_with_peer kit reader s)) = sent s" "sent (snd (cancel_payment_request kit sdk reader i s)) = sent s"
    "sent (snd (receive_from_targets kit targets s)) = sent s"
proof -
  note kit = assms [unfolded kit_bound_def kit_keeps_def]
  show "sent (snd (fetch_registry kit reader s)) = sent s"
    unfolding fetch_registry_def by (rule bindk_sent) (use kit in \<open>auto simp: parse_peer_def\<close>)
  show "sent (snd (fetch_authorization kit reader s)) = sent s"
    unfolding fetch_authorization_def by (rule bindk_sent) (use kit in \<open>auto simp: parse_peer_def split_beta Let_def\<close>)
  show "sent (snd (ensure_link_with_peer kit reader s)) = sent s"
    unfolding ensure_link_with_peer_def by (intro bindk_sent) (use kit in \<open>auto simp: parse_peer_def\<close>)
  show "sent (snd (cancel_payment_request kit sdk reader i s)) = sent s"
    unfolding cancel_payment_request_def by (intro bindk_sent) (use kit in \<open>auto simp: parse_peer_def\<close>)
  show "sent (snd (receive_from_targets kit targets s)) = sent s"
    using kit by (induction targets arbitrary: s) (auto simp: split_beta Let_def)
qed

lemma check_claim_quiet:
  assumes "others_only env c w"
  shows "quiet_turn c sent st (snd (check_claim w claim expiration st))"
  unfolding check_claim_def
  by (auto split: option.splits intro!: bindk_quiet ask_store_quiet [OF assms])

lemma prepare_handoff_quiet:
  assumes "others_only env c w" "kit_bound kit sent"
  shows "quiet_turn c sent st (snd (prepare_handoff w kit sdk i intent claim st))"
  unfolding prepare_handoff_def
  by (intro bindk_quiet)
    (simp_all add: check_claim_quiet [OF assms(1)] on_kit_quiet reading_calls_quiet [OF assms(2)])

lemma refresh_turn_quiet:
  assumes "others_only env c w" "kit_bound kit sent"
  shows "quiet_turn c sent st (snd (refresh_turn w kit env from_nanos app_id creator_id targets st))"
proof -
  let ?st = "store_turn w st"
  obtain r s d where r: "refresh_payment_requests_locked kit env from_nanos app_id creator_id targets (ws_kit ?st, ws_db ?st) = (r, s, d)"
    by (metis prod.exhaust)
  have "sent s = sent (ws_kit ?st) \<and> (lifecycle_step env)\<^sup>*\<^sup>* (ws_db ?st) d"
    using r reading_calls_quiet(5) [OF assms(2), of targets "ws_kit ?st"] assms(2) [unfolded kit_bound_def kit_keeps_def]
    by (auto simp: refresh_payment_requests_locked_def project_payment_requests_locked_def project_lifecycles_after_receive_def
        Let_def bindk_def split: prod.splits sum.splits intro!: persist_projections_steps) (metis snd_conv)+
  then have "quiet_turn c sent ?st (?st\<lparr>ws_kit := s, ws_db := d\<rparr>)"
    by (auto simp: quiet_turn_def elim!: lifecycle_run_tables intro!: deliveries_kept_same)
  then show ?thesis
    using store_turn_quiet [OF assms(1), of sent st] quiet_turn_trans by (simp add: refresh_turn_def Let_def r) blast
qed

section \<open>A delivery is bound to its outbox row\<close>

definition row_proposal ::
  "('r, 'd) env \<Rightarrow> string \<Rightarrow> outbox_row \<Rightarrow> delivery_intent \<Rightarrow> payment_terms \<Rightarrow> bool" where
  "row_proposal env ch row intent terms \<longleftrightarrow>
     decrypt_delivery_intent env (ob_id row) ch (ob_intent_envelope row) = Inr intent \<and>
     intent_operation intent = PaymentRequestProposal terms"

text \<open>
  Every proposal the kit holds belongs to a row of the creator and carries the recipient and the terms
  sealed in that row; every proposal row that was handed off holds the identifiers of exactly the
  proposal under its own identifier.
\<close>

definition deliveries_bound ::
  "('r, 'd) env \<Rightarrow> ('p, 'd, 's) kit \<Rightarrow> ('s \<Rightarrow> string \<Rightarrow> ('p \<times> 'd sdk_terms \<times> u64 \<times> string) option) \<Rightarrow> uuid \<Rightarrow> string
     \<Rightarrow> 's \<Rightarrow> db \<Rightarrow> bool" where
  "deliveries_bound env kit sent c ch s d \<longleftrightarrow>
     (\<forall>i p x m e. sent s i = Some (p, x, m, e) \<longrightarrow>
        (\<exists>row \<in> set (db_outbox d). ob_creator row = c \<and> i = uuid_hyphenated (env_sdk env) (ob_id row) \<and>
          (\<exists>intent terms. row_proposal env ch row intent terms \<and>
            kit_peer kit (intent_reader_pubky intent) = Some p \<and> to_sdk (env_sdk env) terms = Inr x))) \<and>
     (\<forall>row \<in> set (db_outbox d). \<forall>request intent terms.
        ob_creator row = c \<and> ob_sdk_payment_request_id row = Some request \<and> row_proposal env ch row intent terms \<longrightarrow>
        request = uuid_hyphenated (env_sdk env) (ob_id row) \<and>
        (\<exists>p x m e. sent s request = Some (p, x, m, e) \<and> ob_sdk_event_id row = Some e \<and>
          ob_sdk_outbound_message_id row = Some (dec_show (unat m))))"

definition claim_of_row :: "uuid \<Rightarrow> string \<Rightarrow> claimed_outbox \<Rightarrow> db \<Rightarrow> bool" where
  "claim_of_row c ch claim d \<longleftrightarrow> co_creator_hash claim = ch \<and>
     (\<exists>row \<in> set (db_outbox d). ob_id row = co_id claim \<and> ob_creator row = c \<and> ob_intent_envelope row = co_intent_envelope claim)"

lemma claim_of_row_kept: "claim_of_row c ch claim d \<Longrightarrow> deliveries_kept c d d' \<Longrightarrow> claim_of_row c ch claim d'"
  unfolding claim_of_row_def deliveries_kept_def same_delivery_def by metis

lemma row_proposal_same: "same_delivery row row' \<Longrightarrow> row_proposal env ch row' = row_proposal env ch row"
  by (simp add: row_proposal_def same_delivery_def fun_eq_iff)

lemma deliveries_bound_row:
  assumes "deliveries_bound env kit sent c ch s d" "row \<in> set (db_outbox d)" "ob_creator row = c"
    and "ob_sdk_payment_request_id row = Some request" "row_proposal env ch row intent terms"
  shows "request = uuid_hyphenated (env_sdk env) (ob_id row) \<and> (\<exists>p x m e. sent s request = Some (p, x, m, e) \<and>
    ob_sdk_event_id row = Some e \<and> ob_sdk_outbound_message_id row = Some (dec_show (unat m)))"
  using assms unfolding deliveries_bound_def by blast

lemma deliveries_bound_entry:
  assumes "deliveries_bound env kit sent c ch s d" "sent s i = Some (p, x, m, e)"
  obtains row intent terms where "row \<in> set (db_outbox d)" "ob_creator row = c"
    "i = uuid_hyphenated (env_sdk env) (ob_id row)" "row_proposal env ch row intent terms"
    "kit_peer kit (intent_reader_pubky intent) = Some p" "to_sdk (env_sdk env) terms = Inr x"
  using assms unfolding deliveries_bound_def by blast

lemma deliveries_boundI:
  assumes "\<And>i p x m e. sent s i = Some (p, x, m, e) \<Longrightarrow> \<exists>row \<in> set (db_outbox d). ob_creator row = c \<and>
      i = uuid_hyphenated (env_sdk env) (ob_id row) \<and> (\<exists>intent terms. row_proposal env ch row intent terms \<and>
        kit_peer kit (intent_reader_pubky intent) = Some p \<and> to_sdk (env_sdk env) terms = Inr x)"
    and "\<And>row request intent terms. row \<in> set (db_outbox d) \<Longrightarrow> ob_creator row = c \<Longrightarrow>
      ob_sdk_payment_request_id row = Some request \<Longrightarrow> row_proposal env ch row intent terms \<Longrightarrow>
      request = uuid_hyphenated (env_sdk env) (ob_id row) \<and> (\<exists>p x m e. sent s request = Some (p, x, m, e) \<and>
        ob_sdk_event_id row = Some e \<and> ob_sdk_outbound_message_id row = Some (dec_show (unat m)))"
  shows "deliveries_bound env kit sent c ch s d"
  unfolding deliveries_bound_def by (intro conjI allI impI ballI) (use assms in blast)+

lemma entry_row_kept:
  assumes "\<forall>row \<in> set (db_outbox d). \<exists>row' \<in> set (db_outbox d'). same_delivery row row'"
    and "row \<in> set (db_outbox d)" "ob_creator row = c" "i = uuid_hyphenated sdk (ob_id row)" "row_proposal env ch row intent terms"
    "kit_peer kit (intent_reader_pubky intent) = Some p" "to_sdk sdk terms = Inr x"
  shows "\<exists>row \<in> set (db_outbox d'). ob_creator row = c \<and> i = uuid_hyphenated sdk (ob_id row) \<and>
    (\<exists>intent terms. row_proposal env ch row intent terms \<and> kit_peer kit (intent_reader_pubky intent) = Some p \<and> to_sdk sdk terms = Inr x)"
proof -
  obtain row' where "row' \<in> set (db_outbox d')" "same_delivery row row'" using assms(1,2) by blast
  then show ?thesis
    using assms(3-7) row_proposal_same [of row row' env ch] by (intro bexI [of _ row']) (auto simp: same_delivery_def)
qed

lemma deliveries_bound_kept:
  assumes bound: "deliveries_bound env kit sent c ch s d" and kept: "deliveries_kept c d d'" and "sent s' = sent s"
  shows "deliveries_bound env kit sent c ch s' d'"
proof (rule deliveries_boundI)
  fix i p x m e
  assume "sent s' i = Some (p, x, m, e)"
  with assms(3) have "sent s i = Some (p, x, m, e)" by simp
  then obtain row intent terms where row: "row \<in> set (db_outbox d)" "ob_creator row = c"
    "i = uuid_hyphenated (env_sdk env) (ob_id row)" "row_proposal env ch row intent terms"
    "kit_peer kit (intent_reader_pubky intent) = Some p" "to_sdk (env_sdk env) terms = Inr x"
    by (rule deliveries_bound_entry [OF bound])
  show "\<exists>row \<in> set (db_outbox d'). ob_creator row = c \<and>
      i = uuid_hyphenated (env_sdk env) (ob_id row) \<and> (\<exists>intent terms. row_proposal env ch row intent terms \<and>
        kit_peer kit (intent_reader_pubky intent) = Some p \<and> to_sdk (env_sdk env) terms = Inr x)"
    by (rule entry_row_kept [OF _ row]) (use kept in \<open>simp add: deliveries_kept_def\<close>)
next
  fix row' request intent terms
  assume row': "row' \<in> set (db_outbox d')" "ob_creator row' = c" "ob_sdk_payment_request_id row' = Some request"
    "row_proposal env ch row' intent terms"
  with kept obtain row where row: "row \<in> set (db_outbox d)" "row_quiet row row'"
    unfolding deliveries_kept_def by (metis option.distinct(1))
  then have "row_proposal env ch row intent terms" using row'(4) row_proposal_same by (metis row_quiet_def)
  with deliveries_bound_row [OF bound row(1), of request intent terms] row' row_quiet_fields [OF row(2)] assms(3)
  show "request = uuid_hyphenated (env_sdk env) (ob_id row') \<and> (\<exists>p x m e. sent s' request = Some (p, x, m, e) \<and>
      ob_sdk_event_id row' = Some e \<and> ob_sdk_outbound_message_id row' = Some (dec_show (unat m)))" by auto
qed

lemma propose_payment_request_cases:
  assumes "propose_payment_request kit sdk reader i terms s = (r, s')"
  obtains (refused) e where "s' = s" "r = Inl e"
  | (called) p x q where "kit_peer kit reader = Some p" "to_sdk sdk terms = Inr x"
      "kit_propose kit p i x s = (q, s')"
      "r = (case q of Inl e \<Rightarrow> Inl (classify_sdk e) | Inr record \<Rightarrow>
         bindr (ok_or (rr_proposal_outbound_message_id record) HandoffPermanent) (\<lambda>message.
         bindr (ok_or (rr_proposal_event_id record) HandoffPermanent) (\<lambda>event.
         Inr (ProposalSent message event (rr_payment_request_id record)))))"
proof (cases "kit_peer kit reader")
  case None
  then show ?thesis using assms refused by (auto simp: propose_payment_request_def parse_peer_def ok_or_def)
next
  case (Some p)
  show ?thesis
  proof (cases "to_sdk sdk terms")
    case (Inl e)
    then show ?thesis using assms Some refused
      by (auto simp: propose_payment_request_def parse_peer_def map_err_def)
  next
    case (Inr x)
    obtain q s1 where q: "kit_propose kit p i x s = (q, s1)" by force
    then have "r = (case q of Inl e \<Rightarrow> Inl (classify_sdk e) | Inr record \<Rightarrow>
       bindr (ok_or (rr_proposal_outbound_message_id record) HandoffPermanent) (\<lambda>message.
       bindr (ok_or (rr_proposal_event_id record) HandoffPermanent) (\<lambda>event.
       Inr (ProposalSent message event (rr_payment_request_id record)))))" "s' = s1"
      using assms Some Inr
      by (auto simp: propose_payment_request_def parse_peer_def map_err_def map_errk_def split: sum.splits)
    with called Some Inr q show ?thesis by blast
  qed
qed

lemma kit_bound_propose:
  assumes "kit_bound kit sent" "kit_propose kit p i x s = (q, s')"
  shows "j \<noteq> i \<Longrightarrow> sent s' j = sent s j" "sent s i = Some y \<Longrightarrow> sent s' i = Some y"
    "sent s i = None \<Longrightarrow> sent s' i = Some (p', x', m, e) \<Longrightarrow> p' = p \<and> x' = x"
    "q = Inr record \<Longrightarrow> rr_payment_request_id record = i \<and> (\<exists>m e. sent s' i = Some (p, x, m, e) \<and>
       (\<forall>m'. rr_proposal_outbound_message_id record = Some m' \<longrightarrow> m' = m) \<and>
       (\<forall>e'. rr_proposal_event_id record = Some e' \<longrightarrow> e' = e))"
proof -
  note kit = assms(1) [unfolded kit_bound_def]
  have s': "snd (kit_propose kit p i x s) = s'" using assms(2) by simp
  from kit have recovered: "\<forall>p i x s record s'. kit_propose kit p i x s = (Inr record, s') \<longrightarrow> rr_payment_request_id record = i \<and>
        (\<exists>m e. sent s' i = Some (p, x, m, e) \<and>
          (\<forall>m'. rr_proposal_outbound_message_id record = Some m' \<longrightarrow> m' = m) \<and>
          (\<forall>e'. rr_proposal_event_id record = Some e' \<longrightarrow> e' = e))" by (elim conjE)
  from kit have others: "\<forall>p i x s j. j \<noteq> i \<longrightarrow> sent (snd (kit_propose kit p i x s)) j = sent s j" by (elim conjE)
  from kit have kept: "\<forall>p i x s y. sent s i = Some y \<longrightarrow> sent (snd (kit_propose kit p i x s)) i = Some y" by (elim conjE)
  from kit have fresh: "\<forall>p i x s p' x' m e. sent s i = None \<and> sent (snd (kit_propose kit p i x s)) i = Some (p', x', m, e) \<longrightarrow>
      p' = p \<and> x' = x" by (elim conjE)
  show "j \<noteq> i \<Longrightarrow> sent s' j = sent s j" using others [rule_format, of j i p x s] s' by simp
  show "sent s i = Some y \<Longrightarrow> sent s' i = Some y" using kept [rule_format, of s i y p x] s' by simp
  show "sent s i = None \<Longrightarrow> sent s' i = Some (p', x', m, e) \<Longrightarrow> p' = p \<and> x' = x"
    using fresh [rule_format, of s i p x p' x' m e] s' by simp
  show "q = Inr record \<Longrightarrow> rr_payment_request_id record = i \<and> (\<exists>m e. sent s' i = Some (p, x, m, e) \<and>
       (\<forall>m'. rr_proposal_outbound_message_id record = Some m' \<longrightarrow> m' = m) \<and>
       (\<forall>e'. rr_proposal_event_id record = Some e' \<longrightarrow> e' = e))"
    using recovered [rule_format] assms(2) by simp
qed

lemma proposed_bound:
  assumes "kit_bound kit sent" "propose_payment_request kit sdk reader i terms s = (r, s')"
  shows "j \<noteq> i \<Longrightarrow> sent s' j = sent s j" "sent s i = Some y \<Longrightarrow> sent s' i = Some y"
    and "sent s i = None \<Longrightarrow> sent s' i = Some (p, x, m, e) \<Longrightarrow> kit_peer kit reader = Some p \<and> to_sdk sdk terms = Inr x"
    and "r = Inr result \<Longrightarrow> \<exists>p x m e. sent s' i = Some (p, x, m, e) \<and> result = ProposalSent m e i"
proof -
  note goals = assms(2) [THEN propose_payment_request_cases]
  show "sent s' j = sent s j" if "j \<noteq> i"
    by (rule goals) (use that kit_bound_propose(1) [OF assms(1)] in auto)
  show "sent s' i = Some y" if "sent s i = Some y"
    by (rule goals) (use that kit_bound_propose(2) [OF assms(1)] in auto)
  show "kit_peer kit reader = Some p \<and> to_sdk sdk terms = Inr x" if "sent s i = None" "sent s' i = Some (p, x, m, e)"
    by (rule goals) (use that kit_bound_propose(3) [OF assms(1) _ that] in auto)
  show "\<exists>p x m e. sent s' i = Some (p, x, m, e) \<and> result = ProposalSent m e i" if "r = Inr result"
  proof (rule goals)
    fix p x q
    assume call: "kit_propose kit p i x s = (q, s')" "r = (case q of Inl e \<Rightarrow> Inl (classify_sdk e) | Inr record \<Rightarrow>
         bindr (ok_or (rr_proposal_outbound_message_id record) HandoffPermanent) (\<lambda>message.
         bindr (ok_or (rr_proposal_event_id record) HandoffPermanent) (\<lambda>event.
         Inr (ProposalSent message event (rr_payment_request_id record)))))"
    with that obtain made m e where "q = Inr made" "rr_proposal_outbound_message_id made = Some m"
        "rr_proposal_event_id made = Some e" "result = ProposalSent m e (rr_payment_request_id made)"
      by (auto split: sum.splits)
    with kit_bound_propose(4) [OF assms(1) call(1)] show ?thesis by auto
  qed (use that in simp)
qed

text \<open>The effect of a hand-off on the kit keeps its proposals bound to the rows.\<close>

lemma perform_handoff_bound:
  assumes "kit_bound kit sent" "deliveries_bound env kit sent c ch s d" "claim_of_row c ch claim d"
    and "outbox_delivery_intent env claim = Inr intent"
    and "perform_handoff kit (env_sdk env) intent (uuid_hyphenated (env_sdk env) (co_id claim)) s = (r, s')"
  shows "deliveries_bound env kit sent c ch s' d"
proof (cases "intent_operation intent")
  case (PaymentRequestCancellation target)
  have "sent s' = sent s"
    using reading_calls_quiet(4) [OF assms(1), of "env_sdk env" "intent_reader_pubky intent" target s] assms(5)
    by (auto simp: perform_handoff_def PaymentRequestCancellation map_errk_def)
  then show ?thesis using deliveries_bound_kept [OF assms(2) deliveries_kept_refl] by blast
next
  case (PaymentRequestProposal terms)
  let ?i = "uuid_hyphenated (env_sdk env) (co_id claim)"
  obtain q where call: "propose_payment_request kit (env_sdk env) (intent_reader_pubky intent) ?i terms s = (q, s')"
    using assms(5) by (cases "propose_payment_request kit (env_sdk env) (intent_reader_pubky intent) ?i terms s")
      (auto simp: perform_handoff_def PaymentRequestProposal map_errk_def)
  note made = proposed_bound [OF assms(1) call]
  from assms(3) obtain row where row: "row \<in> set (db_outbox d)" "ob_id row = co_id claim" "ob_creator row = c"
    "ob_intent_envelope row = co_intent_envelope claim" and ch: "co_creator_hash claim = ch"
    unfolding claim_of_row_def by blast
  have own: "row_proposal env ch row intent terms"
    using assms(4) by (simp add: row_proposal_def outbox_delivery_intent_def row ch PaymentRequestProposal)
  have kept: "sent s' i = Some y" if "sent s i = Some y" for i y
    using made(1) [of i] made(2) [of y] that by (cases "i = ?i") auto
  show ?thesis
  proof (rule deliveries_boundI)
    fix i p x m e
    assume now: "sent s' i = Some (p, x, m, e)"
    show "\<exists>row \<in> set (db_outbox d). ob_creator row = c \<and>
      i = uuid_hyphenated (env_sdk env) (ob_id row) \<and> (\<exists>intent terms. row_proposal env ch row intent terms \<and>
        kit_peer kit (intent_reader_pubky intent) = Some p \<and> to_sdk (env_sdk env) terms = Inr x)"
    proof (cases "sent s i")
      case None
      then have "i = ?i" using made(1) now by fastforce
      then show ?thesis using made(3) now None row own by (intro bexI [of _ row]) auto
    next
      case (Some y)
      then have "sent s i = Some (p, x, m, e)" using kept now by fastforce
      then show ?thesis using assms(2) unfolding deliveries_bound_def by blast
    qed
  next
    fix row request intent terms
    assume "row \<in> set (db_outbox d)" "ob_creator row = c" "ob_sdk_payment_request_id row = Some request" "row_proposal env ch row intent terms"
    from deliveries_bound_row [OF assms(2) this] kept
    show "request = uuid_hyphenated (env_sdk env) (ob_id row) \<and> (\<exists>p x m e. sent s' request = Some (p, x, m, e) \<and>
        ob_sdk_event_id row = Some e \<and> ob_sdk_outbound_message_id row = Some (dec_show (unat m)))" by blast
  qed
qed

lemma performed_proposal:
  assumes "kit_bound kit sent" "intent_operation intent = PaymentRequestProposal terms"
    and "perform_handoff kit sdk intent i s = (Inr result, s')"
  shows "\<exists>p x m e. sent s' i = Some (p, x, m, e) \<and> result = ProposalSent m e i"
proof -
  from assms(2,3) have "propose_payment_request kit sdk (intent_reader_pubky intent) i terms s = (Inr result, s')"
    by (cases "propose_payment_request kit sdk (intent_reader_pubky intent) i terms s")
      (auto simp: perform_handoff_def map_errk_def map_err_def split: sum.splits)
  from proposed_bound(4) [OF assms(1) this] show ?thesis by blast
qed

lemma hand_off_bound:
  assumes "mark_handed_off claim result now d = Inr (b, d')" "distinct (map ob_id (db_outbox d))"
    and bound: "deliveries_bound env kit sent c ch s d" and claim: "claim_of_row c ch claim d"
    and intent: "outbox_delivery_intent env claim = Inr intent"
    and "\<And>terms. intent_operation intent = PaymentRequestProposal terms \<Longrightarrow> \<exists>p x m e.
      sent s (uuid_hyphenated (env_sdk env) (co_id claim)) = Some (p, x, m, e) \<and>
      result = ProposalSent m e (uuid_hyphenated (env_sdk env) (co_id claim))"
  shows "deliveries_bound env kit sent c ch s d'"
proof (rule deliveries_boundI)
  note rows = conjunct2 [OF handed_off_rows [OF assms(1)]]
  fix i p x m e
  assume "sent s i = Some (p, x, m, e)"
  then obtain row intent terms where row: "row \<in> set (db_outbox d)" "ob_creator row = c"
    "i = uuid_hyphenated (env_sdk env) (ob_id row)" "row_proposal env ch row intent terms"
    "kit_peer kit (intent_reader_pubky intent) = Some p" "to_sdk (env_sdk env) terms = Inr x"
    by (rule deliveries_bound_entry [OF bound])
  show "\<exists>row \<in> set (db_outbox d'). ob_creator row = c \<and>
      i = uuid_hyphenated (env_sdk env) (ob_id row) \<and> (\<exists>intent terms. row_proposal env ch row intent terms \<and>
        kit_peer kit (intent_reader_pubky intent) = Some p \<and> to_sdk (env_sdk env) terms = Inr x)"
    by (rule entry_row_kept [OF _ row]) (use list_all2_in_set1 [OF rows] in blast)
next
  note rows = conjunct2 [OF handed_off_rows [OF assms(1)]]
  fix row' request intent' terms
  assume row': "row' \<in> set (db_outbox d')" "ob_creator row' = c" "ob_sdk_payment_request_id row' = Some request"
    "row_proposal env ch row' intent' terms"
  from list_all2_in_set2 [OF rows row'(1)] obtain row where row: "row \<in> set (db_outbox d)" "same_delivery row row'"
    and "same_identity row row' \<or> ob_id row = co_id claim \<and>
      ob_sdk_outbound_message_id row' = Some (dec_show (unat (handoff_outbound_message_id result))) \<and>
      ob_sdk_event_id row' = fst (handoff_identity result) \<and>
      ob_sdk_payment_request_id row' = snd (handoff_identity result)" by blast
  then consider "same_identity row row'" | (new) "ob_id row = co_id claim"
      "ob_sdk_outbound_message_id row' = Some (dec_show (unat (handoff_outbound_message_id result)))"
      "ob_sdk_event_id row' = fst (handoff_identity result)"
      "ob_sdk_payment_request_id row' = snd (handoff_identity result)" by blast
  then show "request = uuid_hyphenated (env_sdk env) (ob_id row') \<and> (\<exists>p x m e. sent s request = Some (p, x, m, e) \<and>
      ob_sdk_event_id row' = Some e \<and> ob_sdk_outbound_message_id row' = Some (dec_show (unat m)))"
  proof cases
    case 1
    with row have quiet: "row_quiet row row'" by (simp add: row_quiet_def)
    have "row_proposal env ch row intent' terms" using row'(4) row_proposal_same [OF row(2), of env ch] by simp
    with deliveries_bound_row [OF bound row(1), of request intent' terms] row' row_quiet_fields [OF quiet]
    show ?thesis by auto
  next
    case new
    from claim obtain own where own: "own \<in> set (db_outbox d)" "ob_id own = co_id claim"
      "ob_intent_envelope own = co_intent_envelope claim" "co_creator_hash claim = ch" unfolding claim_of_row_def by blast
    then have "own = row" using row_by_id [OF assms(2)] row(1) new(1) by simp
    with row'(4) row(2) own intent have "intent' = intent"
      by (simp add: row_proposal_def same_delivery_def outbox_delivery_intent_def)
    with row'(4) assms(6) [of terms] obtain p x m e where
      "sent s (uuid_hyphenated (env_sdk env) (co_id claim)) = Some (p, x, m, e)"
      "result = ProposalSent m e (uuid_hyphenated (env_sdk env) (co_id claim))" by (auto simp: row_proposal_def)
    then show ?thesis using new row'(3) row(2) by (auto simp: same_delivery_def)
  qed
qed

text \<open>One hand-off: a quiet preparation, then at most one effect on the kit.\<close>

lemma handoff_steps_effect:
  assumes "handoff_steps_with_claim w kit sdk i intent claim st = (r, st')" "others_only env c w" "kit_bound kit sent"
  obtains (stopped) e where "r = Inl e" "quiet_turn c sent st st'"
  | (performed) st1 s' where "quiet_turn c sent st st1" "st' = st1\<lparr>ws_kit := s'\<rparr>"
      "perform_handoff kit sdk intent (uuid_hyphenated sdk i) (ws_kit st1) = (r, s')"
proof -
  obtain q st1 where q: "prepare_handoff w kit sdk i intent claim st = (q, st1)" by force
  have quiet: "quiet_turn c sent st st1"
    using prepare_handoff_quiet [OF assms(2,3), of st sdk i intent claim] q by simp
  show thesis
  proof (cases q)
    case (Inl e)
    then show ?thesis using stopped quiet assms(1) q by (auto simp: handoff_steps_with_claim_def)
  next
    case (Inr request)
    then have "request = uuid_hyphenated sdk i" using q by (auto simp: prepare_handoff_def bindk_Inr)
    then show ?thesis
      using performed [OF quiet] assms(1) q Inr
      by (auto simp: handoff_steps_with_claim_def on_kit_def Let_def split: prod.splits)
  qed
qed

lemma execute_handoff_effect:
  assumes "execute_claimed_handoff_with_guard w kit env from_nanos app_id creator_id claim intent st = (r, st')"
    and "others_only env c w" "kit_bound kit sent"
  obtains (stopped) e where "r = Inl e" "quiet_turn c sent st st'"
  | (performed) st1 s' where "quiet_turn c sent st st1" "st' = st1\<lparr>ws_kit := s'\<rparr>"
      "perform_handoff kit (env_sdk env) intent (uuid_hyphenated (env_sdk env) (co_id claim)) (ws_kit st1) = (r, s')"
proof -
  let ?gate = "\<lambda>st. case intent_operation intent of
      PaymentRequestProposal _ \<Rightarrow> (Inr (), st)
    | PaymentRequestCancellation _ \<Rightarrow>
        bindk (ok_or (kit_peer kit (intent_reader_pubky intent)) FailurePermanent, st) (\<lambda>target st.
        bindk (map_errk (\<lambda>_. FailureRetryable AdapterUnavailable)
                 (refresh_turn w kit env from_nanos app_id creator_id [target] st)) (\<lambda>_ st.
        bindk (map_errk (\<lambda>_. FailureRetryable AdapterUnavailable)
                 (ask_store w (\<lambda>_. rotation_cancellation_target_is_accepted claim) st)) (\<lambda>accepted st.
        (guardr accepted FailureCancellationObsolete, st))))"
  obtain expired st0 where asked: "ask_store w (provider_v2_deadline_expired claim) st = (expired, st0)" by force
  have st0: "quiet_turn c sent st st0"
    using ask_store_quiet [OF assms(2), of sent st "provider_v2_deadline_expired claim"] asked by simp
  obtain g st1 where g: "?gate st0 = (g, st1)" by force
  have "quiet_turn c sent st0 (snd (?gate st0))"
    by (cases "intent_operation intent")
      (auto intro!: bindk_quiet refresh_turn_quiet [OF assms(2,3)] ask_store_quiet [OF assms(2)])
  then have st1: "quiet_turn c sent st st1" using quiet_turn_trans [OF st0] unfolding g by simp
  consider e where "r = Inl e" "st' = st0" | e where "r = Inl e" "st' = st1"
    | "claimed_handoff_steps w kit (env_sdk env) intent claim st1 = (r, st')"
  proof (cases expired)
    case (Inl e)
    then show ?thesis using that assms(1) asked
      by (auto simp: execute_claimed_handoff_with_guard_def map_errk_def map_err_def)
  next
    case (Inr b)
    with assms(1) have "(if b then (Inl FailureProposalExpired, st0)
        else bindk (?gate st0) (\<lambda>_ st. claimed_handoff_steps w kit (env_sdk env) intent claim st)) = (r, st')"
      by (simp add: execute_claimed_handoff_with_guard_def asked map_errk_def map_err_def)
    then show ?thesis using that unfolding g by (cases b; cases g) auto
  qed
  then show thesis
  proof cases
    case 3
    then show ?thesis
      using handoff_steps_effect [OF 3 [unfolded claimed_handoff_steps_def] assms(2,3)] stopped performed
        quiet_turn_trans [OF st1] by metis
  qed (use stopped st0 st1 in blast)+
qed

section \<open>Every turn of the worker keeps its deliveries bound\<close>

definition worker_bound ::
  "('r, 'd) env \<Rightarrow> ('p, 'd, 's) kit \<Rightarrow> ('s \<Rightarrow> string \<Rightarrow> ('p \<times> 'd sdk_terms \<times> u64 \<times> string) option) \<Rightarrow> uuid \<Rightarrow> string
     \<Rightarrow> 's \<Rightarrow> db \<Rightarrow> bool" where
  "worker_bound env kit sent c ch s d \<longleftrightarrow> distinct (map ob_id (db_outbox d)) \<and>
     map_option cr_lookup_hash (find_creator d c) = Some ch \<and> deliveries_bound env kit sent c ch s d"

lemma find_creator_keys: "creator_keys d' = creator_keys d \<Longrightarrow>
  map_option cr_lookup_hash (find_creator d' c) = map_option cr_lookup_hash (find_creator d c)"
proof -
  have "map_option cr_lookup_hash (find (\<lambda>x. cr_id x = c) xs) =
      map_option snd (find (\<lambda>x. fst x = c) (map (\<lambda>x. (cr_id x, cr_lookup_hash x)) xs))" for xs :: "creator_row list"
    by (induction xs) auto
  then show "creator_keys d' = creator_keys d \<Longrightarrow>
      map_option cr_lookup_hash (find_creator d' c) = map_option cr_lookup_hash (find_creator d c)"
    by (simp add: find_creator_def)
qed

lemma worker_bound_kept:
  assumes "worker_bound env kit sent c ch s d" "deliveries_kept c d d'" "sent s' = sent s"
  shows "worker_bound env kit sent c ch s' d'"
proof -
  have "creator_keys d' = creator_keys d" using assms(2) by (simp add: deliveries_kept_def)
  from find_creator_keys [OF this] show ?thesis
    using assms deliveries_bound_kept [of env kit sent c ch s d d' s'] by (simp add: worker_bound_def deliveries_kept_def)
qed

abbreviation turn_bound ::
  "('r, 'd) env \<Rightarrow> ('p, 'd, 's) kit \<Rightarrow> ('s \<Rightarrow> string \<Rightarrow> ('p \<times> 'd sdk_terms \<times> u64 \<times> string) option) \<Rightarrow> uuid \<Rightarrow> string
     \<Rightarrow> 's worker_state \<Rightarrow> bool" where
  "turn_bound env kit sent c ch st \<equiv> worker_bound env kit sent c ch (ws_kit st) (ws_db st)"

lemma turn_bound_quiet: "turn_bound env kit sent c ch st \<Longrightarrow> quiet_turn c sent st st' \<Longrightarrow> turn_bound env kit sent c ch st'"
  by (auto simp: quiet_turn_def intro: worker_bound_kept)

lemma claim_quiet_turn: "claim_of_row c ch claim (ws_db st) \<Longrightarrow> quiet_turn c sent st st' \<Longrightarrow> claim_of_row c ch claim (ws_db st')"
  by (auto simp: quiet_turn_def intro: claim_of_row_kept)

lemma reported_snd [simp]: "snd (reported health r) = snd r"
  by (auto simp: reported_def bindk_def split: prod.splits sum.splits)

lemma store_operations_quiet:
  assumes "others_only env c w"
  shows "quiet_turn c sent st (snd (run_store w (mark_permanently_failed pg claim) st))"
    and "quiet_turn c sent st (snd (run_store w (mark_proposal_expired pg claim) st))"
    and "quiet_turn c sent st (snd (run_store w (mark_retryable pg claim delay cls) st))"
    and "quiet_turn c sent st (snd (run_store w (mark_cancellation_obsolete claim) st))"
  by (rule run_store_quiet [OF assms], erule fail_quiet.quiet expire_quiet.quiet retry_quiet.quiet obsolete_quiet.quiet)+

lemma settle_handoff_bound:
  assumes w: "others_only env c w" and bound: "turn_bound env kit sent c ch st"
    and claim: "claim_of_row c ch claim (ws_db st)" and intent: "outbox_delivery_intent env claim = Inr intent"
    and made: "\<And>result terms. outcome = Inr result \<Longrightarrow> intent_operation intent = PaymentRequestProposal terms \<Longrightarrow> \<exists>p x m e.
      sent (ws_kit st) (uuid_hyphenated (env_sdk env) (co_id claim)) = Some (p, x, m, e) \<and>
      result = ProposalSent m e (uuid_hyphenated (env_sdk env) (co_id claim))"
  shows "turn_bound env kit sent c ch (snd (settle_handoff w pg claim schedule outcome st))"
proof (cases outcome)
  case (Inl failure)
  have "quiet_turn c sent st (snd (settle_handoff w pg claim schedule outcome st))"
    unfolding settle_handoff_def Inl
    by (cases failure) (simp_all add: store_operations_quiet [OF w] Let_def)
  then show ?thesis using bound turn_bound_quiet by blast
next
  case (Inr result)
  let ?st = "store_turn w st"
  note turn = store_turn_quiet [OF w, of sent st]
  have bound': "turn_bound env kit sent c ch ?st" by (rule turn_bound_quiet [OF bound turn])
  have same: "sent (ws_kit ?st) = sent (ws_kit st)" using turn by (simp add: quiet_turn_def)
  have "turn_bound env kit sent c ch (?st\<lparr>ws_db := d\<rparr>)"
    if "mark_handed_off claim result now (ws_db ?st) = Inr (b, d)" for now b d
  proof -
    have "deliveries_bound env kit sent c ch (ws_kit ?st) d"
      by (rule hand_off_bound [OF that _ _ claim_quiet_turn [OF claim turn] intent])
        (use bound' made [OF Inr] same in \<open>auto simp: worker_bound_def\<close>)
    moreover have "map ob_id (db_outbox d) = map ob_id (db_outbox (ws_db ?st))" "db_creators d = db_creators (ws_db ?st)"
      using hand_off.keeps_ids [OF _ that] hand_off.keeps_tables(3) [OF _ that] bound' by (auto simp: worker_bound_def)
    ultimately show ?thesis using bound' by (simp add: worker_bound_def find_creator_def)
  qed
  then show ?thesis using bound' by (auto simp: settle_handoff_def Inr run_store_def Let_def split: sum.splits)
qed

lemma execute_and_settle_bound:
  assumes w: "others_only env c w" "kit_bound kit sent" and bound: "turn_bound env kit sent c ch st"
    and claim: "claim_of_row c ch claim (ws_db st)" and intent: "outbox_delivery_intent env claim = Inr intent"
    and run: "execute_claimed_handoff_with_guard w kit env from_nanos app_id creator_id claim intent st = (outcome, st2)"
  shows "turn_bound env kit sent c ch (snd (settle_handoff w pg claim schedule outcome st2))"
  using run
proof (rule execute_handoff_effect [OF _ w])
  fix e
  assume stopped: "outcome = Inl e" "quiet_turn c sent st st2"
  show ?thesis
    by (rule settle_handoff_bound [OF w(1) turn_bound_quiet [OF bound stopped(2)] claim_quiet_turn [OF claim stopped(2)] intent])
      (simp add: stopped(1))
next
  fix st1 s'
  assume effect: "quiet_turn c sent st st1" "st2 = st1\<lparr>ws_kit := s'\<rparr>"
    "perform_handoff kit (env_sdk env) intent (uuid_hyphenated (env_sdk env) (co_id claim)) (ws_kit st1) = (outcome, s')"
  have here: "turn_bound env kit sent c ch st1" "claim_of_row c ch claim (ws_db st1)"
    using turn_bound_quiet [OF bound effect(1)] claim_quiet_turn [OF claim effect(1)] by auto
  have "deliveries_bound env kit sent c ch s' (ws_db st1)"
    by (rule perform_handoff_bound [OF w(2) _ here(2) intent effect(3)]) (use here(1) in \<open>simp add: worker_bound_def\<close>)
  then have "turn_bound env kit sent c ch st2" using here(1) by (simp add: worker_bound_def effect(2))
  moreover have "claim_of_row c ch claim (ws_db st2)" using here(2) by (simp add: effect(2))
  ultimately show ?thesis
    by (rule settle_handoff_bound [OF w(1) _ _ intent])
      (use performed_proposal [OF w(2)] effect(3) in \<open>auto simp: effect(2)\<close>)
qed

lemma process_claim_bound:
  assumes w: "others_only env c w" "kit_bound kit sent" and bound: "turn_bound env kit sent c ch st"
    and claim: "claim_of_row c ch claim (ws_db st)"
  shows "turn_bound env kit sent c ch (snd (process_claim w kit env from_nanos pg app_id claim schedule st))"
proof (cases "outbox_delivery_intent env claim")
  case (Inl e)
  then show ?thesis
    using turn_bound_quiet [OF bound store_operations_quiet(1) [OF w(1)]] by (simp add: process_claim_def process_claim_with_def)
next
  case intent: (Inr intent)
  show ?thesis
  proof (cases "delivery_expiration (env_sdk env) intent")
    case (Inl e)
    then show ?thesis using bound by (simp add: process_claim_def process_claim_with_def intent map_err_def)
  next
    case (Inr deadline)
    obtain q st1 where q: "(case deadline of None \<Rightarrow> (Inr False, st)
        | Some deadline \<Rightarrow> ask_store w (\<lambda>now _. proposal_expired deadline now) st) = (q, st1)" by force
    then have st1: "quiet_turn c sent st st1"
      using ask_store_quiet [OF w(1), of sent st "\<lambda>now _. proposal_expired (the deadline) now"] by (cases deadline) auto
    note here = turn_bound_quiet [OF bound st1] claim_quiet_turn [OF claim st1]
    obtain outcome st2 where
      run: "execute_claimed_handoff_with_guard w kit env from_nanos app_id (co_creator claim) claim intent st1 = (outcome, st2)" by force
    show ?thesis
      using here(1) turn_bound_quiet [OF here(1) store_operations_quiet(2) [OF w(1)]]
        execute_and_settle_bound [OF w here intent run]
      by (cases q) (auto simp: process_claim_def process_claim_with_def intent Inr map_err_def q run)
  qed
qed

lemma claimed_row_gate_quiet:
  assumes w: "others_only env c w"
  shows "quiet_turn c sent st (snd (claimed_row_gate w env pg claim st))"
proof -
  have "quiet_turn c sent st (snd (case ask_store w f st of
      (Inl e, st) \<Rightarrow> (Some (Inl e), st)
    | (Inr expired, st) \<Rightarrow>
        if expired then (\<lambda>(r, st). (Some r, st)) (reported HealthAvailable (run_store w (mark_proposal_expired pg claim) st))
        else (None, st)))" for f
    using ask_store_quiet [OF w, of sent st f] quiet_turn_trans [OF _ store_operations_quiet(2) [OF w]]
    by (auto simp: split_beta split: sum.splits)
  then show ?thesis
    using store_operations_quiet(1) [OF w, of sent st pg claim]
    by (simp add: claimed_row_gate_def split_beta Let_def split: sum.splits option.splits)
qed

lemma process_claimed_row_bound:
  assumes w: "others_only env c w" "kit_bound kit sent" and bound: "turn_bound env kit sent c ch st"
    and claim: "claim_of_row c ch claim (ws_db st)"
  shows "turn_bound env kit sent c ch (snd (snd (process_claimed_row w kit env from_nanos pg app_id adapter claim schedule st)))"
proof -
  obtain g st1 where g: "claimed_row_gate w env pg claim st = (g, st1)" by force
  have st1: "quiet_turn c sent st st1" using claimed_row_gate_quiet [OF w(1), of sent st pg claim] g by simp
  note here = turn_bound_quiet [OF bound st1] claim_quiet_turn [OF claim st1]
  consider r where "g = Some r" | "g = None" "adapter = Inr ()"
    | "g = None" "adapter = Inl AdapterBuildPermanent" | "g = None" "adapter = Inl AdapterBuildUnavailable"
    by (cases g; cases adapter; simp) (use adapter_build_error.exhaust in blast)
  then show ?thesis
    using here(1) process_claim_bound [OF w here, of from_nanos pg app_id schedule]
      turn_bound_quiet [OF here(1) store_operations_quiet(1) [OF w(1)]]
      turn_bound_quiet [OF here(1) store_operations_quiet(3) [OF w(1)]]
    by cases (simp_all add: process_claimed_row_def g split_beta)
qed

lemma claimed_for_creator:
  assumes "claim_for_creator pg tokens locked owner c lease now later d = Inr (Some claim, d')"
    and "worker_bound env kit sent c ch s d"
  shows "worker_bound env kit sent c ch s d'" "claim_of_row c ch claim d'"
proof -
  have dist: "distinct (map ob_id (db_outbox d))" using assms(2) by (simp add: worker_bound_def)
  from assms(1) obtain claims where claims: "claim_matching pg tokens locked owner 1 lease (Some c) now later d = Inr (claims, d')"
    "claim \<in> set claims" by (auto simp: claim_for_creator_def split: if_splits prod.splits)
  show bound: "worker_bound env kit sent c ch s d'"
    using worker_bound_kept [OF assms(2) deliveries_kept_quiet [OF claim_quiet.quiet [OF claims(1)]]] by simp
  show "claim_of_row c ch claim d'"
  proof (rule claim_matching_claims [OF dist claims])
    fix row secs expiry row' cr
    assume h: "row \<in> set (claim_candidates (claimable (Some c) now d) locked 1 d)"
      "row' = (lease_row owner (tokens (ob_id row)) expiry row)\<lparr>ob_status := ''leased''\<rparr>"
      "row' \<in> set (db_outbox d')" "find_creator d' (ob_creator row) = Some cr"
      "claim = \<lparr>co_id = ob_id row, co_creator = ob_creator row, co_invoice = ob_invoice row,
          co_attempt_count = ob_attempt_count row + 1, co_failure_count = ob_failure_count row,
          co_claim_token = tokens (ob_id row), co_creator_hash = cr_lookup_hash cr,
          co_intent_envelope = ob_intent_envelope row,
          co_payment_deadline = invoice_deadline d' (ob_invoice row)\<rparr>"
    have "ob_creator row = c" using candidates_eligible [OF h(1)] by (auto simp: claimable_def)
    then show ?thesis
      using h bound by (auto simp: claim_of_row_def lease_row_def worker_bound_def intro!: bexI [OF _ h(3)])
  qed
qed

lemma send_handed_off_quiet:
  assumes "others_only env c w" "kit_bound kit sent"
  shows "quiet_turn c sent st (snd (send_handed_off_with_guard w kit env creator claim st))"
proof -
  from assms(2) have "sent (snd (kit_process_outbound kit p s)) = sent s" for p s
    by (simp add: kit_bound_def kit_keeps_def)
  then have "quiet_turn c sent st (snd (on_kit (\<lambda>s. let (r, s) = kit_process_outbound kit p s
      in (map_err classify_sdk (bindr r check_send_report), s)) st))" for st p
    by (intro on_kit_quiet) (simp add: split_beta Let_def)
  then show ?thesis
    unfolding send_handed_off_with_guard_def
    by (auto intro!: bindk_quiet ask_store_quiet [OF assms(1)])
qed

lemma process_creator_outbox_bound:
  assumes w: "others_only env c w" "kit_bound kit sent" and bound: "turn_bound env kit sent c ch st"
  shows "turn_bound env kit sent c ch (snd (process_creator_outbox w kit env from_nanos pg tokens locked later cfg app_id
    fence unlocked adapter running still c st))"
proof (cases "fence = Inr () \<and> running")
  case False
  then show ?thesis using bound by (auto simp: process_creator_outbox_def split: sum.splits)
next
  case True
  let ?claim = "\<lambda>now. claim_for_creator pg tokens locked (wc_owner cfg) c (wc_lease cfg) now later"
  obtain q st1 where q: "run_store w ?claim st = (q, st1)" by force
  have "quiet_turn c sent st (snd (run_store w ?claim st))"
    by (rule run_store_quiet [OF w(1)]) (auto simp: claim_for_creator_def split: prod.splits intro: claim_quiet.quiet)
  then have st1: "turn_bound env kit sent c ch st1" using turn_bound_quiet [OF bound] q by simp
  have claimed: "claim_of_row c ch claim (ws_db st1)" if "q = Inr (Some claim)" for claim
  proof -
    have "turn_bound env kit sent c ch (store_turn w st)" by (rule turn_bound_quiet [OF bound store_turn_quiet [OF w(1)]])
    then show ?thesis
      using q that claimed_for_creator(2) by (fastforce simp: run_store_def Let_def split: sum.splits if_splits)
  qed
  note row = process_claimed_row_bound [OF w st1 claimed]
  show ?thesis
  proof (cases "\<exists>claim. q = Inr (Some claim)")
    case False
    then show ?thesis using st1 True by (auto simp: process_creator_outbox_def q split: sum.splits option.splits)
  next
    case True
    then obtain claim where claim: "q = Inr (Some claim)" by blast
    show ?thesis
      using st1 \<open>fence = Inr () \<and> running\<close> row [OF claim] turn_bound_quiet [OF row [OF claim] send_handed_off_quiet [OF w]]
      by (auto simp: process_creator_outbox_def q claim split_beta Let_def split: option.splits)
  qed
qed

section \<open>The run of the worker of a creator\<close>

text \<open>
  A turn of the worker of creator \<open>c\<close>: the outbox turn, the reconciliation of a handed-off delivery, the
  intake of the creator's payment requests or a pass of transport maintenance, each with the transactions of all other sessions and
  store failures between its accesses to the database.
\<close>

inductive worker_step :: "('r, 'd) env \<Rightarrow> ('p, 'd, 's) kit \<Rightarrow> uuid \<Rightarrow> 's worker_state \<Rightarrow> 's worker_state \<Rightarrow> bool"
  for env kit c where
  outbox: "others_only env c w \<Longrightarrow> process_creator_outbox w kit env from_nanos pg tokens locked later cfg app_id
    fence unlocked adapter running still c st = (answer, st') \<Longrightarrow> worker_step env kit c st st'"
| reconcile: "others_only env c w \<Longrightarrow> process_reconciliation_with_health w kit env pg handoff delay st = (report, st') \<Longrightarrow>
    worker_step env kit c st st'"
| intake: "others_only env c w \<Longrightarrow> refresh_turn w kit env from_nanos app_id c targets st = (outcome, st') \<Longrightarrow>
    worker_step env kit c st st'"
| transport: "on_kit (maintain_transport kit) st = (maintained, st') \<Longrightarrow> worker_step env kit c st st'"

lemma reconciliations_quiet:
  assumes "others_only env c w"
  shows "quiet_turn c sent st (snd (run_store w (mark_reconciliation_permanently_failed pg handoff) st))"
    and "quiet_turn c sent st (snd (run_store w (mark_delivered pg handoff) st))"
    and "quiet_turn c sent st (snd (run_store w (retry_reconciliation pg handoff delay cls) st))"
    and "quiet_turn c sent st (snd (retry_reconciliation_after_failure w pg handoff delay expiration cls st))"
proof -
  show "quiet_turn c sent st (snd (run_store w (mark_reconciliation_permanently_failed pg handoff) st))" for st
    by (rule run_store_quiet [OF assms], erule reconcile_fail_quiet.quiet)
  show "quiet_turn c sent st (snd (run_store w (mark_delivered pg handoff) st))" for st
    by (rule run_store_quiet [OF assms], erule deliver_quiet.quiet)
  show retry: "quiet_turn c sent st (snd (run_store w (retry_reconciliation pg handoff delay cls) st))" for st cls
    by (rule run_store_quiet [OF assms], erule reconcile_retry_quiet.quiet)
  show "quiet_turn c sent st (snd (retry_reconciliation_after_failure w pg handoff delay expiration cls st))"
    unfolding retry_reconciliation_after_failure_def
    by (rule bindk_quiet) (use ask_store_quiet [OF assms] in \<open>auto split: option.splits intro: retry\<close>)
qed

lemma reconciliation_quiet:
  assumes "others_only env c w" "kit_bound kit sent"
  shows "quiet_turn c sent st (snd (process_reconciliation_with_health w kit env pg handoff delay st))"
proof -
  note keeps = assms(2) [unfolded kit_bound_def kit_keeps_def]
  have status: "sent (snd (adapter_outbound_status kit m s)) = sent s" for m s
    unfolding adapter_outbound_status_def
    by (intro bindk_sent) (use keeps in \<open>auto split: option.splits intro!: bindk_sent\<close>)
  have asked: "quiet_turn c sent st (snd (on_kit (adapter_outbound_status kit m) st))" for m
    by (rule on_kit_quiet [where call = "adapter_outbound_status kit m"]) (rule status)
  note after = quiet_turn_trans [OF asked reconciliations_quiet(1) [OF assms(1)]]
    quiet_turn_trans [OF asked reconciliations_quiet(2) [OF assms(1)]]
    quiet_turn_trans [OF asked reconciliations_quiet(4) [OF assms(1)]]
  show ?thesis
    by (simp add: process_reconciliation_with_health_def Let_def split_beta after reconciliations_quiet [OF assms(1)]
        split: sum.splits option.splits handoff_error.splits outbound_status.splits)
qed

lemma maintain_transport_sent:
  assumes "kit_bound kit sent"
  shows "sent (snd (maintain_transport kit s)) = sent s"
proof -
  note keeps = assms [unfolded kit_bound_def kit_keeps_def]
  have each: "sent (snd (send_each kit peers s)) = sent s" "sent (snd (receive_each kit peers s)) = sent s" for peers s
    using keeps by (induction peers arbitrary: s) (simp_all add: split_beta Let_def)
  have "sent (snd (maintain_outbound_transport kit s)) = sent s" for s
    using keeps each(1) by (auto simp: maintain_outbound_transport_def split_beta Let_def split: sum.splits)
  then show ?thesis
    unfolding maintain_transport_def by (intro bindk_sent) (use keeps each(2) in \<open>auto simp: split_beta Let_def\<close>)
qed

lemma worker_step_bound:
  assumes "worker_step env kit c st st'" "kit_bound kit sent" "turn_bound env kit sent c ch st"
  shows "turn_bound env kit sent c ch st'"
  using assms(1)
proof cases
  case (outbox w from_nanos pg tokens locked later cfg app_id fence unlocked adapter running still answer)
  then show ?thesis
    using process_creator_outbox_bound [OF outbox(1) assms(2,3), of from_nanos pg tokens locked later cfg app_id fence unlocked
        adapter running still] by simp
next
  case (reconcile w pg handoff delay report)
  then show ?thesis
    using turn_bound_quiet [OF assms(3) reconciliation_quiet [OF reconcile(1) assms(2), of st pg handoff delay]] by simp
next
  case (intake w from_nanos app_id targets outcome)
  then show ?thesis
    using turn_bound_quiet [OF assms(3) refresh_turn_quiet [OF intake(1) assms(2), of st from_nanos app_id c targets]] by simp
next
  case (transport maintained)
  then show ?thesis
    using turn_bound_quiet [OF assms(3) on_kit_quiet [of sent "maintain_transport kit" st c, OF maintain_transport_sent [OF assms(2)]]]
    by simp
qed

lemma worker_run_bound:
  assumes "(worker_step env kit c)\<^sup>*\<^sup>* st st'" "kit_bound kit sent" "turn_bound env kit sent c ch st"
  shows "turn_bound env kit sent c ch st'"
  using assms by (induction rule: rtranclp_induct) (auto intro: worker_step_bound)

definition fresh_worker ::
  "('s \<Rightarrow> string \<Rightarrow> ('p \<times> 'd sdk_terms \<times> u64 \<times> string) option) \<Rightarrow> uuid \<Rightarrow> string \<Rightarrow> 's worker_state \<Rightarrow> bool" where
  "fresh_worker sent c ch st \<longleftrightarrow> distinct (map ob_id (db_outbox (ws_db st))) \<and>
     map_option cr_lookup_hash (find_creator (ws_db st) c) = Some ch \<and> sent (ws_kit st) = (\<lambda>_. None) \<and>
     (\<forall>row \<in> set (db_outbox (ws_db st)). ob_creator row = c \<longrightarrow> ob_sdk_payment_request_id row = None)"

lemma fresh_worker_bound: "fresh_worker sent c ch st \<Longrightarrow> turn_bound env kit sent c ch st"
  by (auto simp: fresh_worker_def worker_bound_def deliveries_bound_def)

lemma bound_row_own_entry:
  assumes "worker_bound env kit sent c ch s d" "inj (uuid_hyphenated (env_sdk env))"
    and row: "row \<in> set (db_outbox d)" "row_proposal env ch row intent terms"
    and entry: "sent s (uuid_hyphenated (env_sdk env) (ob_id row)) = Some (p, x, m, e)"
  shows "kit_peer kit (intent_reader_pubky intent) = Some p \<and> to_sdk (env_sdk env) terms = Inr x"
proof -
  have dist: "distinct (map ob_id (db_outbox d))" and "deliveries_bound env kit sent c ch s d"
    using assms(1) by (auto simp: worker_bound_def)
  from deliveries_bound_entry [OF this(2) entry] obtain own intent' terms' where
    own: "own \<in> set (db_outbox d)" "uuid_hyphenated (env_sdk env) (ob_id row) = uuid_hyphenated (env_sdk env) (ob_id own)"
      "row_proposal env ch own intent' terms'"
      "kit_peer kit (intent_reader_pubky intent') = Some p" "to_sdk (env_sdk env) terms' = Inr x" by metis
  then have "own = row" using row_by_id [OF dist own(1) row(1)] assms(2) by (simp add: inj_eq)
  with own row(2) show ?thesis by (auto simp: row_proposal_def)
qed

text \<open>C31: Whatever the other sessions do between its accesses to the store, and wherever it fails or
  stops, a proposal the worker of a creator has marked as handed off is held by the payment kit under
  the outbox row's own identifier, with exactly the recipient and the terms sealed in that row, and the
  row holds the message and event identifiers of that very proposal.\<close>

theorem handed_off_proposal_bound:
  assumes "fresh_worker sent c ch st" "kit_bound kit sent" "(worker_step env kit c)\<^sup>*\<^sup>* st st'"
    and "inj (uuid_hyphenated (env_sdk env))"
    and row: "row \<in> set (db_outbox (ws_db st'))" "ob_creator row = c" "row_proposal env ch row intent terms"
    and "ob_sdk_payment_request_id row = Some request"
  shows "request = uuid_hyphenated (env_sdk env) (ob_id row) \<and>
    (\<exists>p x m e. sent (ws_kit st') request = Some (p, x, m, e) \<and> kit_peer kit (intent_reader_pubky intent) = Some p \<and>
      to_sdk (env_sdk env) terms = Inr x \<and> ob_sdk_event_id row = Some e \<and>
      ob_sdk_outbound_message_id row = Some (dec_show (unat m)))"
proof -
  have bound: "turn_bound env kit sent c ch st'"
    by (rule worker_run_bound [OF assms(3,2) fresh_worker_bound [OF assms(1)]])
  then have "deliveries_bound env kit sent c ch (ws_kit st') (ws_db st')" by (simp add: worker_bound_def)
  from deliveries_bound_row [OF this row(1,2) assms(8) row(3)] bound_row_own_entry [OF bound assms(4) row(1,3)]
  show ?thesis by metis
qed

text \<open>C32: Nothing is proposed that no row asks for: every proposal the payment kit ever holds for a creator
  is identified by exactly one outbox row of that creator and carries the recipient and the terms sealed
  there, in every interleaving with retries and failures.\<close>

theorem proposals_sent_once:
  assumes "fresh_worker sent c ch st" "kit_bound kit sent" "(worker_step env kit c)\<^sup>*\<^sup>* st st'"
    and "inj (uuid_hyphenated (env_sdk env))" "sent (ws_kit st') i = Some (p, x, m, e)"
  shows "\<exists>!row. row \<in> set (db_outbox (ws_db st')) \<and> ob_creator row = c \<and> i = uuid_hyphenated (env_sdk env) (ob_id row) \<and>
    (\<exists>intent terms. row_proposal env ch row intent terms \<and> kit_peer kit (intent_reader_pubky intent) = Some p \<and>
      to_sdk (env_sdk env) terms = Inr x)"
proof -
  have "turn_bound env kit sent c ch st'"
    by (rule worker_run_bound [OF assms(3,2) fresh_worker_bound [OF assms(1)]])
  then have dist: "distinct (map ob_id (db_outbox (ws_db st')))" and "deliveries_bound env kit sent c ch (ws_kit st') (ws_db st')"
    by (auto simp: worker_bound_def)
  from deliveries_bound_entry [OF this(2) assms(5)] obtain row intent terms where
    row: "row \<in> set (db_outbox (ws_db st'))" "ob_creator row = c" "i = uuid_hyphenated (env_sdk env) (ob_id row)"
      "row_proposal env ch row intent terms" "kit_peer kit (intent_reader_pubky intent) = Some p" "to_sdk (env_sdk env) terms = Inr x"
    by metis
  moreover have "other = row" if "other \<in> set (db_outbox (ws_db st'))" "i = uuid_hyphenated (env_sdk env) (ob_id other)" for other
    using row_by_id [OF dist that(1) row(1)] row(3) that(2) assms(4) by (simp add: inj_eq)
  ultimately show ?thesis by blast
qed

section \<open>A concrete hand-off\<close>

text \<open>A kit that holds its proposals in a map, with one message for all.\<close>

type_synonym example_proposals = "string \<Rightarrow> (string \<times> string sdk_terms \<times> u64 \<times> string) option"

definition proposed_record :: "string \<Rightarrow> string \<Rightarrow> (string, string) request_record" where
  "proposed_record p i = \<lparr>rr_counterparty = p, rr_payment_request_id = i, rr_local_role = Some RolePayee,
     rr_proposal_app_id = Some paykit_app_id, rr_terms = None, rr_state = KnownState Proposed, rr_proposal_event_id = Some ''event'',
     rr_accepted_event_id = None, rr_rejected_event_id = None, rr_canceled_event_id = None, rr_payment_proofs = [],
     rr_last_stream_item_id = None, rr_proposal_outbound_message_id = Some 5, rr_last_outbound_message_id = Some 5,
     rr_last_event_at = None\<rparr>"

definition example_kit :: "(string, string, example_proposals) kit" where
  "example_kit = \<lparr>kit_peer = Some, kit_peer_str = id, kit_receive = (\<lambda>_ s. (Inr (), s)), kit_receive_linked = (\<lambda>s. (Inr [], s)),
     kit_payment_requests = (\<lambda>s. (Inr [], s)),
     kit_registry = (\<lambda>_ s. (Inr (Some \<lparr>reg_noise_public_key = Some ''key'', reg_apps = [(''app'', \<lparr>cap_private_payments = True,
       cap_payment_requests = True, cap_receipts = True, cap_outgoing_payments = True\<rparr>)]\<rparr>), s)),
     kit_authorization = (\<lambda>_ s. (Inr (), s)), kit_ensure_link = (\<lambda>_ s. (Inr PeerLinked, s)),
     kit_propose = (\<lambda>p i x s. case s i of
         None \<Rightarrow> (Inr (proposed_record p i), s(i \<mapsto> (p, x, 5, ''event'')))
       | Some y \<Rightarrow> if y = (p, x, 5, ''event'') then (Inr (proposed_record p i), s) else (Inl SdkPolicy, s)),
     kit_cancel = (\<lambda>_ _ s. (Inl SdkNotFound, s)), kit_outbound = (\<lambda>s. (Inr [], s)),
     kit_process_outbound = (\<lambda>_ s. (Inr \<lparr>sr_sent = [], sr_failed = 0, sr_reservation_cleanup_failures = 0,
       sr_recovery_marker_failures = 0\<rparr>, s)),
     kit_linked_peers = (\<lambda>s. (Inr [], s)), kit_pending_outbound = (\<lambda>s. (Inr [], s))\<rparr>"

lemma example_kit_bound: "kit_bound example_kit id"
  by (auto simp: kit_bound_def kit_keeps_def example_kit_def proposed_record_def split: option.splits if_splits)

definition handoff_sdk :: "(string, string) sdk" where
  "handoff_sdk = example_sdk\<lparr>uuid_hyphenated := (\<lambda>i. if i = 7 then ''ref'' else dec_show (unat i))\<rparr>"

definition handoff_env :: "(string, string) env" where
  "handoff_env = example_env\<lparr>env_sdk := handoff_sdk\<rparr>"

lemma handoff_env_fields [simp]: "env_sdk handoff_env = handoff_sdk" "env_crypto handoff_env = example_crypto"
  "intent_to_bytes handoff_env = intent_to_bytes example_env"
  by (simp_all add: handoff_env_def)

lemma handoff_sdk_inj: "inj (uuid_hyphenated handoff_sdk)"
proof -
  have "\<not> all_digits ''ref''" by (simp add: all_digits_def is_ascii_digit_def)
  then have ref: "dec_show n \<noteq> ''ref''" "''ref'' \<noteq> dec_show n" for n using all_digits_dec_show by metis+
  show ?thesis by (auto simp: inj_def handoff_sdk_def ref intro: unsigned_word_eqI)
qed

lemma handoff_intent:
  "intent_validate handoff_sdk example_dated = Inr ()"
  "intent_proposal_expires_at handoff_sdk example_dated = Inr (Some 1000000000)"
  "delivery_expiration handoff_sdk example_dated = Inr (Some 1000000000)"
proof -
  show "intent_validate handoff_sdk example_dated = Inr ()"
    by (simp add: intent_validate_def example_dated_def example_quote_intent_def handoff_sdk_def example_sdk_def validate_terms_def
        to_sdk_def paykit_app_id_def parse_reader_def parse_canonical_def del: decimal_amount.simps)
  show expires: "intent_proposal_expires_at handoff_sdk example_dated = Inr (Some 1000000000)"
    by (simp add: intent_proposal_expires_at_def example_dated_def handoff_sdk_def example_sdk_def
        del: decimal_amount.simps bindr_eq_Inr)
  have "\<exists>terms. intent_operation example_dated = PaymentRequestProposal terms"
    by (simp add: example_dated_def del: decimal_amount.simps)
  then show "delivery_expiration handoff_sdk example_dated = Inr (Some 1000000000)"
    using expires by (auto simp: delivery_expiration_def)
qed

lemma handoff_terms:
  obtains terms x where "intent_operation example_dated = PaymentRequestProposal terms" "to_sdk handoff_sdk terms = Inr x"
proof -
  obtain terms where terms: "intent_operation example_dated = PaymentRequestProposal terms"
    by (simp add: example_dated_def del: decimal_amount.simps)
  moreover have "\<exists>x. to_sdk handoff_sdk terms = Inr x"
    using terms unfolding example_dated_def
    by (auto simp: handoff_sdk_def example_sdk_def to_sdk_def simp del: decimal_amount.simps bindr_eq_Inr)
  ultimately show thesis using that by blast
qed

lemma handoff_sealed:
  obtains envelope where "decrypt_delivery_intent handoff_env 13 (hash_of handoff_env ''creator'') envelope = Inr example_dated"
proof -
  let ?ctx = "ctx_outbox_semantic_intent (hash_of handoff_env ''creator'') 13" and ?n = "fr_outbox_nonce example_fresh"
  obtain envelope where "seal_column handoff_env ?n ?ctx (intent_to_bytes handoff_env example_dated) = Inr envelope"
    using example_seal [of ?n ?ctx "''i''"] by (auto simp: seal_column_def)
  moreover have "codecs_ok handoff_env" using example_env_ok(2) by (simp add: codecs_ok_def handoff_env_def)
  moreover have "length ?n = nonce_length" using example_env_ok(4) by (simp add: nonces_ok_def)
  ultimately have "bindr (open_column handoff_env ?ctx envelope) (decode_intent handoff_env) = Inr example_dated"
    using decode_sealed_intent [of handoff_env ?n ?ctx example_dated envelope] example_env_ok(1) handoff_intent(1) by simp
  moreover have "lookup_hash_from_storage CorruptOrMissing (hash_of handoff_env ''creator'') = Inr (hash_of handoff_env ''creator'')"
    using example_hash_length by (simp add: lookup_hash_from_storage_def)
  ultimately show thesis using that by (simp add: decrypt_delivery_intent_def del: bindr_eq_Inr)
qed

definition example_world :: world where
  "example_world = \<lparr>w_clock = (\<lambda>_. 0), w_drift = (\<lambda>_ d. d), w_down = (\<lambda>_. False)\<rparr>"

lemma example_world_others: "others_only handoff_env 1 example_world"
  by (simp add: others_only_def example_world_def)

definition example_config :: worker_config where
  "example_config = \<lparr>wc_owner = 77, wc_lease = minute, wc_retry_initial = minute, wc_retry_max = minute, wc_rapid_attempts = 1,
     wc_rapid_interval = minute\<rparr>"

definition handoff_start :: "string \<Rightarrow> example_proposals worker_state" where
  "handoff_start envelope = \<lparr>ws_kit = (\<lambda>_. None), ws_db = example_open envelope, ws_turn = 0\<rparr>"

definition handoff_claim :: "string \<Rightarrow> claimed_outbox" where
  "handoff_claim envelope = \<lparr>co_id = 13, co_creator = 1, co_invoice = Some 12, co_attempt_count = 1, co_failure_count = 0,
     co_claim_token = 113, co_creator_hash = hash_of handoff_env ''creator'', co_intent_envelope = envelope,
     co_payment_deadline = Some 2000000000\<rparr>"

abbreviation leased_row :: "string \<Rightarrow> outbox_row" where
  "leased_row envelope \<equiv> (lease_row 77 113 60000000000 (queued_proposal 13 1 12 envelope
     (payment_request_proposal_lookup_hash example_crypto ''ref'') 0))\<lparr>ob_status := ''leased''\<rparr>"

lemma example_open_fields [simp]:
  "db_outbox (example_open envelope) = [queued_proposal 13 1 12 envelope (payment_request_proposal_lookup_hash example_crypto ''ref'') 0]"
  "db_invoices (example_open envelope) = [example_invoice]"
  "db_creators (example_open envelope) = db_creators example_db"
  "db_provider_v2 (example_open envelope) = []"
  by (simp_all add: example_open_def example_db_def)

lemma handoff_claimed:
  "claim_for_creator exact_add (\<lambda>i. i + 100) (\<lambda>_. False) 77 1 minute 0 0 (example_open envelope) =
     Inr (Some (handoff_claim envelope), (example_open envelope)\<lparr>db_outbox := [leased_row envelope]\<rparr>)"
proof -
  let ?d = "example_open envelope"
  let ?row = "queued_proposal 13 1 12 envelope (payment_request_proposal_lookup_hash example_crypto ''ref'') 0"
  have cand: "claim_candidates (claimable (Some 1) 0 ?d) (\<lambda>_. False) 1 ?d = [?row]"
    by (simp add: claim_candidates_def claimable_def row_due_def proposal_open_def generation_open_def)
      (simp add: queued_proposal_def example_invoice_def example_open_def)
  have "claimed_of (?d\<lparr>db_outbox := [leased_row envelope]\<rparr>) (leased_row envelope) = Inr (handoff_claim envelope)"
    by (simp add: claimed_of_def lease_row_def find_creator_def example_db_def handoff_claim_def queued_proposal_def
        invoice_deadline_def find_invoice_def example_invoice_def)
  moreover have "lease_candidates exact_add (\<lambda>i. i + 100) 77 60 0 (\<lambda>row. row\<lparr>ob_status := ''leased''\<rparr>) [?row] ?d =
      Inr ([leased_row envelope], ?d\<lparr>db_outbox := [leased_row envelope]\<rparr>)"
    by (simp add: lease_candidates_def i32_max_def lease_row_def queued_proposal_def)
  moreover have "lease_seconds minute = Inr 60" by (simp add: lease_seconds_def i64_try_from_def i64_max_def)
  ultimately show ?thesis by (simp add: claim_for_creator_def claim_matching_claimable cand del: bindr_eq_Inr)
qed

abbreviation at_turn :: "nat \<Rightarrow> example_proposals \<Rightarrow> db \<Rightarrow> example_proposals worker_state" where
  "at_turn n s d \<equiv> \<lparr>ws_kit = s, ws_db = d, ws_turn = n\<rparr>"

lemma example_store [simp]:
  "ask_store example_world f (at_turn n s d) = (Inr (f 0 d), at_turn (Suc n) s d)"
  "op 0 d = Inr (x, d') \<Longrightarrow> run_store example_world op (at_turn n s d) = (Inr x, at_turn (Suc n) s d')"
  by (simp_all add: ask_store_def run_store_def store_turn_def example_world_def)

abbreviation leased_db :: "string \<Rightarrow> db" where
  "leased_db envelope \<equiv> (example_open envelope)\<lparr>db_outbox := [leased_row envelope]\<rparr>"

lemma handoff_open:
  "claim_handoff_eligible (handoff_claim envelope) 0 (leased_db envelope)"
  "\<not> provider_v2_deadline_expired (handoff_claim envelope) 0 (leased_db envelope)"
  by (simp_all add: claim_handoff_eligible_def provider_v2_deadline_expired_def handoff_claim_def live_claim_def lease_row_def
      queued_proposal_def proposal_open_def generation_open_def example_invoice_def example_open_def is_provider_v2_def example_db_def)

lemma handoff_reader: "intent_reader_pubky example_dated = ''pubkyreader''"
  by (simp add: example_dated_def example_quote_intent_def)

lemma handoff_prepared:
  "prepare_handoff example_world example_kit handoff_sdk 13 example_dated (Some (handoff_claim envelope))
     (at_turn n s (leased_db envelope)) = (Inr ''13'', at_turn (n + 8) s (leased_db envelope))"
proof -
  have checked: "check_claim example_world (Some (handoff_claim envelope)) (Some 1000000000) (at_turn n s (leased_db envelope)) =
      (Inr (), at_turn (Suc (Suc n)) s (leased_db envelope))" for n
    by (simp add: check_claim_def handoff_open proposal_expired_def map_errk_def map_err_def)
  have kit: "on_kit (fetch_registry example_kit r) (at_turn n s d) = (Inr (Some \<lparr>reg_noise_public_key = Some ''key'',
        reg_apps = [(''app'', \<lparr>cap_private_payments = True, cap_payment_requests = True, cap_receipts = True,
        cap_outgoing_payments = True\<rparr>)]\<rparr>), at_turn n s d)"
    "on_kit (fetch_authorization example_kit r) (at_turn n s d) = (Inr AuthorizationVerified, at_turn n s d)"
    "on_kit (ensure_link_with_peer example_kit r) (at_turn n s d) = (Inr (), at_turn n s d)" for n r d
    by (simp_all add: on_kit_def fetch_registry_def fetch_authorization_def ensure_link_with_peer_def parse_peer_def
        example_kit_def map_errk_def map_err_def handoff_reader_authorization_def require_linked_def)
  have "payment_request_id_ok handoff_sdk i" "uuid_hyphenated handoff_sdk 13 = ''13''" for i
    by (simp_all add: handoff_sdk_def example_sdk_def dec_show.simps)
  then show ?thesis
    by (simp add: prepare_handoff_def handoff_intent checked kit map_errk_def map_err_def reader_is_capable_def
        authorization_result_def)
qed

lemma handoff_performed:
  assumes "intent_operation example_dated = PaymentRequestProposal terms" "to_sdk handoff_sdk terms = Inr x"
  shows "perform_handoff example_kit handoff_sdk example_dated ''13'' (\<lambda>_. None) =
    (Inr (ProposalSent 5 ''event'' ''13''), [''13'' \<mapsto> (''pubkyreader'', x, 5, ''event'')])"
  by (simp add: perform_handoff_def assms propose_payment_request_def parse_peer_def handoff_reader example_kit_def
      proposed_record_def map_errk_def map_err_def)

definition handed_off_row :: "string \<Rightarrow> outbox_row" where
  "handed_off_row envelope = release ((leased_row envelope)\<lparr>ob_status := ''handed_off'', ob_sdk_outbound_message_id := Some ''5'',
     ob_sdk_event_id := Some ''event'', ob_sdk_payment_request_id := Some ''13'', ob_error_class := None, ob_failure_count := 0\<rparr>)"

lemma handed_off_row_fields [simp]:
  "ob_id (handed_off_row envelope) = 13" "ob_creator (handed_off_row envelope) = 1"
  "ob_intent_envelope (handed_off_row envelope) = envelope" "ob_sdk_payment_request_id (handed_off_row envelope) = Some ''13''"
  by (simp_all add: handed_off_row_def release_def lease_row_def queued_proposal_def)

lemma handoff_marked:
  "mark_handed_off (handoff_claim envelope) (ProposalSent 5 ''event'' ''13'') 0 (leased_db envelope) =
     Inr (True, (example_open envelope)\<lparr>db_outbox := [handed_off_row envelope]\<rparr>)"
  by (simp add: mark_handed_off_def transition_fence_def handoff_claim_def live_claim_def lease_row_def queued_proposal_def
      handed_off_row_def release_def request_identity_ok_def dec_show.simps Let_def)

lemma handoff_processed:
  assumes opened: "decrypt_delivery_intent handoff_env 13 (hash_of handoff_env ''creator'') envelope = Inr example_dated"
    and terms: "intent_operation example_dated = PaymentRequestProposal terms" "to_sdk handoff_sdk terms = Inr x"
  shows "process_claim example_world example_kit handoff_env Some exact_add paykit_app_id (handoff_claim envelope) schedule
      (at_turn n (\<lambda>_. None) (leased_db envelope)) =
    (Inr (True, HealthAvailable), at_turn (n + 11) [''13'' \<mapsto> (''pubkyreader'', x, 5, ''event'')]
      ((example_open envelope)\<lparr>db_outbox := [handed_off_row envelope]\<rparr>))"
proof -
  have intent: "outbox_delivery_intent handoff_env (handoff_claim envelope) = Inr example_dated"
    using opened by (simp add: outbox_delivery_intent_def handoff_claim_def)
  have "co_id (handoff_claim envelope) = 13" by (simp add: handoff_claim_def)
  then have "execute_claimed_handoff_with_guard example_world example_kit handoff_env Some paykit_app_id
      (co_creator (handoff_claim envelope)) (handoff_claim envelope) example_dated (at_turn m (\<lambda>_. None) (leased_db envelope)) =
    (Inr (ProposalSent 5 ''event'' ''13''), at_turn (m + 9) [''13'' \<mapsto> (''pubkyreader'', x, 5, ''event'')] (leased_db envelope))" for m
    by (simp add: execute_claimed_handoff_with_guard_def handoff_open claimed_handoff_steps_def handoff_steps_with_claim_def
        handoff_prepared handoff_performed [OF terms] on_kit_def terms(1) map_errk_def map_err_def)
  then show ?thesis
    by (simp add: process_claim_def process_claim_with_def intent handoff_intent proposal_expired_def settle_handoff_def
        handoff_marked reported_def map_err_def)
qed

lemma handoff_run:
  assumes opened: "decrypt_delivery_intent handoff_env 13 (hash_of handoff_env ''creator'') envelope = Inr example_dated"
    and terms: "intent_operation example_dated = PaymentRequestProposal terms" "to_sdk handoff_sdk terms = Inr x"
  shows "worker_step handoff_env example_kit 1 (handoff_start envelope)
    (at_turn 13 [''13'' \<mapsto> (''pubkyreader'', x, 5, ''event'')] ((example_open envelope)\<lparr>db_outbox := [handed_off_row envelope]\<rparr>))"
proof (rule worker_step.outbox [OF example_world_others])
  have intent: "outbox_delivery_intent handoff_env (handoff_claim envelope) = Inr example_dated"
    using opened by (simp add: outbox_delivery_intent_def handoff_claim_def)
  have gate: "claimed_row_gate example_world handoff_env exact_add (handoff_claim envelope) (at_turn n s d) =
      (None, at_turn (Suc n) s d)" for n s d
    by (simp add: claimed_row_gate_def intent handoff_intent proposal_expired_def)
  have "\<exists>schedule. outbox_retry_schedule minute minute 1 minute (co_attempt_count (handoff_claim envelope))
      (co_failure_count (handoff_claim envelope)) = Some schedule"
    by (simp add: outbox_retry_schedule_def i32_max_def)
  then obtain schedule where "outbox_retry_schedule minute minute 1 minute (co_attempt_count (handoff_claim envelope))
      (co_failure_count (handoff_claim envelope)) = Some schedule" ..
  then show "process_creator_outbox example_world example_kit handoff_env Some exact_add (\<lambda>i. i + 100) (\<lambda>_. False) 0 example_config
      paykit_app_id (Inr ()) (Inr ()) (Inr ()) True False 1 (handoff_start envelope) =
    (Some (Inr (Some (True, HealthAvailable))), at_turn 13 [''13'' \<mapsto> (''pubkyreader'', x, 5, ''event'')]
      ((example_open envelope)\<lparr>db_outbox := [handed_off_row envelope]\<rparr>))"
    by (simp add: process_creator_outbox_def handoff_start_def example_config_def handoff_claimed process_claimed_row_def gate
        handoff_processed [OF assms])
qed

lemma handoff_fresh: "fresh_worker id 1 (hash_of handoff_env ''creator'') (handoff_start envelope)"
  by (simp add: fresh_worker_def handoff_start_def find_creator_def example_db_def queued_proposal_def)

theorem handed_off_proposal_bound_witness:
  "\<exists>envelope st' row terms x. (worker_step handoff_env example_kit 1)\<^sup>*\<^sup>* (handoff_start envelope) st' \<and>
     row \<in> set (db_outbox (ws_db st')) \<and> intent_operation example_dated = PaymentRequestProposal terms \<and>
     to_sdk handoff_sdk terms = Inr x \<and> ws_kit st' ''13'' = Some (''pubkyreader'', x, 5, ''event'') \<and>
     ob_sdk_event_id row = Some ''event''"
proof -
  obtain envelope where e: "decrypt_delivery_intent handoff_env 13 (hash_of handoff_env ''creator'') envelope = Inr example_dated"
    by (rule handoff_sealed)
  obtain terms x where terms: "intent_operation example_dated = PaymentRequestProposal terms" "to_sdk handoff_sdk terms = Inr x"
    by (rule handoff_terms)
  let ?st = "at_turn 13 [''13'' \<mapsto> (''pubkyreader'', x, 5, ''event'')] ((example_open envelope)\<lparr>db_outbox := [handed_off_row envelope]\<rparr>)"
  have run: "(worker_step handoff_env example_kit 1)\<^sup>*\<^sup>* (handoff_start envelope) ?st" using handoff_run [OF e terms] by blast
  have "row_proposal handoff_env (hash_of handoff_env ''creator'') (handed_off_row envelope) example_dated terms"
    using e terms(1) by (simp add: row_proposal_def)
  from handed_off_proposal_bound [OF handoff_fresh example_kit_bound run _ _ _ this, of "''13''"]
  have "ob_sdk_event_id (handed_off_row envelope) = Some ''event''" by (simp add: handoff_sdk_inj)
  with run terms show ?thesis by (intro exI [of _ envelope] exI [of _ ?st] exI [of _ "handed_off_row envelope"]) auto
qed

theorem proposals_sent_once_witness:
  "\<exists>envelope st' row. (worker_step handoff_env example_kit 1)\<^sup>*\<^sup>* (handoff_start envelope) st' \<and> ws_kit st' ''13'' \<noteq> None \<and>
     row \<in> set (db_outbox (ws_db st')) \<and> ob_creator row = 1"
proof -
  obtain envelope where e: "decrypt_delivery_intent handoff_env 13 (hash_of handoff_env ''creator'') envelope = Inr example_dated"
    by (rule handoff_sealed)
  obtain terms x where terms: "intent_operation example_dated = PaymentRequestProposal terms" "to_sdk handoff_sdk terms = Inr x"
    by (rule handoff_terms)
  let ?st = "at_turn 13 [''13'' \<mapsto> (''pubkyreader'', x, 5, ''event'')] ((example_open envelope)\<lparr>db_outbox := [handed_off_row envelope]\<rparr>)"
  have run: "(worker_step handoff_env example_kit 1)\<^sup>*\<^sup>* (handoff_start envelope) ?st" using handoff_run [OF e terms] by blast
  from proposals_sent_once [OF handoff_fresh example_kit_bound run, of "''13''" "''pubkyreader''" x 5 "''event''"] handoff_sdk_inj
  obtain row where "row \<in> set (db_outbox (ws_db ?st))" "ob_creator row = 1" by auto
  with run show ?thesis by (intro exI [of _ envelope] exI [of _ ?st] exI [of _ row]) auto
qed

end
