(* ===== verification/Worker_Scheduling.thy ===== *)
theory Worker_Scheduling
  imports Paykit_Adapter "HOL-Library.Option_ord" "HOL-Library.Multiset"
begin

text \<open>
  Scheduling and readiness of the process: the component states and the capacity of the runtime
  (runtime.rs), the bounded tasks of the creators (workers/creator_tasks.rs), the turns of the
  creators (IntakeTurns of paykit/allowances.rs), and the loops of server.rs that start the passes of
  the allowance intake, of the lifecycle reconciliation and of transport maintenance, with the
  readiness they publish.
\<close>

section \<open>Component states\<close>

datatype component_state = Ready | Degraded | NotReady

text \<open>States from the best to the worst; \<open>combine\<close> is their maximum.\<close>

fun badness :: "component_state \<Rightarrow> nat" where
  "badness Ready = 0"
| "badness Degraded = 1"
| "badness NotReady = 2"

instantiation component_state :: linorder
begin

definition less_eq_component_state :: "component_state \<Rightarrow> component_state \<Rightarrow> bool" where
  "a \<le> b \<longleftrightarrow> badness a \<le> badness b"

definition less_component_state :: "component_state \<Rightarrow> component_state \<Rightarrow> bool" where
  "a < b \<longleftrightarrow> badness a < badness b"

instance
proof
  fix a b :: component_state
  show "a \<le> b \<Longrightarrow> b \<le> a \<Longrightarrow> a = b"
    by (cases a; cases b) (simp_all add: less_eq_component_state_def)
qed (auto simp: less_eq_component_state_def less_component_state_def)

end

lemmas state_order_defs = less_eq_component_state_def less_component_state_def

abbreviation ready_code :: u8 where "ready_code \<equiv> 0"
abbreviation degraded_code :: u8 where "degraded_code \<equiv> 1"
abbreviation not_ready_code :: u8 where "not_ready_code \<equiv> 2"

definition from_atomic :: "u8 \<Rightarrow> component_state" where
  "from_atomic value = (if value = degraded_code then Degraded else if value = not_ready_code then NotReady else Ready)"

definition combine :: "component_state \<Rightarrow> component_state \<Rightarrow> component_state" where
  "combine first second =
     (if first = NotReady \<or> second = NotReady then NotReady
      else if first = Degraded \<or> second = Degraded then Degraded
      else Ready)"

lemma combine_max: "combine a b = max a b"
  by (cases a; cases b) (simp_all add: combine_def max_def state_order_defs)

section \<open>The runtime\<close>

text \<open>Permits that are free, requests in flight and what the workers reported last.\<close>

record runtime =
  rt_stopping :: bool
  rt_in_flight :: nat
  rt_permits :: nat
  rt_electrum :: u8
  rt_paykit_enqueue :: u8
  rt_paykit_reconciliation :: u8
  rt_paykit_lifecycle :: u8
  rt_paykit_transport :: u8
  rt_outbox_enqueue :: u8
  rt_outbox_reconciliation :: u8

text \<open>No capacity at all stops the process.\<close>

definition runtime_new :: "nat \<Rightarrow> runtime option" where
  "runtime_new max_concurrent_requests =
     (if max_concurrent_requests = 0 then None
      else Some \<lparr>rt_stopping = False, rt_in_flight = 0, rt_permits = max_concurrent_requests, rt_electrum = not_ready_code,
        rt_paykit_enqueue = not_ready_code, rt_paykit_reconciliation = not_ready_code, rt_paykit_lifecycle = not_ready_code,
        rt_paykit_transport = not_ready_code, rt_outbox_enqueue = not_ready_code, rt_outbox_reconciliation = not_ready_code\<rparr>)"

definition may_start_worker_claim :: "runtime \<Rightarrow> bool" where
  "may_start_worker_claim rt \<longleftrightarrow> \<not> rt_stopping rt"

definition availability_code :: "bool \<Rightarrow> u8" where
  "availability_code available = (if available then ready_code else degraded_code)"

definition set_electrum_available :: "bool \<Rightarrow> runtime \<Rightarrow> runtime" where
  "set_electrum_available available rt = rt\<lparr>rt_electrum := availability_code available\<rparr>"

definition set_paykit_enqueue_available :: "bool \<Rightarrow> runtime \<Rightarrow> runtime" where
  "set_paykit_enqueue_available available rt = rt\<lparr>rt_paykit_enqueue := availability_code available\<rparr>"

definition set_paykit_reconciliation_available :: "bool \<Rightarrow> runtime \<Rightarrow> runtime" where
  "set_paykit_reconciliation_available available rt = rt\<lparr>rt_paykit_reconciliation := availability_code available\<rparr>"

definition set_paykit_lifecycle_available :: "bool \<Rightarrow> runtime \<Rightarrow> runtime" where
  "set_paykit_lifecycle_available available rt = rt\<lparr>rt_paykit_lifecycle := availability_code available\<rparr>"

definition set_paykit_transport_available :: "bool \<Rightarrow> runtime \<Rightarrow> runtime" where
  "set_paykit_transport_available available rt = rt\<lparr>rt_paykit_transport := availability_code available\<rparr>"

definition set_outbox_enqueue_available :: "bool \<Rightarrow> runtime \<Rightarrow> runtime" where
  "set_outbox_enqueue_available available rt = rt\<lparr>rt_outbox_enqueue := availability_code available\<rparr>"

definition set_outbox_reconciliation_available :: "bool \<Rightarrow> runtime \<Rightarrow> runtime" where
  "set_outbox_reconciliation_available available rt = rt\<lparr>rt_outbox_reconciliation := availability_code available\<rparr>"

definition set_paykit_delivery_available :: "bool \<Rightarrow> runtime \<Rightarrow> runtime" where
  "set_paykit_delivery_available available rt =
     set_paykit_transport_available available (set_paykit_lifecycle_available available
       (set_paykit_reconciliation_available available (set_paykit_enqueue_available available rt)))"

definition set_outbox_available :: "bool \<Rightarrow> runtime \<Rightarrow> runtime" where
  "set_outbox_available available rt =
     set_outbox_reconciliation_available available (set_outbox_enqueue_available available rt)"

definition begin_shutdown :: "runtime \<Rightarrow> runtime" where
  "begin_shutdown rt = rt\<lparr>rt_stopping := True\<rparr>"

record readiness =
  rd_status :: component_state
  rd_postgres :: component_state
  rd_electrum :: component_state
  rd_paykit_delivery :: component_state
  rd_outbox :: component_state

definition readiness_of :: "bool \<Rightarrow> runtime \<Rightarrow> readiness" where
  "readiness_of postgres_ready rt =
     (let postgres = (if rt_stopping rt \<or> \<not> postgres_ready then NotReady else Ready);
          electrum = from_atomic (rt_electrum rt);
          paykit_delivery = combine
            (combine (from_atomic (rt_paykit_enqueue rt)) (from_atomic (rt_paykit_reconciliation rt)))
            (combine (from_atomic (rt_paykit_transport rt)) (from_atomic (rt_paykit_lifecycle rt)));
          outbox = combine (from_atomic (rt_outbox_enqueue rt)) (from_atomic (rt_outbox_reconciliation rt));
          status = (if postgres = NotReady \<or> list_ex (\<lambda>state. state = NotReady) [electrum, paykit_delivery, outbox] then NotReady
            else if list_ex (\<lambda>state. state \<noteq> Ready) [electrum, paykit_delivery, outbox] then Degraded
            else Ready)
      in \<lparr>rd_status = status, rd_postgres = postgres, rd_electrum = electrum, rd_paykit_delivery = paykit_delivery,
          rd_outbox = outbox\<rparr>)"

datatype refusal = ShuttingDown | Overloaded

text \<open>
  A request passes the middleware in separate atomic operations, and other requests and the shutdown may come
  between them: it reads the stopping flag, takes a permit, is counted, is served, is no longer counted and gives
  the permit back.  The health routes are exempt.  Operations are interleaved one at a time.
\<close>

datatype request_point = Arriving | CheckedRunning | Permitted | Serving | Leaving | Finished | Refused refusal

fun request_op :: "bool \<Rightarrow> request_point \<Rightarrow> runtime \<Rightarrow> request_point \<times> runtime" where
  "request_op exempt Arriving rt =
     (if \<not> exempt \<and> rt_stopping rt then (Refused ShuttingDown, rt) else (CheckedRunning, rt))"
| "request_op exempt CheckedRunning rt =
     (if exempt then (Permitted, rt)
      else if rt_permits rt = 0 then (Refused Overloaded, rt)
      else (Permitted, rt\<lparr>rt_permits := rt_permits rt - 1\<rparr>))"
| "request_op exempt Permitted rt =
     (Serving, if exempt then rt else rt\<lparr>rt_in_flight := rt_in_flight rt + 1\<rparr>)"
| "request_op exempt Serving rt =
     (Leaving, if exempt then rt else rt\<lparr>rt_in_flight := rt_in_flight rt - 1\<rparr>)"
| "request_op exempt Leaving rt =
     (Finished, if exempt then rt else rt\<lparr>rt_permits := rt_permits rt + 1\<rparr>)"
| "request_op exempt Finished rt = (Finished, rt)"
| "request_op exempt (Refused e) rt = (Refused e, rt)"

section \<open>Tasks of the creators\<close>

record creator_tasks =
  ct_tasks :: "uuid list"
  ct_active :: "uuid set"
  ct_limit :: nat

definition creator_tasks_new :: "nat \<Rightarrow> creator_tasks option" where
  "creator_tasks_new limit = (if limit = 0 then None else Some \<lparr>ct_tasks = [], ct_active = {}, ct_limit = limit\<rparr>)"

definition available_slots :: "creator_tasks \<Rightarrow> nat" where
  "available_slots tasks = ct_limit tasks - card (ct_active tasks)"

definition try_spawn :: "bool \<Rightarrow> uuid \<Rightarrow> creator_tasks \<Rightarrow> bool \<times> creator_tasks" where
  "try_spawn may_start creator tasks =
     (if \<not> may_start \<or> available_slots tasks = 0 \<or> creator \<in> ct_active tasks then (False, tasks)
      else (True, tasks\<lparr>ct_active := insert creator (ct_active tasks), ct_tasks := ct_tasks tasks @ [creator]\<rparr>))"

text \<open>Any of the running tasks may be the next to end.\<close>

definition join_next :: "nat \<Rightarrow> creator_tasks \<Rightarrow> (uuid \<times> creator_tasks) option" where
  "join_next pick tasks =
     (if ct_tasks tasks = [] then None
      else let creator = ct_tasks tasks ! (pick mod length (ct_tasks tasks))
           in Some (creator, tasks\<lparr>ct_tasks := remove1 creator (ct_tasks tasks), ct_active := ct_active tasks - {creator}\<rparr>))"

definition abort_and_join :: "creator_tasks \<Rightarrow> creator_tasks" where
  "abort_and_join tasks = tasks\<lparr>ct_tasks := [], ct_active := {}\<rparr>"

definition tasks_ok :: "creator_tasks \<Rightarrow> bool" where
  "tasks_ok tasks \<longleftrightarrow> 0 < ct_limit tasks \<and> ct_active tasks = set (ct_tasks tasks) \<and> distinct (ct_tasks tasks) \<and>
     length (ct_tasks tasks) \<le> ct_limit tasks"

lemma tasks_ok_slots: "tasks_ok tasks \<Longrightarrow> available_slots tasks + length (ct_tasks tasks) = ct_limit tasks"
  by (simp add: tasks_ok_def available_slots_def distinct_card)

lemma tasks_ok_new: "creator_tasks_new limit = Some tasks \<Longrightarrow> tasks_ok tasks"
  by (auto simp: creator_tasks_new_def tasks_ok_def split: if_splits)

lemma tasks_ok_spawn: "tasks_ok tasks \<Longrightarrow> tasks_ok (snd (try_spawn may creator tasks))"
  by (auto simp: try_spawn_def tasks_ok_def available_slots_def distinct_card)

lemma join_next_member:
  assumes "join_next pick tasks = Some (creator, tasks')"
  shows "creator \<in> set (ct_tasks tasks)"
  using assms by (auto simp: join_next_def Let_def split: if_splits)

lemma tasks_ok_join: "tasks_ok tasks \<Longrightarrow> join_next pick tasks = Some (creator, tasks') \<Longrightarrow> tasks_ok tasks'"
  by (auto simp: join_next_def tasks_ok_def Let_def length_remove1 set_remove1_eq split: if_splits)

lemma tasks_ok_abort: "tasks_ok tasks \<Longrightarrow> tasks_ok (abort_and_join tasks)"
  by (simp add: abort_and_join_def tasks_ok_def)

section \<open>Turns\<close>

text \<open>The counter of starts is a 64-bit integer in the source; it does not reach its bound.\<close>

record intake_turns =
  it_last_started :: "uuid \<Rightarrow> nat option"
  it_next :: nat

definition turns_default :: intake_turns where
  "turns_default = \<lparr>it_last_started = (\<lambda>_. None), it_next = 0\<rparr>"

definition turns_order :: "uuid list \<Rightarrow> intake_turns \<Rightarrow> uuid list \<times> intake_turns" where
  "turns_order ready turns =
     (let last_started = (\<lambda>creator. if creator \<in> set ready then it_last_started turns creator else None)
      in (sort_key last_started ready, turns\<lparr>it_last_started := last_started\<rparr>))"

definition turns_started :: "uuid \<Rightarrow> intake_turns \<Rightarrow> intake_turns" where
  "turns_started creator turns =
     turns\<lparr>it_last_started := (it_last_started turns)(creator \<mapsto> it_next turns), it_next := it_next turns + 1\<rparr>"

text \<open>
  The loop over the ordered creators: it stops without a free slot, skips the creators that are not
  selected, and records the turn of each task it starts.  The first answer lists the started creators.
\<close>

fun start_each :: "bool \<Rightarrow> (uuid \<Rightarrow> bool) \<Rightarrow> uuid list \<Rightarrow> creator_tasks \<times> intake_turns
    \<Rightarrow> uuid list \<times> creator_tasks \<times> intake_turns" where
  "start_each may_start selected [] (tasks, turns) = ([], tasks, turns)"
| "start_each may_start selected (creator # creators) (tasks, turns) =
     (if available_slots tasks = 0 then ([], tasks, turns)
      else if \<not> selected creator then start_each may_start selected creators (tasks, turns)
      else case try_spawn may_start creator tasks of
          (True, tasks') \<Rightarrow>
            let (started, result) = start_each may_start selected creators (tasks', turns_started creator turns)
            in (creator # started, result)
        | (False, tasks') \<Rightarrow> start_each may_start selected creators (tasks', turns))"

definition start_intake_passes :: "bool \<Rightarrow> uuid list \<Rightarrow> creator_tasks \<times> intake_turns
    \<Rightarrow> uuid list \<times> creator_tasks \<times> intake_turns" where
  "start_intake_passes may_start creators = (\<lambda>(tasks, turns).
     let running = ct_active tasks; (ordered, turns') = turns_order creators turns
     in start_each may_start (\<lambda>creator. creator \<notin> running) ordered (tasks, turns'))"

text \<open>The sets of the source are ordered; a set is enumerated in ascending order.\<close>

definition start_lifecycle_passes :: "bool \<Rightarrow> uuid list \<Rightarrow> uuid set \<times> creator_tasks \<times> intake_turns
    \<Rightarrow> uuid list \<times> uuid set \<times> creator_tasks \<times> intake_turns" where
  "start_lifecycle_passes may_start known_creators = (\<lambda>(pending, tasks, turns).
     let running = ct_active tasks;
         creators = sorted_list_of_set (pending \<union> running \<union> set known_creators);
         (ordered, turns') = turns_order creators turns;
         (started, tasks', turns'') = start_each may_start (\<lambda>creator. creator \<notin> running \<and> creator \<in> pending) ordered (tasks, turns')
     in (started, pending - set started, tasks', turns''))"

text \<open>What the loop starts: as many selected creators as there are slots, in the given order.\<close>

lemma start_each_stopping: "start_each False selected creators (tasks, turns) = ([], tasks, turns)"
  by (induction creators) (auto simp: try_spawn_def)

definition spawned :: "uuid list \<Rightarrow> creator_tasks \<Rightarrow> creator_tasks" where
  "spawned started tasks = tasks\<lparr>ct_active := ct_active tasks \<union> set started, ct_tasks := ct_tasks tasks @ started\<rparr>"

lemma start_each_takes:
  assumes "tasks_ok tasks" "distinct creators" "\<And>x. x \<in> set creators \<Longrightarrow> selected x \<Longrightarrow> x \<notin> ct_active tasks"
  defines "started \<equiv> take (available_slots tasks) (filter selected creators)"
  shows "start_each True selected creators (tasks, turns) = (started, spawned started tasks, fold turns_started started turns)"
  using assms(1-3) unfolding started_def
proof (induction creators arbitrary: tasks turns)
  case Nil
  then show ?case by (simp add: spawned_def)
next
  case (Cons x xs)
  consider "available_slots tasks = 0" | n where "available_slots tasks = Suc n" "\<not> selected x"
    | n where "available_slots tasks = Suc n" "selected x" by (cases "available_slots tasks") auto
  then show ?case
  proof cases
    case 1
    then show ?thesis by (simp add: spawned_def)
  next
    case 2
    then show ?thesis using Cons by simp
  next
    case (3 n)
    then have fresh: "x \<notin> ct_active tasks" using Cons.prems(3) by simp
    let ?tasks = "tasks\<lparr>ct_active := insert x (ct_active tasks), ct_tasks := ct_tasks tasks @ [x]\<rparr>"
    have spawn: "try_spawn True x tasks = (True, ?tasks)" using 3 fresh by (simp add: try_spawn_def)
    then have ok: "tasks_ok ?tasks" using tasks_ok_spawn [OF Cons.prems(1), of True x] by simp
    have slots: "available_slots ?tasks = n"
      using tasks_ok_slots [OF ok] tasks_ok_slots [OF Cons.prems(1)] 3(1) by simp
    have "start_each True selected xs (?tasks, turns_started x turns) =
        (take n (filter selected xs), spawned (take n (filter selected xs)) ?tasks,
          fold turns_started (take n (filter selected xs)) (turns_started x turns))"
      using Cons.IH [OF ok, of "turns_started x turns"] Cons.prems(2,3) slots by auto
    then show ?thesis using 3 spawn by (simp add: spawned_def)
  qed
qed

lemma turns_started_fields [simp]:
  "it_next (turns_started x turns) = Suc (it_next turns)"
  "it_last_started (turns_started x turns) = (it_last_started turns)(x \<mapsto> it_next turns)"
  by (simp_all add: turns_started_def)

lemma turns_started_fold:
  "it_next (fold turns_started xs turns) = it_next turns + length xs"
  "y \<notin> set xs \<Longrightarrow> it_last_started (fold turns_started xs turns) y = it_last_started turns y"
  "y \<in> set xs \<Longrightarrow> \<exists>k \<ge> it_next turns. it_last_started (fold turns_started xs turns) y = Some k"
proof (induction xs arbitrary: turns)
  case (Cons x xs)
  { case 1 show ?case using Cons(1) by simp next
    case 2 then show ?case using Cons(2) by simp next
    case 3
    show ?case
    proof (cases "y \<in> set xs")
      case True
      from Cons(3) [OF True, of "turns_started x turns"] obtain k where "it_next (turns_started x turns) \<le> k"
        "it_last_started (fold turns_started xs (turns_started x turns)) y = Some k" by blast
      then show ?thesis by (intro exI [of _ k]) simp
    next
      case False
      then show ?thesis using 3 Cons(2) [OF False, of "turns_started x turns"] by simp
    qed }
qed simp_all

section \<open>Every ready creator gets a turn\<close>

text \<open>
  The intake loop: at a tick it starts passes in the free slots, and any running pass may end.  The
  answer lists what was started at each tick with a free slot.
\<close>

datatype intake_event = Tick "uuid list" | Ended nat

fun intake_run :: "intake_event list \<Rightarrow> creator_tasks \<times> intake_turns \<Rightarrow> uuid list list \<times> creator_tasks \<times> intake_turns" where
  "intake_run [] (tasks, turns) = ([], tasks, turns)"
| "intake_run (Ended pick # events) (tasks, turns) =
     (case join_next pick tasks of
        None \<Rightarrow> intake_run events (tasks, turns)
      | Some (_, tasks') \<Rightarrow> intake_run events (tasks', turns))"
| "intake_run (Tick ready # events) (tasks, turns) =
     (if available_slots tasks = 0 then intake_run events (tasks, turns)
      else let (started, st) = start_intake_passes True ready (tasks, turns); (rounds, st') = intake_run events st
           in (started # rounds, st'))"

text \<open>Creators of \<open>S\<close> had their turn since the count \<open>n\<close>, and \<open>c\<close> waits since before it.\<close>

definition waiting :: "uuid \<Rightarrow> nat \<Rightarrow> uuid set \<Rightarrow> creator_tasks \<Rightarrow> intake_turns \<Rightarrow> bool" where
  "waiting c n S tasks turns \<longleftrightarrow> c \<notin> ct_active tasks \<and> n \<le> it_next turns \<and>
     (\<forall>k. it_last_started turns c = Some k \<longrightarrow> k < n) \<and> (\<forall>x \<in> S. \<exists>k \<ge> n. it_last_started turns x = Some k)"

lemma sorted_take_le:
  assumes "sorted (map f ys)" "y \<in> set (take n ys)" "c \<in> set ys" "c \<notin> set (take n ys)"
  shows "f y \<le> f c"
proof -
  have "ys = take n ys @ drop n ys" by simp
  moreover from this assms(3,4) have "c \<in> set (drop n ys)" by (metis Un_iff set_append)
  moreover have "sorted (map f (take n ys) @ map f (drop n ys))" using assms(1) by (metis append_take_drop_id map_append)
  ultimately show ?thesis using assms(2) by (auto simp: sorted_append)
qed

lemma intake_round:
  assumes ok: "tasks_ok tasks" "distinct ready" "available_slots tasks \<noteq> 0"
    and w: "waiting c n S tasks turns" and c: "c \<in> set ready" "S \<subseteq> set ready"
    and run: "start_intake_passes True ready (tasks, turns) = (started, tasks', turns')"
  shows "tasks_ok tasks' \<and> started \<noteq> [] \<and> distinct started \<and> set started \<subseteq> set ready \<and>
    (c \<notin> set started \<longrightarrow> set started \<inter> S = {} \<and> waiting c n (S \<union> set started) tasks' turns')"
proof -
  define last where "last = (\<lambda>x. if x \<in> set ready then it_last_started turns x else None)"
  define ys where "ys = filter (\<lambda>x. x \<notin> ct_active tasks) (sort_key last ready)"
  have ordered: "turns_order ready turns = (sort_key last ready, turns\<lparr>it_last_started := last\<rparr>)"
    by (simp add: turns_order_def last_def Let_def)
  have started: "started = take (available_slots tasks) ys" "tasks' = spawned started tasks"
    "turns' = fold turns_started started (turns\<lparr>it_last_started := last\<rparr>)"
    using run start_each_takes [OF ok(1), of "sort_key last ready" "\<lambda>x. x \<notin> ct_active tasks"] ok(2)
    by (auto simp: start_intake_passes_def ordered ys_def)
  have dist: "distinct ys" and sub: "set ys \<subseteq> set ready" and cy: "c \<in> set ys"
    using ok(2) w c(1) by (auto simp: ys_def waiting_def)
  have "tasks_ok tasks'"
    using ok(1) dist tasks_ok_slots [OF ok(1)] set_take_subset [of "available_slots tasks" ys]
    by (auto simp: tasks_ok_def started spawned_def ys_def)
  moreover have "started \<noteq> []" using cy ok(3) by (cases ys) (auto simp: started)
  moreover have "set started \<inter> S = {} \<and> waiting c n (S \<union> set started) tasks' turns'" if out: "c \<notin> set started"
  proof
    have "sorted (map last ys)" unfolding ys_def by (rule sorted_filter) simp
    then have le: "last x \<le> last c" if "x \<in> set started" for x
      using sorted_take_le [of last ys x "available_slots tasks" c] that cy out by (simp add: started)
    have kept: "last x = it_last_started turns x" if "x \<in> S \<or> x = c" for x
      using that c by (auto simp: last_def)
    show disj: "set started \<inter> S = {}"
    proof (rule ccontr)
      assume "set started \<inter> S \<noteq> {}"
      then obtain x where x: "x \<in> set started" "x \<in> S" by blast
      with w obtain k where "n \<le> k" "it_last_started turns x = Some k" by (auto simp: waiting_def)
      with le [OF x(1)] kept [of x] kept [of c] x(2) w show False
        by (cases "it_last_started turns c") (auto simp: waiting_def)
    qed
    let ?turns = "turns\<lparr>it_last_started := last\<rparr>"
    have "\<exists>k \<ge> n. it_last_started turns' x = Some k" if "x \<in> S \<union> set started" for x
    proof (cases "x \<in> set started")
      case True
      from turns_started_fold(3) [OF True, of ?turns] obtain k where "it_next turns \<le> k" "it_last_started turns' x = Some k"
        by (auto simp: started)
      then show ?thesis using w by (intro exI [of _ k]) (simp add: waiting_def)
    next
      case False
      then show ?thesis
        using w kept [of x] that turns_started_fold(2) [OF False, of ?turns] by (auto simp: waiting_def started(3))
    qed
    moreover have "it_last_started turns' c = it_last_started turns c" "n \<le> it_next turns'"
      using w kept [of c] turns_started_fold(2) [OF out, of ?turns] turns_started_fold(1) [of started ?turns]
      by (auto simp: waiting_def started(3))
    ultimately show "waiting c n (S \<union> set started) tasks' turns'"
      using w out unfolding waiting_def started(2) by (simp add: spawned_def)
  qed
  ultimately show ?thesis
    using dist sub set_take_subset [of "available_slots tasks" ys] by (auto simp: started)
qed

lemma waiting_join:
  assumes "waiting c n S tasks turns" "join_next pick tasks = Some (x, tasks')"
  shows "waiting c n S tasks' turns"
  using assms by (auto simp: waiting_def join_next_def Let_def split: if_splits)

lemma intake_run_fair:
  assumes "tasks_ok tasks" "waiting c n S tasks turns" "c \<in> R" "S \<subseteq> R" "finite R"
    and "\<And>ready. Tick ready \<in> set events \<Longrightarrow> distinct ready \<and> set ready = R"
    and "intake_run events (tasks, turns) = (rounds, st')" "c \<notin> set (concat rounds)"
  shows "distinct (concat rounds) \<and> set (concat rounds) \<subseteq> R - S \<and> length rounds \<le> length (concat rounds)"
  using assms
proof (induction events arbitrary: tasks turns S rounds)
  case (Cons event events)
  note ready = Cons.prems(6)
  show ?case
  proof (cases event)
    case (Ended pick)
    show ?thesis
    proof (cases "join_next pick tasks")
      case None
      then show ?thesis using Cons.IH [of tasks S turns rounds] Cons.prems Ended by auto
    next
      case (Some joined)
      obtain x tasks' where joined: "joined = (x, tasks')" by force
      have "tasks_ok tasks'" "waiting c n S tasks' turns"
        using tasks_ok_join [OF Cons.prems(1)] waiting_join [OF Cons.prems(2)] Some joined by auto
      then show ?thesis using Cons.IH [of tasks' S turns rounds] Cons.prems Ended Some joined by auto
    qed
  next
    case (Tick r)
    have r: "distinct r" "set r = R" using ready Tick by auto
    show ?thesis
    proof (cases "available_slots tasks = 0")
      case True
      then show ?thesis using Cons.IH [of tasks S turns rounds] Cons.prems Tick by auto
    next
      case False
      obtain started tasks1 turns1 where run: "start_intake_passes True r (tasks, turns) = (started, tasks1, turns1)"
        by (metis prod.exhaust)
      obtain rest where rest: "intake_run events (tasks1, turns1) = (rest, st')" "rounds = started # rest"
        using Cons.prems(7) Tick False run by (auto split: prod.splits)
      have round: "tasks_ok tasks1" "started \<noteq> []" "distinct started" "set started \<subseteq> R" "set started \<inter> S = {}"
        "waiting c n (S \<union> set started) tasks1 turns1"
        using intake_round [OF Cons.prems(1) r(1) False Cons.prems(2) _ _ run] Cons.prems(3,4,8) r(2) rest(2) by auto
      have "distinct (concat rest) \<and> set (concat rest) \<subseteq> R - (S \<union> set started) \<and> length rest \<le> length (concat rest)"
        by (rule Cons.IH [OF round(1,6) Cons.prems(3) _ Cons.prems(5) _ rest(1)])
          (use Cons.prems(4,8) round(4) ready rest(2) in auto)
      moreover have "Suc 0 \<le> length started" using round(2) by (cases started) auto
      ultimately show ?thesis using round(3,4,5) rest(2) by auto
    qed
  qed
qed simp

text \<open>C34: Every ready creator gets a turn.  While the same creators stay ready, a creator whose pass does
  not run is started at the latest in as many ticks with a free slot as there are ready creators, and
  until then no other creator is started twice, whichever passes end in between.\<close>

theorem ready_creator_gets_turn:
  assumes "tasks_ok tasks" "c \<notin> ct_active tasks" "\<And>x k. it_last_started turns x = Some k \<Longrightarrow> k < it_next turns"
    and "c \<in> R" "finite R" "\<And>ready. Tick ready \<in> set events \<Longrightarrow> distinct ready \<and> set ready = R"
    and "intake_run events (tasks, turns) = (rounds, st')"
  shows "(card R \<le> length rounds \<longrightarrow> c \<in> set (concat rounds)) \<and>
    (c \<notin> set (concat rounds) \<longrightarrow> distinct (concat rounds))"
proof -
  have w: "waiting c (it_next turns) {} tasks turns" using assms(2,3) by (simp add: waiting_def)
  have fair: "distinct (concat rounds) \<and> set (concat rounds) \<subseteq> R \<and> length rounds \<le> length (concat rounds)"
    if "c \<notin> set (concat rounds)"
    using intake_run_fair [OF assms(1) w assms(4) _ assms(5-7) that] by auto
  have "length rounds < card R" if out: "c \<notin> set (concat rounds)"
  proof -
    have "set (concat rounds) \<subset> R" using fair [OF out] out assms(4) by blast
    then have "card (set (concat rounds)) < card R" by (rule psubset_card_mono [OF assms(5)])
    then show ?thesis using fair [OF out] distinct_card by (metis le_less_trans)
  qed
  then show ?thesis using fair by (meson not_le)
qed

theorem ready_creator_gets_turn_witness:
  "\<exists>rounds st'. intake_run [Tick [1, 2], Ended 0, Tick [1, 2]]
      (\<lparr>ct_tasks = [], ct_active = {}, ct_limit = 1\<rparr>, turns_default) = (rounds, st') \<and> 2 \<in> set (concat rounds)"
proof -
  let ?events = "[Tick [1, 2], Ended 0, Tick [1, 2]]" and ?tasks = "\<lparr>ct_tasks = [], ct_active = {}, ct_limit = 1\<rparr>"
  obtain rounds st' where run: "intake_run ?events (?tasks, turns_default) = (rounds, st')" by (metis surj_pair)
  then have "length rounds = 2"
    by (auto simp: start_intake_passes_def turns_order_def turns_default_def available_slots_def try_spawn_def join_next_def
        turns_started_def Let_def split: if_splits)
  with ready_creator_gets_turn [of ?tasks 2 turns_default "{1, 2}" ?events rounds st'] run
  show ?thesis by (auto simp: tasks_ok_def turns_default_def)
qed

section \<open>A pass of transport maintenance\<close>

datatype transport_maintenance = MaintenanceComplete | MaintenanceDeferred | MaintenanceFailed string string

text \<open>The admission loop: it hands creators to tasks while a slot is free and the server runs.\<close>

fun fill_slots :: "bool \<Rightarrow> uuid list \<Rightarrow> creator_tasks \<Rightarrow> uuid list \<times> creator_tasks" where
  "fill_slots may_start [] tasks = ([], tasks)"
| "fill_slots may_start (creator # creators) tasks =
     (if 0 < available_slots tasks \<and> may_start then fill_slots may_start creators (snd (try_spawn may_start creator tasks))
      else (creator # creators, tasks))"

lemma fill_slots_measure:
  "length (fst (fill_slots may creators tasks)) + length (ct_tasks (snd (fill_slots may creators tasks))) \<le>
     length creators + length (ct_tasks tasks)"
proof (induction may creators tasks rule: fill_slots.induct)
  case (2 may creator creators tasks)
  have "length (ct_tasks (snd (try_spawn may creator tasks))) \<le> Suc (length (ct_tasks tasks))"
    by (simp add: try_spawn_def)
  with 2 show ?case by auto
qed simp

lemma join_next_measure: "join_next pick tasks = Some (creator, tasks') \<Longrightarrow>
  length (ct_tasks tasks') < length (ct_tasks tasks)"
  by (auto simp: join_next_def Let_def length_remove1 split: if_splits)

text \<open>
  The pass: \<open>may n\<close> is whether the server still runs at the \<open>n\<close>-th round and \<open>pick n\<close> which task ends
  there.  The answer lists the creators whose maintenance ended, in that order.
\<close>

function transport_rounds :: "(nat \<Rightarrow> bool) \<Rightarrow> (nat \<Rightarrow> nat) \<Rightarrow> nat \<Rightarrow> uuid list \<Rightarrow> creator_tasks \<Rightarrow> uuid list" where
  "transport_rounds may pick n creators tasks =
     (let (creators', tasks') = fill_slots (may n) creators tasks in
      case join_next (pick n) tasks' of
        None \<Rightarrow> []
      | Some (creator, tasks'') \<Rightarrow> creator # transport_rounds may pick (Suc n) creators' tasks'')"
  by pat_completeness auto

termination transport_rounds
proof (relation "measure (\<lambda>(may, pick, n, creators, tasks). length creators + length (ct_tasks tasks))")
  fix may :: "nat \<Rightarrow> bool" and pick n creators tasks x creators' tasks' j creator tasks''
  assume h: "x = fill_slots (may n) creators tasks" "(creators', tasks') = x" "join_next (pick n) tasks' = Some j" "(creator, tasks'') = j"
  then have "length creators' + length (ct_tasks tasks') \<le> length creators + length (ct_tasks tasks)"
    using fill_slots_measure [of "may n" creators tasks] by (metis fst_conv snd_conv)
  moreover have "length (ct_tasks tasks'') < length (ct_tasks tasks')" using join_next_measure h(3,4) by metis
  ultimately show "((may, pick, Suc n, creators', tasks''), may, pick, n, creators, tasks)
      \<in> measure (\<lambda>(may, pick, n, creators, tasks). length creators + length (ct_tasks tasks))" by simp
qed simp

declare transport_rounds.simps [simp del]

definition maintain_transport_pass ::
  "(nat \<Rightarrow> bool) \<Rightarrow> (nat \<Rightarrow> nat) \<Rightarrow> (uuid \<Rightarrow> transport_maintenance) \<Rightarrow> uuid list \<Rightarrow> nat \<Rightarrow> (uuid list \<times> bool) option" where
  "maintain_transport_pass may pick maintain creators limit =
     map_option (\<lambda>tasks. let ended = transport_rounds may pick 0 creators tasks
       in (ended, list_ex (\<lambda>creator. maintain creator = MaintenanceDeferred) ended)) (creator_tasks_new limit)"

lemma fill_slots_ok: "tasks_ok tasks \<Longrightarrow> tasks_ok (snd (fill_slots may creators tasks))"
  by (induction may creators tasks rule: fill_slots.induct) (auto simp: tasks_ok_spawn)

lemma fill_slots_all:
  assumes "distinct creators" "set creators \<inter> ct_active tasks = {}" "tasks_ok tasks"
  shows "ct_tasks (snd (fill_slots True creators tasks)) @ fst (fill_slots True creators tasks) = ct_tasks tasks @ creators"
  using assms
proof (induction True creators tasks rule: fill_slots.induct)
  case (2 creator creators tasks)
  show ?case
  proof (cases "0 < available_slots tasks")
    case True
    have spawn: "snd (try_spawn True creator tasks) =
        tasks\<lparr>ct_active := insert creator (ct_active tasks), ct_tasks := ct_tasks tasks @ [creator]\<rparr>"
      using True 2(3) by (simp add: try_spawn_def)
    have "ct_tasks (snd (fill_slots True creators (snd (try_spawn True creator tasks)))) @
        fst (fill_slots True creators (snd (try_spawn True creator tasks))) = (ct_tasks tasks @ [creator]) @ creators"
      using 2(1) [OF _ _ _ tasks_ok_spawn [OF 2(4)]] True 2(2,3) by (simp add: spawn)
    then show ?thesis using True by simp
  qed simp
qed simp

lemma fill_slots_some:
  assumes "tasks_ok tasks" "creators \<noteq> []"
  shows "ct_tasks (snd (fill_slots True creators tasks)) \<noteq> []"
proof -
  have grows: "ct_tasks tasks \<noteq> [] \<Longrightarrow> ct_tasks (snd (fill_slots True xs tasks)) \<noteq> []" for xs tasks
  proof (induction True xs tasks rule: fill_slots.induct)
    case (2 x xs tasks)
    moreover have "ct_tasks (snd (try_spawn True x tasks)) \<noteq> []" using 2(2) by (simp add: try_spawn_def)
    ultimately show ?case by auto
  qed simp
  obtain x xs where creators: "creators = x # xs" using assms(2) by (cases creators) auto
  show ?thesis
  proof (cases "ct_tasks tasks")
    case Nil
    then have "0 < available_slots tasks" "ct_tasks (snd (try_spawn True x tasks)) \<noteq> []"
      using assms(1) by (auto simp: tasks_ok_def available_slots_def try_spawn_def)
    then show ?thesis using grows creators by simp
  next
    case Cons
    then show ?thesis using grows by simp
  qed
qed

lemma transport_rounds_complete:
  assumes "tasks_ok tasks" "distinct creators" "set creators \<inter> ct_active tasks = {}"
  shows "mset (transport_rounds (\<lambda>_. True) pick n creators tasks) = mset (ct_tasks tasks @ creators)"
  using assms
proof (induction "\<lambda>_::nat. True" pick n creators tasks rule: transport_rounds.induct)
  case (1 pick n creators tasks)
  obtain creators' tasks' where fill: "fill_slots True creators tasks = (creators', tasks')" by force
  have ok: "tasks_ok tasks'" and all: "ct_tasks tasks' @ creators' = ct_tasks tasks @ creators"
    using fill_slots_ok [OF 1(2), of True creators] fill_slots_all [OF 1(3,4,2)] fill by auto
  have dist: "distinct (ct_tasks tasks' @ creators')" unfolding all using 1(2-4) by (auto simp: tasks_ok_def)
  show ?case
  proof (cases "join_next (pick n) tasks'")
    case None
    then have "ct_tasks tasks' = []" by (simp add: join_next_def Let_def split: if_splits)
    moreover from this have "creators' = []"
      using fill_slots_some [OF 1(2), of creators] fill all by (cases creators) auto
    ultimately have "ct_tasks tasks @ creators = []" using all by simp
    then show ?thesis using None fill by (subst transport_rounds.simps) simp
  next
    case (Some j)
    obtain x tasks'' where j: "j = (x, tasks'')" by force
    have x: "x \<in> set (ct_tasks tasks')" using join_next_member Some j by blast
    have t: "ct_tasks tasks'' = remove1 x (ct_tasks tasks')" "ct_active tasks'' = ct_active tasks' - {x}"
      using Some j by (auto simp: join_next_def Let_def split: if_splits)
    have "mset (transport_rounds (\<lambda>_. True) pick (Suc n) creators' tasks'') = mset (ct_tasks tasks'' @ creators')"
    proof (rule 1(1) [OF fill [symmetric] refl Some j [symmetric]])
      show "tasks_ok tasks''" using tasks_ok_join [OF ok] Some j by blast
      show "distinct creators'" "set creators' \<inter> ct_active tasks'' = {}" using dist ok t by (auto simp: tasks_ok_def)
    qed
    then have "mset (x # transport_rounds (\<lambda>_. True) pick (Suc n) creators' tasks'') = mset (ct_tasks tasks' @ creators')"
      using x t(1) by simp
    then show ?thesis using Some j fill unfolding all by (subst transport_rounds.simps) simp
  qed
qed

text \<open>C35: A pass of transport maintenance ends, and while the server runs it has maintained every creator
  of the pass exactly once whatever the order in which the tasks end; it reports deferred work exactly
  when some creator's maintenance was deferred.\<close>

theorem transport_pass_maintains_all:
  assumes "distinct creators" "0 < limit"
  shows "\<exists>ended deferred. maintain_transport_pass (\<lambda>_. True) pick maintain creators limit = Some (ended, deferred) \<and>
    distinct ended \<and> set ended = set creators \<and> (deferred \<longleftrightarrow> (\<exists>c \<in> set creators. maintain c = MaintenanceDeferred))"
proof -
  let ?tasks = "\<lparr>ct_tasks = [], ct_active = {}, ct_limit = limit\<rparr>"
  have new: "creator_tasks_new limit = Some ?tasks" using assms(2) by (simp add: creator_tasks_new_def)
  have all: "mset (transport_rounds (\<lambda>_. True) pick 0 creators ?tasks) = mset creators"
    using transport_rounds_complete [OF tasks_ok_new [OF new] assms(1), of pick 0] by simp
  then have "set (transport_rounds (\<lambda>_. True) pick 0 creators ?tasks) = set creators" by (metis set_mset_mset)
  moreover have "distinct (transport_rounds (\<lambda>_. True) pick 0 creators ?tasks)"
    using all assms(1) mset_eq_imp_distinct_iff by blast
  ultimately show ?thesis by (auto simp: maintain_transport_pass_def new Let_def list_ex_iff)
qed

theorem transport_pass_maintains_all_witness:
  "\<exists>ended deferred. maintain_transport_pass (\<lambda>_. True) (\<lambda>n. n) (\<lambda>c. if c = 2 then MaintenanceDeferred else MaintenanceComplete)
      [1, 2, 3] 2 = Some (ended, deferred) \<and> set ended = {1, 2, 3} \<and> deferred"
  using transport_pass_maintains_all [of "[1, 2, 3]" 2 "\<lambda>n. n" "\<lambda>c. if c = 2 then MaintenanceDeferred else MaintenanceComplete"]
  by auto

section \<open>Readiness\<close>

text \<open>The outcome of the last full check of the lifecycle passes, and what it published.\<close>

type_synonym lifecycle_readiness = "uuid set option"

definition publish_if_complete :: "lifecycle_readiness \<times> runtime \<Rightarrow> lifecycle_readiness \<times> runtime" where
  "publish_if_complete = (\<lambda>(checking, rt).
     if checking = Some {} then (None, set_paykit_lifecycle_available True rt) else (checking, rt))"

definition readiness_full_pass :: "uuid list \<Rightarrow> lifecycle_readiness \<times> runtime \<Rightarrow> lifecycle_readiness \<times> runtime" where
  "readiness_full_pass creators = (\<lambda>(checking, rt).
     publish_if_complete (case checking of None \<Rightarrow> Some (set creators) | Some _ \<Rightarrow> checking, rt))"

definition readiness_failed :: "lifecycle_readiness \<times> runtime \<Rightarrow> lifecycle_readiness \<times> runtime" where
  "readiness_failed = (\<lambda>(checking, rt). (None, set_paykit_lifecycle_available False rt))"

definition readiness_completed :: "uuid \<Rightarrow> bool \<Rightarrow> lifecycle_readiness \<times> runtime \<Rightarrow> lifecycle_readiness \<times> runtime" where
  "readiness_completed creator available = (\<lambda>(checking, rt).
     if \<not> available then readiness_failed (checking, rt)
     else case checking of
         None \<Rightarrow> (checking, rt)
       | Some outstanding \<Rightarrow> publish_if_complete (Some (outstanding - {creator}), rt))"

datatype readiness_event = FullPass "uuid list" | EnumerationFailed | PassEnded uuid bool

fun readiness_step :: "readiness_event \<Rightarrow> lifecycle_readiness \<times> runtime \<Rightarrow> lifecycle_readiness \<times> runtime" where
  "readiness_step (FullPass creators) st = readiness_full_pass creators st"
| "readiness_step EnumerationFailed st = readiness_failed st"
| "readiness_step (PassEnded creator available) st = readiness_completed creator available st"

abbreviation lifecycle_ready :: "lifecycle_readiness \<times> runtime \<Rightarrow> bool" where
  "lifecycle_ready st \<equiv> rt_paykit_lifecycle (snd st) = ready_code"

text \<open>A failure of the enumeration or of a pass.\<close>

fun readiness_fails :: "readiness_event \<Rightarrow> bool" where
  "readiness_fails (FullPass _) = False"
| "readiness_fails EnumerationFailed = True"
| "readiness_fails (PassEnded _ available) = (\<not> available)"

text \<open>The events end with a complete check: an enumeration followed by the end of a pass of each of its creators, and no failure.\<close>

definition full_check :: "readiness_event list \<Rightarrow> bool" where
  "full_check events \<longleftrightarrow> (\<exists>before creators after. events = before @ FullPass creators # after \<and>
     (\<forall>e \<in> set after. \<not> readiness_fails e) \<and> (\<forall>c \<in> set creators. PassEnded c True \<in> set after))"

text \<open>What the set of outstanding creators stands for after the events.\<close>

definition checking_ok :: "readiness_event list \<Rightarrow> lifecycle_readiness \<Rightarrow> bool" where
  "checking_ok events checking \<longleftrightarrow> (\<forall>outstanding. checking = Some outstanding \<longrightarrow>
     (\<exists>before creators after. events = before @ FullPass creators # after \<and>
       (\<forall>e \<in> set after. \<not> readiness_fails e) \<and> (\<forall>c \<in> set creators. c \<in> outstanding \<or> PassEnded c True \<in> set after)))"

lemma lifecycle_availability [simp]: "rt_paykit_lifecycle (set_paykit_lifecycle_available b rt) = ready_code \<longleftrightarrow> b"
  by (simp add: set_paykit_lifecycle_available_def availability_code_def)

lemma full_check_snoc: "full_check events \<Longrightarrow> \<not> readiness_fails e \<Longrightarrow> full_check (events @ [e])"
proof -
  assume "full_check events" "\<not> readiness_fails e"
  then obtain before creators after where "events = before @ FullPass creators # after" "\<forall>x \<in> set after. \<not> readiness_fails x"
    "\<forall>c \<in> set creators. PassEnded c True \<in> set after" unfolding full_check_def by blast
  with \<open>\<not> readiness_fails e\<close> show ?thesis
    unfolding full_check_def by (intro exI [of _ before] exI [of _ creators] exI [of _ "after @ [e]"]) auto
qed

lemma checking_ok_snoc:
  assumes "checking_ok events (Some outstanding)" "\<not> readiness_fails e" "\<forall>c. c \<in> outstanding \<and> c \<notin> outstanding' \<longrightarrow> e = PassEnded c True"
  shows "checking_ok (events @ [e]) (Some outstanding')"
proof -
  from assms(1) obtain before creators after where split: "events = before @ FullPass creators # after"
    "\<forall>x \<in> set after. \<not> readiness_fails x" "\<forall>c \<in> set creators. c \<in> outstanding \<or> PassEnded c True \<in> set after"
    by (auto simp: checking_ok_def)
  have "c \<in> outstanding' \<or> PassEnded c True \<in> set (after @ [e])" if "c \<in> set creators" for c
    using split(3) that assms(3) by (cases "c \<in> outstanding'") auto
  moreover have "events @ [e] = before @ FullPass creators # (after @ [e])" "\<forall>x \<in> set (after @ [e]). \<not> readiness_fails x"
    using split(1,2) assms(2) by simp_all
  ultimately have "\<exists>before creators after. events @ [e] = before @ FullPass creators # after \<and>
      (\<forall>x \<in> set after. \<not> readiness_fails x) \<and> (\<forall>c \<in> set creators. c \<in> outstanding' \<or> PassEnded c True \<in> set after)" by blast
  then show ?thesis by (simp add: checking_ok_def)
qed

lemma checking_ok_start: "checking_ok (events @ [FullPass creators]) (Some (set creators))"
  unfolding checking_ok_def by (intro allI impI exI [of _ events] exI [of _ creators] exI [of _ "[]"]) simp

lemma checking_ok_done: "checking_ok events (Some {}) \<Longrightarrow> full_check events"
  by (auto simp: checking_ok_def full_check_def)

lemma publish_sound:
  assumes "checking_ok events checking" "rt_paykit_lifecycle rt = ready_code \<Longrightarrow> full_check events"
  shows "checking_ok events (fst (publish_if_complete (checking, rt))) \<and>
    (lifecycle_ready (publish_if_complete (checking, rt)) \<longrightarrow> full_check events)"
  using assms checking_ok_done by (auto simp: publish_if_complete_def checking_ok_def)

lemma readiness_run_sound:
  assumes "rt_paykit_lifecycle rt \<noteq> ready_code"
  shows "checking_ok events (fst (fold readiness_step events (None, rt))) \<and>
    (lifecycle_ready (fold readiness_step events (None, rt)) \<longrightarrow> full_check events)"
proof (induction events rule: rev_induct)
  case Nil
  then show ?case using assms by (simp add: checking_ok_def)
next
  case (snoc e events)
  obtain chk rt' where st: "fold readiness_step events (None, rt) = (chk, rt')" by force
  have here: "checking_ok events chk" "rt_paykit_lifecycle rt' = ready_code \<Longrightarrow> full_check events"
    using snoc st by auto
  show ?case
  proof (cases "readiness_fails e")
    case True
    then have "readiness_step e (chk, rt') = readiness_failed (chk, rt')"
      by (cases e) (auto simp: readiness_completed_def)
    then show ?thesis by (simp add: st readiness_failed_def checking_ok_def)
  next
    case False
    have ready: "rt_paykit_lifecycle rt' = ready_code \<Longrightarrow> full_check (events @ [e])" using here(2) full_check_snoc False by blast
    have same: "checking_ok (events @ [e]) (Some outstanding)" if "chk = Some outstanding" for outstanding
      using checking_ok_snoc [OF _ False, of events outstanding outstanding] here(1) that by simp
    show ?thesis
    proof (cases e)
      case (FullPass creators)
      have "checking_ok (events @ [e]) (case chk of None \<Rightarrow> Some (set creators) | Some _ \<Rightarrow> chk)"
        using same FullPass checking_ok_start by (auto split: option.splits)
      then show ?thesis using publish_sound [OF _ ready] by (simp add: st FullPass readiness_full_pass_def)
    next
      case (PassEnded c available)
      with False have available by simp
      show ?thesis
      proof (cases chk)
        case None
        then show ?thesis
          using ready PassEnded \<open>available\<close> by (simp add: st readiness_completed_def checking_ok_def)
      next
        case (Some outstanding)
        have "checking_ok (events @ [e]) (Some (outstanding - {c}))"
          using checking_ok_snoc [OF _ False, of events outstanding "outstanding - {c}"] here(1) Some PassEnded \<open>available\<close> by simp
        then show ?thesis
          using publish_sound [OF _ ready] Some PassEnded \<open>available\<close> by (simp add: st readiness_completed_def)
      qed
    qed (use False in simp_all)
  qed
qed

text \<open>C36: The lifecycle rail is published as available again only after a complete check: some enumeration
  of the creators succeeded, a pass of each enumerated creator ended well after it, and nothing failed
  since.\<close>

theorem lifecycle_recovery_checked:
  assumes "\<not> lifecycle_ready (None, rt)" "fold readiness_step events (None, rt) = st" "lifecycle_ready st"
  shows "\<exists>before creators after. events = before @ FullPass creators # after \<and> (\<forall>e \<in> set after. \<not> readiness_fails e) \<and>
    (\<forall>c \<in> set creators. PassEnded c True \<in> set after)"
  using readiness_run_sound [of rt events] assms by (auto simp: full_check_def)

theorem lifecycle_recovery_checked_witness:
  "\<exists>rt. runtime_new 1 = Some rt \<and>
     lifecycle_ready (fold readiness_step [EnumerationFailed, FullPass [1, 2], PassEnded 2 True, PassEnded 1 True] (None, rt)) \<and>
     PassEnded 1 True \<in> set [PassEnded 2 True, PassEnded 1 True]"
proof -
  let ?events = "[EnumerationFailed, FullPass [1, 2], PassEnded 2 True, PassEnded 1 True]"
  obtain rt where rt: "runtime_new 1 = Some rt" by (simp add: runtime_new_def)
  then have "\<not> lifecycle_ready (None, rt)" by (auto simp: runtime_new_def)
  moreover have ready: "lifecycle_ready (fold readiness_step ?events (None, rt))"
    by (auto simp: readiness_failed_def readiness_full_pass_def readiness_completed_def publish_if_complete_def)
  ultimately obtain before creators after where "?events = before @ FullPass creators # after"
    "\<forall>c \<in> set creators. PassEnded c True \<in> set after"
    using lifecycle_recovery_checked [of rt ?events "fold readiness_step ?events (None, rt)"] by blast
  then have "PassEnded 1 True \<in> set [PassEnded 2 True, PassEnded 1 True]"
    by (auto simp: Cons_eq_append_conv)
  with rt ready show ?thesis by blast
qed

section \<open>Electrum availability\<close>












section \<open>The status of the server and its capacity\<close>

lemma status_max:
  "p \<noteq> Degraded \<Longrightarrow>
   (if p = NotReady \<or> list_ex (\<lambda>state. state = NotReady) [e, d, b] then NotReady
    else if list_ex (\<lambda>state. state \<noteq> Ready) [e, d, b] then Degraded else Ready) = max p (max e (max d b))"
  by (cases p; cases e; cases d; cases b) (simp_all add: max_def state_order_defs)

lemma worst_of: "max p (max e (max (max (max a b) (max c d)) (max f g))) = Max (set [p, e, a, b, c, d, f, g :: 'a :: linorder])"
  unfolding Max.set_eq_fold by (simp only: fold_simps max.assoc max.left_commute max.commute)

text \<open>C37: The published status is the worst of the states of the database, Electrum, the four delivery
  workers and the two outbox workers, where the database counts as not ready when it does not answer or a
  shutdown has begun: the server is ready only when each part has reported that it is available.\<close>

theorem readiness_is_worst:
  "rd_status (readiness_of postgres_ready rt) = Max (set [if \<not> rt_stopping rt \<and> postgres_ready then Ready else NotReady, from_atomic (rt_electrum rt),
     from_atomic (rt_paykit_enqueue rt), from_atomic (rt_paykit_reconciliation rt), from_atomic (rt_paykit_transport rt),
     from_atomic (rt_paykit_lifecycle rt), from_atomic (rt_outbox_enqueue rt), from_atomic (rt_outbox_reconciliation rt)])"
proof -
  let ?p = "if rt_stopping rt \<or> \<not> postgres_ready then NotReady else Ready"
  have same: "(if \<not> rt_stopping rt \<and> postgres_ready then Ready else NotReady) = ?p" by simp
  have "?p \<noteq> Degraded" by simp
  then show ?thesis
    unfolding same readiness_of_def Let_def readiness.simps combine_max
    by (subst status_max) (assumption, rule worst_of)
qed

text \<open>Requests, each at its own point, availability reports, and the beginning of a shutdown, interleaved.\<close>

type_synonym requests = "(bool \<times> request_point) list"

inductive server_step :: "runtime \<times> requests \<Rightarrow> runtime \<times> requests \<Rightarrow> bool" where
  arrive: "server_step (rt, rs) (rt, rs @ [(exempt, Arriving)])"
| advance: "i < length rs \<Longrightarrow> rs ! i = (exempt, p) \<Longrightarrow> request_op exempt p rt = (p', rt') \<Longrightarrow>
    server_step (rt, rs) (rt', rs[i := (exempt, p')])"
| shutdown: "server_step (rt, rs) (begin_shutdown rt, rs)"
| report: "rt' \<in> {set_electrum_available b rt, set_paykit_enqueue_available b rt, set_paykit_reconciliation_available b rt,
      set_paykit_lifecycle_available b rt, set_paykit_transport_available b rt, set_outbox_enqueue_available b rt,
      set_outbox_reconciliation_available b rt} \<Longrightarrow> server_step (rt, rs) (rt', rs)"

text \<open>The number of requests, health routes apart, at one of some points.\<close>

definition requests_at :: "request_point set \<Rightarrow> requests \<Rightarrow> nat" where
  "requests_at ps rs = length (filter (\<lambda>(exempt, p). \<not> exempt \<and> p \<in> ps) rs)"

lemma requests_at_Nil [simp]: "requests_at ps [] = 0"
  by (simp add: requests_at_def)

lemma requests_at_snoc [simp]: "requests_at ps (rs @ [(exempt, p)]) = requests_at ps rs + (if \<not> exempt \<and> p \<in> ps then 1 else 0)"
  by (simp add: requests_at_def)

lemma requests_at_update:
  assumes "i < length rs" "rs ! i = (exempt, p)"
  shows "requests_at ps (rs[i := (exempt, p')]) + (if \<not> exempt \<and> p \<in> ps then 1 else 0) =
    requests_at ps rs + (if \<not> exempt \<and> p' \<in> ps then 1 else 0)"
proof -
  have "rs = take i rs @ (exempt, p) # drop (Suc i) rs" using id_take_nth_drop [OF assms(1)] assms(2) by simp
  then have "requests_at ps rs = length (filter (\<lambda>(exempt, p). \<not> exempt \<and> p \<in> ps) (take i rs @ (exempt, p) # drop (Suc i) rs))"
    by (simp add: requests_at_def)
  then show ?thesis using assms(1) by (simp add: requests_at_def upd_conv_take_nth_drop)
qed

lemma requests_at_mono: "ps \<subseteq> qs \<Longrightarrow> requests_at ps rs \<le> requests_at qs rs"
  unfolding requests_at_def by (induction rs) auto

definition server_ok :: "nat \<Rightarrow> runtime \<times> requests \<Rightarrow> bool" where
  "server_ok limit = (\<lambda>(rt, rs). rt_in_flight rt = requests_at {Serving} rs \<and>
     rt_permits rt + requests_at {Permitted, Serving, Leaving} rs = limit)"

lemmas report_defs = set_electrum_available_def set_paykit_enqueue_available_def set_paykit_reconciliation_available_def
  set_paykit_lifecycle_available_def set_paykit_transport_available_def set_outbox_enqueue_available_def
  set_outbox_reconciliation_available_def

lemma server_step_ok:
  assumes "server_step (rt, rs) (rt', rs')" "server_ok limit (rt, rs)"
  shows "server_ok limit (rt', rs')"
  using assms(1)
proof cases
  case (advance i exempt p p')
  note up = requests_at_update [OF advance(2,3), of _ p']
  show ?thesis
    using advance(4) assms(2) up [of "{Serving}"] up [of "{Permitted, Serving, Leaving}"]
    by (cases p) (auto simp: server_ok_def advance(1) split: if_splits)
qed (use assms(2) in \<open>auto simp: server_ok_def begin_shutdown_def report_defs\<close>)

lemma server_run_ok:
  assumes "server_step\<^sup>*\<^sup>* s s'" "server_ok limit s"
  shows "server_ok limit s'"
  using assms by (induction rule: rtranclp_induct) (auto dest: server_step_ok)

text \<open>What a shutdown leaves: the flag stays, and a request that had not read it before is turned away.\<close>

definition turned_away :: "requests \<Rightarrow> runtime \<times> requests \<Rightarrow> bool" where
  "turned_away rs = (\<lambda>(rt', rs'). rt_stopping rt' \<and> length rs \<le> length rs' \<and>
     requests_at {CheckedRunning, Permitted, Serving, Leaving} rs' \<le> requests_at {CheckedRunning, Permitted, Serving, Leaving} rs \<and>
     (\<forall>i < length rs'. \<not> fst (rs' ! i) \<and> (i < length rs \<longrightarrow> snd (rs ! i) = Arriving) \<longrightarrow>
        snd (rs' ! i) \<in> {Arriving, Refused ShuttingDown}) \<and>
     (\<forall>i < length rs. fst (rs' ! i) = fst (rs ! i)))"

lemma turned_away_step:
  assumes "server_step (rt1, rs1) (rt2, rs2)" "turned_away rs (rt1, rs1)"
  shows "turned_away rs (rt2, rs2)"
  using assms(1)
proof cases
  case (arrive exempt)
  then show ?thesis using assms(2) by (auto simp: turned_away_def nth_append)
next
  case (advance i exempt p p')
  let ?open = "{CheckedRunning, Permitted, Serving, Leaving}"
  have stop: "rt_stopping rt1" using assms(2) by (simp add: turned_away_def)
  have "rt_stopping rt2" using advance(4) stop by (cases p) (auto split: if_splits)
  moreover have "requests_at ?open rs2 \<le> requests_at ?open rs1"
    using requests_at_update [OF advance(2,3), of ?open p'] advance(1,4) stop
    by (cases p) (auto split: if_splits)
  moreover have "p' \<in> {Arriving, Refused ShuttingDown}" if "\<not> exempt" "p \<in> {Arriving, Refused ShuttingDown}"
    using advance(4) stop that by auto
  ultimately show ?thesis
    using assms(2) advance(1,2,3) by (auto simp: turned_away_def nth_list_update)
qed (use assms(2) in \<open>auto simp: turned_away_def begin_shutdown_def report_defs\<close>)

lemma turned_away_run:
  assumes "server_step\<^sup>*\<^sup>* (rt, rs) s'" "rt_stopping rt"
  shows "turned_away rs s'"
  using assms(1)
proof (induction rule: rtranclp_induct)
  case base
  then show ?case using assms(2) by (auto simp: turned_away_def)
next
  case (step s s')
  then show ?case using turned_away_step [of "fst s" "snd s" "fst s'" "snd s'"] by simp
qed

text \<open>C38: However its requests, availability reports and shutdown interleave, the server counts exactly the
  requests it is serving, and they never exceed the configured capacity.  A request is refused as overload exactly
  when that many requests hold a permit, which they do from before they are counted until after.  Once a
  shutdown has begun, a request that arrives later or had not yet read the flag is only ever refused, and the number
  of requests that had passed that check, admitted or about to be, only falls; the health routes are exempt.\<close>

theorem capacity_respected:
  assumes "runtime_new limit = Some rt0" "server_step\<^sup>*\<^sup>* (rt0, []) (rt, rs)"
  shows "rt_in_flight rt = requests_at {Serving} rs \<and> requests_at {Permitted, Serving, Leaving} rs \<le> limit \<and>
    (fst (request_op False CheckedRunning rt) = Refused Overloaded \<longleftrightarrow> requests_at {Permitted, Serving, Leaving} rs = limit) \<and>
    (\<forall>rt' rs'. rt_stopping rt \<and> server_step\<^sup>*\<^sup>* (rt, rs) (rt', rs') \<longrightarrow>
      requests_at {CheckedRunning, Permitted, Serving, Leaving} rs' \<le> requests_at {CheckedRunning, Permitted, Serving, Leaving} rs \<and>
      (\<forall>i < length rs'. \<not> fst (rs' ! i) \<and> (i < length rs \<longrightarrow> snd (rs ! i) = Arriving) \<longrightarrow>
        snd (rs' ! i) \<in> {Arriving, Refused ShuttingDown}))"
proof -
  have "server_ok limit (rt0, [])" using assms(1) by (auto simp: runtime_new_def server_ok_def split: if_splits)
  from server_run_ok [OF assms(2) this] have "server_ok limit (rt, rs)" .
  moreover have "turned_away rs (rt', rs')" if "rt_stopping rt" "server_step\<^sup>*\<^sup>* (rt, rs) (rt', rs')" for rt' rs'
    using turned_away_run [OF that(2,1)] .
  ultimately show ?thesis by (auto simp: server_ok_def turned_away_def)
qed

text \<open>A request that read the flag before the shutdown is admitted after it, when the server already counts as idle.\<close>

lemma late_admission:
  assumes "runtime_new limit = Some rt0"
  obtains rt rt' rs where "server_step\<^sup>*\<^sup>* (rt0, []) (rt, rs)" "rt_stopping rt" "rt_in_flight rt = 0"
    "server_step\<^sup>*\<^sup>* (rt, rs) (rt', [(False, Serving)])" "rt_in_flight rt' = 1"
proof -
  have rt0: "\<not> rt_stopping rt0" "rt_permits rt0 = limit" "0 < limit" "rt_in_flight rt0 = 0"
    using assms by (auto simp: runtime_new_def split: if_splits)
  have "server_step (rt0, []) (rt0, [(False, Arriving)])" using server_step.arrive [of rt0 "[]" False] by simp
  moreover have "server_step (rt0, [(False, Arriving)]) (rt0, [(False, CheckedRunning)])"
    using server_step.advance [of 0 "[(False, Arriving)]" False Arriving rt0 CheckedRunning rt0] rt0 by simp
  moreover note server_step.shutdown [of rt0 "[(False, CheckedRunning)]"]
  ultimately have "server_step\<^sup>*\<^sup>* (rt0, []) (begin_shutdown rt0, [(False, CheckedRunning)])"
    by (meson converse_rtranclp_into_rtranclp rtranclp.rtrancl_refl)
  moreover let ?rt = "(begin_shutdown rt0)\<lparr>rt_permits := limit - 1\<rparr>"
  have "server_step (begin_shutdown rt0, [(False, CheckedRunning)]) (?rt, [(False, Permitted)])"
    using server_step.advance [of 0 "[(False, CheckedRunning)]" False CheckedRunning "begin_shutdown rt0" Permitted ?rt] rt0
    by (simp add: begin_shutdown_def)
  moreover have "server_step (?rt, [(False, Permitted)]) (?rt\<lparr>rt_in_flight := 1\<rparr>, [(False, Serving)])"
    using server_step.advance [of 0 "[(False, Permitted)]" False Permitted ?rt Serving "?rt\<lparr>rt_in_flight := 1\<rparr>"] rt0
    by (simp add: begin_shutdown_def)
  ultimately show thesis
    using that [of "begin_shutdown rt0" "[(False, CheckedRunning)]" "?rt\<lparr>rt_in_flight := 1\<rparr>"] rt0
    by (auto simp: begin_shutdown_def intro: converse_rtranclp_into_rtranclp)
qed

theorem capacity_respected_witness:
  "\<exists>rt0 rt. runtime_new 1 = Some rt0 \<and> server_step\<^sup>*\<^sup>* (rt0, []) (rt, [(False, Permitted)]) \<and>
     fst (request_op False CheckedRunning rt) = Refused Overloaded"
proof -
  obtain rt0 where new: "runtime_new 1 = Some rt0" by (simp add: runtime_new_def)
  then have rt0: "\<not> rt_stopping rt0" "rt_permits rt0 = 1" by (auto simp: runtime_new_def)
  let ?rt = "rt0\<lparr>rt_permits := 0\<rparr>"
  have "server_step (rt0, []) (rt0, [(False, Arriving)])" using server_step.arrive [of rt0 "[]" False] by simp
  moreover have "server_step (rt0, [(False, Arriving)]) (rt0, [(False, CheckedRunning)])"
    using server_step.advance [of 0 "[(False, Arriving)]" False Arriving rt0 CheckedRunning rt0] rt0 by simp
  moreover have "server_step (rt0, [(False, CheckedRunning)]) (?rt, [(False, Permitted)])"
    using server_step.advance [of 0 "[(False, CheckedRunning)]" False CheckedRunning rt0 Permitted ?rt] rt0 by simp
  ultimately have run: "server_step\<^sup>*\<^sup>* (rt0, []) (?rt, [(False, Permitted)])"
    by (meson converse_rtranclp_into_rtranclp rtranclp.rtrancl_refl)
  have "requests_at {Permitted, Serving, Leaving} [(False, Permitted)] = 1" by (simp add: requests_at_def)
  with capacity_respected [OF new run] have "fst (request_op False CheckedRunning ?rt) = Refused Overloaded" by blast
  with new run show ?thesis by blast
qed

end
