(* ===== verification/Allowance_Intake.thy ===== *)
theory Allowance_Intake
  imports Paykit_Adapter "HOL-Library.Option_ord"
begin

text \<open>
  The intake of allowances (paykit/allowances.rs): when a reader is read again, what one read accepts,
  and the pass over the invoiced readers of a creator.
\<close>

section \<open>When a reader is read\<close>

text \<open>
  Instants and durations are nanoseconds of a monotonic clock; they stay below the bounds of their
  types, which a process does not reach.
\<close>

abbreviation secs :: "nat \<Rightarrow> nat" where
  "secs n \<equiv> n * 1000000000"

definition max_allowance_acceptances_per_read :: nat where
  "max_allowance_acceptances_per_read = 4"

definition allowance_intake_cooldown :: nat where
  "allowance_intake_cooldown = secs 10"

definition allowance_intake_spacing_factor :: nat where
  "allowance_intake_spacing_factor = 10"

definition allowance_intake_pass_deadline :: nat where
  "allowance_intake_pass_deadline = secs 600"

definition allowance_intake_read_budget :: nat where
  "allowance_intake_read_budget = secs 5"

record reader_intake =
  ri_covered_through :: "u64 option"
  ri_last_started :: "nat option"
  ri_last_scan :: nat

definition reader_intake_default :: reader_intake where
  "reader_intake_default = \<lparr>ri_covered_through = None, ri_last_started = None, ri_last_scan = 0\<rparr>"

text \<open>A reader without an entry has the default one.\<close>

record 'p allowance_intake =
  ai_cooldown :: nat
  ai_readers :: "uuid \<times> 'p \<Rightarrow> reader_intake"

record 'p intake_ticket =
  tk_creator :: uuid
  tk_reader :: 'p
  tk_newest :: u64

definition allowance_intake_new :: "nat \<Rightarrow> 'p allowance_intake" where
  "allowance_intake_new cooldown = \<lparr>ai_cooldown = cooldown, ai_readers = (\<lambda>_. reader_intake_default)\<rparr>"

definition reader_spacing :: "'p allowance_intake \<Rightarrow> uuid \<Rightarrow> 'p \<Rightarrow> nat" where
  "reader_spacing intake creator reader =
     max (ai_cooldown intake) (ri_last_scan (ai_readers intake (creator, reader)) * allowance_intake_spacing_factor)"

definition is_due :: "'p allowance_intake \<Rightarrow> uuid \<Rightarrow> 'p \<Rightarrow> u64 option \<Rightarrow> nat \<Rightarrow> bool" where
  "is_due intake creator reader newest now =
     (case newest of
        None \<Rightarrow> False
      | Some newest \<Rightarrow>
          let state = ai_readers intake (creator, reader) in
          (case ri_covered_through state of None \<Rightarrow> True | Some covered \<Rightarrow> covered < newest) \<and>
          (case ri_last_started state of None \<Rightarrow> True | Some started \<Rightarrow> reader_spacing intake creator reader \<le> now - started))"

definition begin_read :: "uuid \<Rightarrow> 'p \<Rightarrow> u64 option \<Rightarrow> nat \<Rightarrow> 'p allowance_intake \<Rightarrow> 'p intake_ticket option \<times> 'p allowance_intake" where
  "begin_read creator reader newest now intake =
     (if \<not> is_due intake creator reader newest now then (None, intake)
      else (map_option (\<lambda>newest. \<lparr>tk_creator = creator, tk_reader = reader, tk_newest = newest\<rparr>) newest,
        intake\<lparr>ai_readers := (ai_readers intake)((creator, reader) := (ai_readers intake (creator, reader))
          \<lparr>ri_last_started := Some now, ri_last_scan := allowance_intake_pass_deadline\<rparr>)\<rparr>))"

definition last_started :: "'p allowance_intake \<Rightarrow> uuid \<Rightarrow> 'p \<Rightarrow> nat option" where
  "last_started intake creator reader = ri_last_started (ai_readers intake (creator, reader))"

definition finish_read :: "'p intake_ticket \<Rightarrow> bool \<Rightarrow> nat \<Rightarrow> 'p allowance_intake \<Rightarrow> 'p allowance_intake" where
  "finish_read ticket drained scan intake =
     (let key = (tk_creator ticket, tk_reader ticket);
          state = (ai_readers intake key)\<lparr>ri_last_scan := scan\<rparr>
      in intake\<lparr>ai_readers := (ai_readers intake)(key :=
           if drained then state\<lparr>ri_covered_through := Some (tk_newest ticket)\<rparr> else state)\<rparr>)"

section \<open>Reading one reader\<close>

text \<open>
  What the intake does on a link: the clock, the proposals that wait, the wait for the lock of the
  creator (whether it was acquired in time), one acceptance, and whether the server keeps reading.
\<close>

record ('p, 's) allowance_link =
  ln_now :: "'s \<Rightarrow> nat"
  ln_pending :: "'p \<Rightarrow> 's \<Rightarrow> (sdk_error, (string \<times> u64) list) res \<times> 's"
  ln_lock :: "'s \<Rightarrow> bool \<times> 's"
  ln_accept :: "'p \<Rightarrow> string \<Rightarrow> u64 \<Rightarrow> 's \<Rightarrow> (sdk_error, unit) res \<times> 's"
  ln_keep_reading :: "'s \<Rightarrow> bool"

record intake_read =
  ir_accepted :: nat
  ir_scan :: nat
  ir_result :: "(sdk_error, bool) res"

fun accept_each :: "('p, 's) allowance_link \<Rightarrow> 'p \<Rightarrow> (string \<times> u64) list \<Rightarrow> nat \<Rightarrow> 's \<Rightarrow> nat \<times> sdk_error option \<times> 's" where
  "accept_each link reader [] accepted s = (accepted, None, s)"
| "accept_each link reader ((i, stream_item_id) # proposals) accepted s =
     (case ln_lock link s of
        (False, s1) \<Rightarrow> (accepted, Some SdkTransport, s1)
      | (True, s1) \<Rightarrow>
          (case ln_accept link reader i stream_item_id s1 of
             (Inl e, s2) \<Rightarrow> (accepted, Some e, s2)
           | (Inr _, s2) \<Rightarrow> accept_each link reader proposals (accepted + 1) s2))"

definition accept_proposals :: "('p, 's) allowance_link \<Rightarrow> 'p \<Rightarrow> 's \<Rightarrow> intake_read \<times> 's" where
  "accept_proposals link reader s =
     (let (pending, s1) = ln_pending link reader s; scan = ln_now link s1 - ln_now link s in
      case pending of
        Inl e \<Rightarrow> (\<lparr>ir_accepted = 0, ir_scan = scan, ir_result = Inl e\<rparr>, s1)
      | Inr pending \<Rightarrow>
          let (accepted, failure, s2) = accept_each link reader (take max_allowance_acceptances_per_read pending) 0 s1
          in (\<lparr>ir_accepted = accepted, ir_scan = scan, ir_result = (case failure of
                Some e \<Rightarrow> Inl e
              | None \<Rightarrow> Inr (length pending \<le> max_allowance_acceptances_per_read))\<rparr>, s2))"

section \<open>Reading the due readers of a creator\<close>

text \<open>The reads of a pass: the instant each began at, and how it was finished.\<close>

datatype 'p read_event = ReadBegan 'p nat | ReadFinished 'p bool nat

fun read_each ::
  "('p, 's) allowance_link \<Rightarrow> uuid \<Rightarrow> nat \<Rightarrow> nat option \<Rightarrow> ('p \<times> u64) list \<Rightarrow> nat \<Rightarrow> 'p allowance_intake \<Rightarrow> 's
     \<Rightarrow> 'p read_event list \<times> nat \<times> 'p allowance_intake \<times> 's" where
  "read_each link creator budget since [] queued intake s = ([], queued, intake, s)"
| "read_each link creator budget since ((peer, newest) # readers) queued intake s =
     (if \<not> ln_keep_reading link s \<or> (case since of None \<Rightarrow> False | Some t \<Rightarrow> budget \<le> ln_now link s - t) then ([], queued, intake, s)
      else
        let now = ln_now link s in
        case begin_read creator peer (Some newest) now intake of
          (None, intake1) \<Rightarrow> read_each link creator budget since readers queued intake1 s
        | (Some ticket, intake1) \<Rightarrow>
            let since' = (case since of None \<Rightarrow> Some now | Some t \<Rightarrow> Some t);
                (read, s1) = accept_proposals link peer s;
                drained = (case ir_result read of Inr drained \<Rightarrow> drained | Inl _ \<Rightarrow> False);
                (events, result) = read_each link creator budget since' readers (queued + ir_accepted read)
                  (finish_read ticket drained (ir_scan read) intake1) s1
            in (ReadBegan peer now # ReadFinished peer drained (ir_scan read) # events, result))"

definition read_readers ::
  "('p, 's) allowance_link \<Rightarrow> uuid \<Rightarrow> ('p \<times> u64) list \<Rightarrow> nat \<Rightarrow> 'p allowance_intake \<Rightarrow> 's
     \<Rightarrow> 'p read_event list \<times> nat \<times> 'p allowance_intake \<times> 's" where
  "read_readers link creator readers budget intake s =
     read_each link creator budget None (sort_key (\<lambda>(peer, _). last_started intake creator peer) readers) 0 intake s"

section \<open>A pass of a creator\<close>

datatype allowance_role = Allowee | OtherAllowanceRole

datatype allowance_state = AllowanceProposed | OtherAllowanceState

datatype allowance_history = HistoryConsistent | OtherAllowanceHistory

record allowance_record =
  al_allowance_id :: string
  al_local_role :: "allowance_role option"
  al_state :: allowance_state
  al_history_status :: allowance_history
  al_proposal_stream_item_id :: "u64 option"
  al_proposal_outbound_message_id :: "u64 option"

text \<open>The calls of the payment kit the intake makes, the clock, the creator's lock and the server's wish to go on.\<close>

record ('p, 's) allowance_kit =
  ak_peer_str :: "'p \<Rightarrow> string"
  ak_linked_peers :: "'s \<Rightarrow> (sdk_error, ('p \<times> linked_peer_state) list) res \<times> 's"
  ak_stream_items :: "'s \<Rightarrow> (sdk_error, 'p \<Rightarrow> u64 list) res \<times> 's"
  ak_list_allowances :: "'p \<Rightarrow> 's \<Rightarrow> (sdk_error, allowance_record list) res \<times> 's"
  ak_accept_allowance :: "'p \<Rightarrow> string \<Rightarrow> u64 \<Rightarrow> 's \<Rightarrow> (sdk_error, unit) res \<times> 's"
  ak_allowance_id_ok :: "string \<Rightarrow> bool"
  ak_now :: "'s \<Rightarrow> nat"
  ak_lock :: "'s \<Rightarrow> bool \<times> 's"
  ak_keep_reading :: "'s \<Rightarrow> bool"

definition awaiting_allowee_acceptance :: "(string \<Rightarrow> bool) \<Rightarrow> allowance_record \<Rightarrow> (string \<times> u64) option" where
  "awaiting_allowee_acceptance id_ok record =
     (if al_local_role record \<noteq> Some Allowee \<or> al_state record \<noteq> AllowanceProposed \<or>
         al_history_status record \<noteq> HistoryConsistent \<or> al_proposal_outbound_message_id record \<noteq> None
      then None
      else if \<not> id_ok (al_allowance_id record) then None
      else map_option (\<lambda>stream_item_id. (al_allowance_id record, stream_item_id)) (al_proposal_stream_item_id record))"

definition pending_proposals ::
  "('p, 's) allowance_kit \<Rightarrow> 'p \<Rightarrow> 's \<Rightarrow> (sdk_error, (string \<times> u64) list) res \<times> 's" where
  "pending_proposals kit reader s =
     (let (records, s1) = ak_list_allowances kit reader s
      in (bindr records (\<lambda>records. Inr (take (max_allowance_acceptances_per_read + 1)
            (List.map_filter (awaiting_allowee_acceptance (ak_allowance_id_ok kit)) records))), s1))"

definition kit_link :: "('p, 's) allowance_kit \<Rightarrow> ('p, 's) allowance_link" where
  "kit_link kit = \<lparr>ln_now = ak_now kit, ln_pending = pending_proposals kit, ln_lock = ak_lock kit,
     ln_accept = ak_accept_allowance kit, ln_keep_reading = ak_keep_reading kit\<rparr>"

definition reader_of :: "('r, 'd) sdk \<Rightarrow> ('p, 's) allowance_kit \<Rightarrow> 'p \<Rightarrow> string option" where
  "reader_of sdk kit peer =
     map_option (pubky_to_str sdk \<circ> reader_raw) (okr (parse_reader (pubky_from_str sdk) (pubky_to_str sdk) (''pubky'' @ ak_peer_str kit peer)))"

definition newest_stream_items :: "('p, 's) allowance_kit \<Rightarrow> 's \<Rightarrow> (sdk_error, 'p \<Rightarrow> u64 option) res \<times> 's" where
  "newest_stream_items kit s =
     (let (items, s1) = ak_stream_items kit s
      in (bindr items (\<lambda>items. Inr (\<lambda>peer. if items peer = [] then None else Some (Max (set (items peer))))), s1))"

text \<open>The readers a pass may read: linked, invoiced by the creator, and due.\<close>

definition due_readers ::
  "('p, 's) allowance_kit \<Rightarrow> ('r, 'd) env \<Rightarrow> (persistence_error, db) res \<Rightarrow> uuid \<Rightarrow> 'p allowance_intake \<Rightarrow> 's
     \<Rightarrow> (sdk_error, ('p \<times> u64) list) res \<times> 's" where
  "due_readers kit env store creator intake s =
     (let now = ak_now kit s in
      case ak_linked_peers kit s of
        (Inl e, s1) \<Rightarrow> (Inl e, s1)
      | (Inr peers, s1) \<Rightarrow>
          let linked = map fst (filter (\<lambda>(_, state). state = PeerLinked) peers) in
          if linked = [] then (Inr [], s1)
          else
            let candidates = List.map_filter (reader_of (env_sdk env) kit) linked in
            case (if candidates = [] then Inr [] else map_err (\<lambda>_. SdkStorage)
                (bindr store (\<lambda>d. Inr (invoiced_readers env d creator candidates)))) of
              Inl e \<Rightarrow> (Inl e, s1)
            | Inr invoiced \<Rightarrow>
                let eligible = filter (\<lambda>peer. case reader_of (env_sdk env) kit peer of
                      None \<Rightarrow> False | Some reader \<Rightarrow> reader \<in> set invoiced) linked in
                if eligible = [] then (Inr [], s1)
                else case newest_stream_items kit s1 of
                    (Inl e, s2) \<Rightarrow> (Inl e, s2)
                  | (Inr newest, s2) \<Rightarrow>
                      (Inr (List.map_filter (\<lambda>peer. if is_due intake creator peer (newest peer) now
                            then map_option (\<lambda>n. (peer, n)) (newest peer) else None) eligible), s2))"

definition take_in_allowances ::
  "('p, 's) allowance_kit \<Rightarrow> ('r, 'd) env \<Rightarrow> (persistence_error, db) res \<Rightarrow> uuid \<Rightarrow> 'p allowance_intake \<Rightarrow> 's
     \<Rightarrow> (sdk_error, nat) res \<times> 'p read_event list \<times> 'p allowance_intake \<times> 's" where
  "take_in_allowances kit env store creator intake s =
     (case due_readers kit env store creator intake s of
        (Inl e, s1) \<Rightarrow> (Inl e, [], intake, s1)
      | (Inr readers, s1) \<Rightarrow>
          if readers = [] then (Inr 0, [], intake, s1)
          else let (events, queued, intake', s2) =
                  read_readers (kit_link kit) creator readers allowance_intake_read_budget intake s1
               in (Inr queued, events, intake', s2))"

text \<open>
  A pass that is dropped at its deadline, or that panics, in the read it starts after \<open>k\<close> others: that read has
  begun and is never finished.
\<close>

fun read_cut ::
  "('p, 's) allowance_link \<Rightarrow> uuid \<Rightarrow> nat \<Rightarrow> nat option \<Rightarrow> ('p \<times> u64) list \<Rightarrow> nat \<Rightarrow> 'p allowance_intake \<Rightarrow> 's
     \<Rightarrow> 'p read_event list \<times> 'p allowance_intake" where
  "read_cut link creator budget since [] k intake s = ([], intake)"
| "read_cut link creator budget since ((peer, newest) # readers) k intake s =
     (if \<not> ln_keep_reading link s \<or> (case since of None \<Rightarrow> False | Some t \<Rightarrow> budget \<le> ln_now link s - t) then ([], intake)
      else
        let now = ln_now link s in
        case begin_read creator peer (Some newest) now intake of
          (None, intake1) \<Rightarrow> read_cut link creator budget since readers k intake1 s
        | (Some ticket, intake1) \<Rightarrow>
            (case k of
               0 \<Rightarrow> ([ReadBegan peer now], intake1)
             | Suc k' \<Rightarrow>
                 let since' = (case since of None \<Rightarrow> Some now | Some t \<Rightarrow> Some t);
                     (read, s1) = accept_proposals link peer s;
                     drained = (case ir_result read of Inr drained \<Rightarrow> drained | Inl _ \<Rightarrow> False);
                     (events, intake') = read_cut link creator budget since' readers k'
                       (finish_read ticket drained (ir_scan read) intake1) s1
                 in (ReadBegan peer now # ReadFinished peer drained (ir_scan read) # events, intake')))"

definition dropped_pass ::
  "('p, 's) allowance_kit \<Rightarrow> ('r, 'd) env \<Rightarrow> (persistence_error, db) res \<Rightarrow> uuid \<Rightarrow> nat \<Rightarrow> 'p allowance_intake \<Rightarrow> 's
     \<Rightarrow> 'p read_event list \<times> 'p allowance_intake" where
  "dropped_pass kit env store creator k intake s =
     (case due_readers kit env store creator intake s of
        (Inl _, _) \<Rightarrow> ([], intake)
      | (Inr readers, s1) \<Rightarrow> read_cut (kit_link kit) creator allowance_intake_read_budget None
          (sort_key (\<lambda>(peer, _). last_started intake creator peer) readers) k intake s1)"

section \<open>Reads of one reader are spaced\<close>

text \<open>What the state of a reader remembers of the events so far.\<close>

fun last_began :: "'p \<Rightarrow> 'p read_event list \<Rightarrow> nat option" where
  "last_began p [] = None"
| "last_began p (ReadBegan q t # events) = (case last_began p events of Some u \<Rightarrow> Some u | None \<Rightarrow> if q = p then Some t else None)"
| "last_began p (ReadFinished _ _ _ # events) = last_began p events"

text \<open>How long the scan of the latest read took; a read that was not finished counts as the deadline of a pass.\<close>

definition scan_after :: "'p \<Rightarrow> 'p read_event list \<Rightarrow> nat" where
  "scan_after p events = fold (\<lambda>event scan. case event of
     ReadBegan q _ \<Rightarrow> if q = p then allowance_intake_pass_deadline else scan
   | ReadFinished q _ d \<Rightarrow> if q = p then d else scan) events 0"

inductive spaced :: "nat \<Rightarrow> 'p read_event list \<Rightarrow> bool" for cooldown where
  spaced_none: "spaced cooldown []"
| spaced_finish: "spaced cooldown events \<Longrightarrow> spaced cooldown (events @ [ReadFinished p drained scan])"
| spaced_begin: "spaced cooldown events \<Longrightarrow>
    (\<And>t0. last_began p events = Some t0 \<Longrightarrow> max cooldown (10 * scan_after p events) \<le> t - t0) \<Longrightarrow>
    spaced cooldown (events @ [ReadBegan p t])"

lemma last_began_append: "last_began p (xs @ ys) = (case last_began p ys of Some u \<Rightarrow> Some u | None \<Rightarrow> last_began p xs)"
  by (induction p xs rule: last_began.induct) (auto split: option.splits)

lemma scan_after_append: "scan_after p (xs @ [e]) = (case e of
     ReadBegan q _ \<Rightarrow> if q = p then allowance_intake_pass_deadline else scan_after p xs
   | ReadFinished q _ d \<Rightarrow> if q = p then d else scan_after p xs)"
  by (cases e) (simp_all add: scan_after_def)

definition intake_tracks :: "uuid \<Rightarrow> nat \<Rightarrow> 'p read_event list \<Rightarrow> 'p allowance_intake \<Rightarrow> bool" where
  "intake_tracks creator cooldown events intake \<longleftrightarrow> ai_cooldown intake = cooldown \<and> spaced cooldown events \<and>
     (\<forall>p. last_started intake creator p = last_began p events \<and>
       ri_last_scan (ai_readers intake (creator, p)) = scan_after p events)"

lemma intake_tracks_new: "intake_tracks creator cooldown [] (allowance_intake_new cooldown)"
  by (simp add: intake_tracks_def allowance_intake_new_def reader_intake_default_def last_started_def scan_after_def spaced_none)

lemma intake_tracks_begin:
  assumes "intake_tracks creator cooldown events intake" "begin_read creator p newest now intake = (Some ticket, intake')"
  shows "intake_tracks creator cooldown (events @ [ReadBegan p now]) intake'" "tk_creator ticket = creator" "tk_reader ticket = p"
proof -
  from assms(2) have due: "is_due intake creator p newest now"
    and intake': "intake' = intake\<lparr>ai_readers := (ai_readers intake)((creator, p) := (ai_readers intake (creator, p))
          \<lparr>ri_last_started := Some now, ri_last_scan := allowance_intake_pass_deadline\<rparr>)\<rparr>"
    and ticket: "Some ticket = map_option (\<lambda>newest. \<lparr>tk_creator = creator, tk_reader = p, tk_newest = newest\<rparr>) newest"
    by (auto simp: begin_read_def split: if_splits)
  show "tk_creator ticket = creator" "tk_reader ticket = p" using ticket by (cases newest; simp)+
  have "max cooldown (10 * scan_after p events) \<le> now - t0" if "last_began p events = Some t0" for t0
    using due assms(1) that
    by (auto simp: is_due_def intake_tracks_def last_started_def reader_spacing_def allowance_intake_spacing_factor_def
        Let_def mult.commute split: option.splits)
  then show "intake_tracks creator cooldown (events @ [ReadBegan p now]) intake'"
    using assms(1) by (auto simp: intake_tracks_def intake' last_started_def last_began_append scan_after_append intro: spaced_begin)
qed

lemma intake_tracks_finish:
  assumes "intake_tracks creator cooldown events intake" "tk_creator ticket = creator" "tk_reader ticket = p"
  shows "intake_tracks creator cooldown (events @ [ReadFinished p drained scan]) (finish_read ticket drained scan intake)"
  using assms
  by (auto simp: intake_tracks_def finish_read_def Let_def last_started_def last_began_append scan_after_append intro: spaced_finish)

lemma read_each_Cons:
  assumes "read_each link creator budget since ((peer, newest) # readers) queued intake s = (events, queued', intake', s')"
  obtains (stop) "events = []" "queued' = queued" "intake' = intake" "s' = s"
  | (skip) intake1 where "begin_read creator peer (Some newest) (ln_now link s) intake = (None, intake1)"
      "read_each link creator budget since readers queued intake1 s = (events, queued', intake', s')"
  | (read) ticket intake1 since' made s1 drained rest where
      "begin_read creator peer (Some newest) (ln_now link s) intake = (Some ticket, intake1)"
      "accept_proposals link peer s = (made, s1)" "drained = (case ir_result made of Inr x \<Rightarrow> x | Inl _ \<Rightarrow> False)"
      "read_each link creator budget since' readers (queued + ir_accepted made)
         (finish_read ticket drained (ir_scan made) intake1) s1 = (rest, queued', intake', s')"
      "events = ReadBegan peer (ln_now link s) # ReadFinished peer drained (ir_scan made) # rest"
proof (cases "\<not> ln_keep_reading link s \<or> (case since of None \<Rightarrow> False | Some t \<Rightarrow> budget \<le> ln_now link s - t)")
  case True
  then show ?thesis using assms stop by simp
next
  case False
  obtain began intake1 where start: "begin_read creator peer (Some newest) (ln_now link s) intake = (began, intake1)" by force
  show ?thesis
  proof (cases began)
    case None
    then show ?thesis using assms False start skip by simp
  next
    case (Some ticket)
    obtain made s1 where made: "accept_proposals link peer s = (made, s1)" by force
    let ?drained = "case ir_result made of Inr x \<Rightarrow> x | Inl _ \<Rightarrow> False"
    let ?since = "case since of None \<Rightarrow> Some (ln_now link s) | Some t \<Rightarrow> Some t"
    obtain rest result where rest: "read_each link creator budget ?since readers (queued + ir_accepted made)
        (finish_read ticket ?drained (ir_scan made) intake1) s1 = (rest, result)" by (rule prod.exhaust)
    have "result = (queued', intake', s')"
      "events = ReadBegan peer (ln_now link s) # ReadFinished peer ?drained (ir_scan made) # rest"
      using assms False start Some made rest by (simp_all add: Let_def)
    then show ?thesis using read [OF _ made refl] start Some rest by simp
  qed
qed

lemma read_each_tracks:
  assumes "intake_tracks creator cooldown events intake"
    and "read_each link creator budget since readers queued intake s = (events', queued', intake', s')"
  shows "intake_tracks creator cooldown (events @ events') intake'"
  using assms
proof (induction readers arbitrary: since queued intake s events events')
  case (Cons r readers)
  obtain peer newest where "r = (peer, newest)" by force
  with Cons.prems(2) have "read_each link creator budget since ((peer, newest) # readers) queued intake s = (events', queued', intake', s')"
    by simp
  then show ?case
  proof (cases rule: read_each_Cons)
    case stop
    then show ?thesis using Cons.prems(1) by simp
  next
    case (skip intake1)
    then have "intake1 = intake" by (auto simp: begin_read_def split: if_splits)
    then show ?thesis using Cons.IH [OF Cons.prems(1)] skip(2) by simp
  next
    case (read ticket intake1 since' made s1 drained rest)
    note began = intake_tracks_begin [OF Cons.prems(1) read(1)]
    from Cons.IH [OF intake_tracks_finish [OF began] read(4)] show ?thesis by (simp add: read(5))
  qed
qed simp

lemma read_cut_tracks:
  assumes "intake_tracks creator cooldown events intake" "read_cut link creator budget since readers k intake s = (events', intake')"
  shows "intake_tracks creator cooldown (events @ events') intake'"
  using assms
proof (induction readers arbitrary: since k intake s events events')
  case (Cons r readers)
  obtain peer newest where r: "r = (peer, newest)" by force
  obtain began intake1 where start: "begin_read creator peer (Some newest) (ln_now link s) intake = (began, intake1)" by force
  show ?case
  proof (cases "\<not> ln_keep_reading link s \<or> (case since of None \<Rightarrow> False | Some t \<Rightarrow> budget \<le> ln_now link s - t)")
    case True
    then show ?thesis using Cons.prems r by simp
  next
    case go: False
    show ?thesis
    proof (cases began)
      case None
      then have "intake1 = intake" using start by (auto simp: begin_read_def split: if_splits)
      then show ?thesis using Cons.IH [OF Cons.prems(1)] Cons.prems(2) go start None r by simp
    next
      case (Some ticket)
      note began = intake_tracks_begin [OF Cons.prems(1) start [unfolded Some]]
      show ?thesis
      proof (cases k)
        case 0
        then show ?thesis using Cons.prems(2) go start Some r began(1) by simp
      next
        case (Suc k')
        obtain made s1 where made: "accept_proposals link peer s = (made, s1)" by force
        let ?drained = "case ir_result made of Inr x \<Rightarrow> x | Inl _ \<Rightarrow> False"
        let ?since = "case since of None \<Rightarrow> Some (ln_now link s) | Some t \<Rightarrow> Some t"
        obtain rest intake2 where rest: "read_cut link creator budget ?since readers k'
            (finish_read ticket ?drained (ir_scan made) intake1) s1 = (rest, intake2)" by force
        have events': "events' = ReadBegan peer (ln_now link s) # ReadFinished peer ?drained (ir_scan made) # rest"
          and intake': "intake2 = intake'"
          using Cons.prems(2) go start Some Suc made rest r by (simp_all add: Let_def)
        show ?thesis using Cons.IH [OF intake_tracks_finish [OF began] rest [unfolded intake']] by (simp add: events')
      qed
    qed
  qed
qed simp

lemma pass_tracks:
  assumes "intake_tracks creator cooldown events intake" "take_in_allowances kit env store creator intake s = (r, events', intake', s')"
  shows "intake_tracks creator cooldown (events @ events') intake'"
proof -
  consider "events' = []" "intake' = intake"
    | readers s1 queued where "read_readers (kit_link kit) creator readers allowance_intake_read_budget intake s1 =
        (events', queued, intake', s')"
    using assms(2) by (auto simp: take_in_allowances_def split: prod.splits sum.splits if_splits)
  then show ?thesis using assms(1) read_each_tracks by cases (auto simp: read_readers_def)
qed

lemma dropped_tracks:
  assumes "intake_tracks creator cooldown events intake" "dropped_pass kit env store creator k intake s = (events', intake')"
  shows "intake_tracks creator cooldown (events @ events') intake'"
  using assms read_cut_tracks by (auto simp: dropped_pass_def split: prod.splits sum.splits)

text \<open>The passes of a creator, complete or dropped, with any change of the kit between them.\<close>

inductive intake_passes :: "('p, 's) allowance_kit \<Rightarrow> ('r, 'd) env \<Rightarrow> uuid \<Rightarrow> nat \<Rightarrow> 'p read_event list \<Rightarrow> 'p allowance_intake \<Rightarrow> bool"
  for kit env creator cooldown where
  no_pass: "intake_passes kit env creator cooldown [] (allowance_intake_new cooldown)"
| next_pass: "intake_passes kit env creator cooldown events intake \<Longrightarrow>
    take_in_allowances kit env store creator intake s = (r, events', intake', s') \<Longrightarrow>
    intake_passes kit env creator cooldown (events @ events') intake'"
| cut_pass: "intake_passes kit env creator cooldown events intake \<Longrightarrow>
    dropped_pass kit env store creator k intake s = (events', intake') \<Longrightarrow>
    intake_passes kit env creator cooldown (events @ events') intake'"

lemma passes_track: "intake_passes kit env creator cooldown events intake \<Longrightarrow> intake_tracks creator cooldown events intake"
  by (induction rule: intake_passes.induct) (auto intro: intake_tracks_new pass_tracks dropped_tracks)

lemma spaced_prefix: "spaced cooldown (xs @ ys) \<Longrightarrow> spaced cooldown xs"
proof (induction ys rule: rev_induct)
  case (snoc y ys)
  have "spaced cooldown (xs @ ys)" using snoc.prems by (cases rule: spaced.cases) auto
  then show ?case by (rule snoc.IH)
qed simp

text \<open>C39: The intake reads one reader of a creator again no sooner than the cooldown after the previous
  read began, and no sooner than ten times the duration of that read's scan, or of a whole pass when the
  read was cut off, so that deriving one reader's history takes at most about a tenth of the time
  however large it grows.\<close>

theorem allowance_reads_spaced:
  assumes "intake_passes kit env creator cooldown (earlier @ ReadBegan p t # later) intake" "last_began p earlier = Some t0"
  shows "cooldown \<le> t - t0 \<and> 10 * scan_after p earlier \<le> t - t0"
proof -
  have "spaced cooldown (earlier @ [ReadBegan p t])"
    using passes_track [OF assms(1)] spaced_prefix [of cooldown "earlier @ [ReadBegan p t]" later] by (simp add: intake_tracks_def)
  then show ?thesis using assms(2) by (cases rule: spaced.cases) auto
qed

section \<open>What a read accepts\<close>

text \<open>A kit that also records the listings, the locks it acquired and the acceptances, in their order.\<close>

datatype 'p intake_call = Listed 'p "allowance_record list" | Locked | Accepted 'p string u64

definition recorded :: "('p, 's) allowance_kit \<Rightarrow> ('p, 's \<times> 'p intake_call list) allowance_kit" where
  "recorded kit = \<lparr>ak_peer_str = ak_peer_str kit,
     ak_linked_peers = (\<lambda>(s, calls). let (r, s') = ak_linked_peers kit s in (r, s', calls)),
     ak_stream_items = (\<lambda>(s, calls). let (r, s') = ak_stream_items kit s in (r, s', calls)),
     ak_list_allowances = (\<lambda>p (s, calls). let (r, s') = ak_list_allowances kit p s
       in (r, s', case r of Inl _ \<Rightarrow> calls | Inr records \<Rightarrow> calls @ [Listed p records])),
     ak_accept_allowance = (\<lambda>p i item (s, calls). let (r, s') = ak_accept_allowance kit p i item s
       in (r, s', case r of Inl _ \<Rightarrow> calls | Inr _ \<Rightarrow> calls @ [Accepted p i item])),
     ak_allowance_id_ok = ak_allowance_id_ok kit, ak_now = (\<lambda>(s, _). ak_now kit s),
     ak_lock = (\<lambda>(s, calls). let (b, s') = ak_lock kit s in (b, s', if b then calls @ [Locked] else calls)),
     ak_keep_reading = (\<lambda>(s, _). ak_keep_reading kit s)\<rparr>"

definition acceptances :: "'p intake_call list \<Rightarrow> nat" where
  "acceptances calls = length (filter (\<lambda>c. case c of Accepted _ _ _ \<Rightarrow> True | _ \<Rightarrow> False) calls)"

lemma acceptances_simps [simp]:
  "acceptances [] = 0" "acceptances (xs @ ys) = acceptances xs + acceptances ys"
  "acceptances (Accepted p i item # xs) = acceptances xs + 1" "acceptances (Locked # xs) = acceptances xs"
  "acceptances (Listed p records # xs) = acceptances xs"
  by (simp_all add: acceptances_def)

abbreviation accepting :: "'p \<Rightarrow> (string \<times> u64) list \<Rightarrow> 'p intake_call list" where
  "accepting p proposals \<equiv> concat (map (\<lambda>(i, item). [Locked, Accepted p i item]) proposals)"

lemma recorded_accept_each:
  assumes "accept_each (kit_link (recorded kit)) p proposals n (s, calls) = (k, failure, s', calls')"
  shows "accept_each (kit_link kit) p proposals n s = (k, failure, s') \<and> k \<le> n + length proposals \<and>
    (\<exists>more. calls' = calls @ more \<and> k = n + acceptances more \<and> (failure = None \<longrightarrow> more = accepting p proposals))"
  using assms
proof (induction proposals arbitrary: n s calls)
  case Nil
  then show ?case by auto
next
  case (Cons x proposals)
  obtain i item where x: "x = (i, item)" by force
  obtain b s1 where lock: "ak_lock kit s = (b, s1)" by force
  obtain r s2 where made: "ak_accept_allowance kit p i item s1 = (r, s2)" by force
  note kit = kit_link_def recorded_def lock made x
  show ?case
  proof (cases b)
    case False
    then show ?thesis using Cons.prems by (auto simp: kit)
  next
    case b: True
    show ?thesis
    proof (cases r)
      case (Inl e)
      then show ?thesis using Cons.prems b by (auto simp: kit)
    next
      case (Inr u)
      have "accept_each (kit_link (recorded kit)) p proposals (n + 1) (s2, calls @ [Locked, Accepted p i item]) = (k, failure, s', calls')"
        using Cons.prems b Inr by (simp add: kit)
      from Cons.IH [OF this] obtain more where
        rest: "accept_each (kit_link kit) p proposals (n + 1) s2 = (k, failure, s')" "k \<le> n + 1 + length proposals"
        and more: "calls' = (calls @ [Locked, Accepted p i item]) @ more" "k = n + 1 + acceptances more"
          "failure = None \<longrightarrow> more = accepting p proposals" by auto
      have "accept_each (kit_link kit) p (x # proposals) n s = (k, failure, s')" using rest(1) b Inr by (simp add: kit)
      then show ?thesis
        using rest(2) more by (intro conjI exI [of _ "[Locked, Accepted p i item] @ more"]) (simp_all add: x)
    qed
  qed
qed

lemma recorded_accept_proposals:
  assumes "accept_proposals (kit_link (recorded kit)) p (s, calls) = (made, s', calls')"
  obtains more where "accept_proposals (kit_link kit) p s = (made, s')" "calls' = calls @ more"
    "ir_accepted made = acceptances more" "ir_accepted made \<le> 4"
    "ir_result made = Inr True \<Longrightarrow> \<exists>records. more = Listed p records #
       accepting p (List.map_filter (awaiting_allowee_acceptance (ak_allowance_id_ok kit)) records)"
proof -
  obtain r s1 where list: "ak_list_allowances kit p s = (r, s1)" by force
  show thesis
  proof (cases r)
    case (Inl e)
    with assms list have "accept_proposals (kit_link kit) p s = (made, s')" "calls' = calls" "ir_accepted made = 0" "ir_result made = Inl e"
      by (auto simp: accept_proposals_def kit_link_def recorded_def pending_proposals_def)
    then show thesis using that [of "[]"] by simp
  next
    case (Inr records)
    let ?all = "List.map_filter (awaiting_allowee_acceptance (ak_allowance_id_ok kit)) records"
    obtain k failure s2 calls2 where each: "accept_each (kit_link (recorded kit)) p (take 4 ?all) 0 (s1, calls @ [Listed p records]) =
        (k, failure, s2, calls2)" by (metis prod.exhaust)
    from recorded_accept_each [OF this] obtain more where
      plain: "accept_each (kit_link kit) p (take 4 ?all) 0 s1 = (k, failure, s2)" "k \<le> length (take 4 ?all)"
      and more: "calls2 = (calls @ [Listed p records]) @ more" "k = acceptances more"
        "failure = None \<longrightarrow> more = accepting p (take 4 ?all)" by auto
    note defs = accept_proposals_def pending_proposals_def max_allowance_acceptances_per_read_def list Inr
    have pending: "ln_pending (kit_link kit) p s = (Inr (take 5 ?all), s1)" "take 4 (take 5 ?all) = take 4 ?all"
      "ln_pending (kit_link (recorded kit)) p (s, calls) = (Inr (take 5 ?all), s1, calls @ [Listed p records])"
      by (simp_all add: kit_link_def recorded_def defs)
    have now: "ln_now (kit_link (recorded kit)) (x, y) = ln_now (kit_link kit) x" for x y
      by (simp add: kit_link_def recorded_def)
    have made: "(s', calls') = (s2, calls2)" "made = \<lparr>ir_accepted = k, ir_scan = ln_now (kit_link kit) s1 - ln_now (kit_link kit) s,
        ir_result = (case failure of Some e \<Rightarrow> Inl e | None \<Rightarrow> Inr (length (take 5 ?all) \<le> 4))\<rparr>"
      using assms each
      by (auto simp: accept_proposals_def pending now max_allowance_acceptances_per_read_def simp del: length_take split: option.splits)
    have run: "accept_proposals (kit_link kit) p s = (made, s')"
      using made plain(1) by (simp add: accept_proposals_def pending max_allowance_acceptances_per_read_def del: length_take split: option.splits)
    show thesis
    proof (rule that [of "Listed p records # more"])
      show "accept_proposals (kit_link kit) p s = (made, s')" by (rule run)
      show "calls' = calls @ Listed p records # more" using made(1) more(1) by simp
      show "ir_accepted made = acceptances (Listed p records # more)" "ir_accepted made \<le> 4"
        using made(2) more(2) plain(2) by simp_all
      show "\<exists>records'. Listed p records # more = Listed p records' #
          accepting p (List.map_filter (awaiting_allowee_acceptance (ak_allowance_id_ok kit)) records')" if "ir_result made = Inr True"
        using that made(2) more(3) by (intro exI [of _ records]) (auto split: option.splits)
    qed
  qed
qed

abbreviation covered :: "'p allowance_intake \<Rightarrow> uuid \<Rightarrow> 'p \<Rightarrow> u64 option" where
  "covered intake creator p \<equiv> ri_covered_through (ai_readers intake (creator, p))"

lemma begin_read_covered: "begin_read creator q newest now intake = (r, intake') \<Longrightarrow> covered intake' creator p = covered intake creator p"
  by (auto simp: begin_read_def split: if_splits)

lemma finish_read_covered: "covered (finish_read ticket drained scan intake) creator p =
  (if drained \<and> tk_creator ticket = creator \<and> tk_reader ticket = p then Some (tk_newest ticket) else covered intake creator p)"
  by (auto simp: finish_read_def Let_def)

lemma begun_ticket: "begin_read creator q (Some newest) now intake = (Some ticket, intake') \<Longrightarrow>
  ticket = \<lparr>tk_creator = creator, tk_reader = q, tk_newest = newest\<rparr>"
  by (auto simp: begin_read_def split: if_splits)

definition reads_begun :: "'p read_event list \<Rightarrow> nat" where
  "reads_begun events = length (filter (\<lambda>e. case e of ReadBegan _ _ \<Rightarrow> True | _ \<Rightarrow> False) events)"

text \<open>One read listed the reader's allowances and then, one by one under the lock, accepted all that awaited it.\<close>

definition all_accepted :: "('p, 's) allowance_kit \<Rightarrow> 'p \<Rightarrow> 'p intake_call list \<Rightarrow> bool" where
  "all_accepted kit p calls \<longleftrightarrow> (\<exists>records before after. calls = before @ Listed p records #
     accepting p (List.map_filter (awaiting_allowee_acceptance (ak_allowance_id_ok kit)) records) @ after)"

lemma all_accepted_append: "all_accepted kit p xs \<or> all_accepted kit p ys \<Longrightarrow> all_accepted kit p (xs @ ys)"
proof (elim disjE)
  assume "all_accepted kit p xs"
  then show ?thesis unfolding all_accepted_def by (metis append_Cons append_assoc)
next
  assume "all_accepted kit p ys"
  then show ?thesis unfolding all_accepted_def by (metis append_assoc)
qed

lemma covered_by_read:
  assumes "begin_read creator peer (Some newest) now intake = (Some ticket, intake1)"
    and "mid = finish_read ticket (case ir_result made of Inr x \<Rightarrow> x | Inl _ \<Rightarrow> False) (ir_scan made) intake1"
    and "ir_result made = Inr True \<Longrightarrow> \<exists>records. more1 = Listed peer records #
      accepting peer (List.map_filter (awaiting_allowee_acceptance (ak_allowance_id_ok kit)) records)"
    and "covered intake' creator p \<noteq> covered mid creator p \<longrightarrow>
      (\<exists>n. (p, n) \<in> set readers \<and> covered intake' creator p = Some n) \<and> all_accepted kit p more2"
    and changed: "covered intake' creator p \<noteq> covered intake creator p"
  shows "(\<exists>n. (p, n) \<in> set ((peer, newest) # readers) \<and> covered intake' creator p = Some n) \<and> all_accepted kit p (more1 @ more2)"
proof (cases "covered intake' creator p = covered mid creator p")
  case False
  then show ?thesis using assms(4) all_accepted_append by (meson list.set_intros(2))
next
  case True
  have "ticket = \<lparr>tk_creator = creator, tk_reader = peer, tk_newest = newest\<rparr>" by (rule begun_ticket [OF assms(1)])
  then have read: "(case ir_result made of Inr x \<Rightarrow> x | Inl _ \<Rightarrow> False) \<and> peer = p" "covered intake' creator p = Some newest"
    using True changed begin_read_covered [OF assms(1), of p] by (auto simp: assms(2) finish_read_covered split: if_splits)
  then have "ir_result made = Inr True" by (auto split: sum.splits)
  with assms(3) read(1) have "all_accepted kit p more1" unfolding all_accepted_def by (metis append_Nil append_Nil2)
  with read show ?thesis using all_accepted_append by (metis list.set_intros(1))
qed

lemma recorded_read_each:
  assumes "read_each (kit_link (recorded kit)) creator budget since readers queued intake (s, calls) = (events, queued', intake', s', calls')"
  shows "read_each (kit_link kit) creator budget since readers queued intake s = (events, queued', intake', s') \<and>
    (\<exists>more. calls' = calls @ more \<and> queued' = queued + acceptances more \<and> queued' \<le> queued + 4 * reads_begun events \<and>
      (covered intake' creator p \<noteq> covered intake creator p \<longrightarrow>
        (\<exists>n. (p, n) \<in> set readers \<and> covered intake' creator p = Some n) \<and> all_accepted kit p more))"
  using assms
proof (induction readers arbitrary: since queued intake s calls events)
  case Nil
  then show ?case by (auto simp: reads_begun_def)
next
  case (Cons r readers)
  obtain peer newest where r: "r = (peer, newest)" by force
  have link: "ln_keep_reading (kit_link (recorded kit)) (s, calls) = ln_keep_reading (kit_link kit) s"
    "ln_now (kit_link (recorded kit)) (s, calls) = ln_now (kit_link kit) s"
    "(case since of None \<Rightarrow> False | Some t \<Rightarrow> budget \<le> ln_now (kit_link (recorded kit)) (s, calls) - t) =
      (case since of None \<Rightarrow> False | Some t \<Rightarrow> budget \<le> ln_now (kit_link kit) s - t)"
    by (simp_all add: kit_link_def recorded_def split: option.splits)
  let ?stop = "\<not> ln_keep_reading (kit_link kit) s \<or> (case since of None \<Rightarrow> False | Some t \<Rightarrow> budget \<le> ln_now (kit_link kit) s - t)"
  obtain began intake1 where start: "begin_read creator peer (Some newest) (ln_now (kit_link kit) s) intake = (began, intake1)" by force
  show ?case
  proof (cases "?stop")
    case True
    then show ?thesis using Cons.prems r by (auto simp: link reads_begun_def)
  next
    case go: False
    show ?thesis
    proof (cases began)
      case None
      have "read_each (kit_link (recorded kit)) creator budget since readers queued intake1 (s, calls) = (events, queued', intake', s', calls')"
        using Cons.prems go start None r by (simp add: link)
      from Cons.IH [OF this] begin_read_covered [OF start, of p] go start None r show ?thesis by auto
    next
      case (Some ticket)
      obtain made s1 calls1 where made: "accept_proposals (kit_link (recorded kit)) peer (s, calls) = (made, s1, calls1)"
        by (metis prod.exhaust)
      let ?drained = "case ir_result made of Inr x \<Rightarrow> x | Inl _ \<Rightarrow> False"
      let ?since = "case since of None \<Rightarrow> Some (ln_now (kit_link kit) s) | Some t \<Rightarrow> Some t"
      let ?mid = "finish_read ticket ?drained (ir_scan made) intake1"
      obtain rest result where rest: "read_each (kit_link (recorded kit)) creator budget ?since readers (queued + ir_accepted made)
          ?mid (s1, calls1) = (rest, result)" by (rule prod.exhaust)
      have result: "result = (queued', intake', s', calls')"
        and events: "events = ReadBegan peer (ln_now (kit_link kit) s) # ReadFinished peer ?drained (ir_scan made) # rest"
        using Cons.prems go start Some made rest r by (simp_all add: link Let_def)
      from made obtain more1 where read: "accept_proposals (kit_link kit) peer s = (made, s1)" "calls1 = calls @ more1"
        "ir_accepted made = acceptances more1" "ir_accepted made \<le> 4"
        and full: "ir_result made = Inr True \<Longrightarrow> \<exists>records. more1 = Listed peer records #
          accepting peer (List.map_filter (awaiting_allowee_acceptance (ak_allowance_id_ok kit)) records)"
        by (rule recorded_accept_proposals) blast
      from Cons.IH [OF rest [unfolded result]] obtain more2 where
        plain: "read_each (kit_link kit) creator budget ?since readers (queued + ir_accepted made) ?mid s1 = (rest, queued', intake', s')"
        and more2: "calls' = calls1 @ more2" "queued' = queued + ir_accepted made + acceptances more2"
          "queued' \<le> queued + ir_accepted made + 4 * reads_begun rest"
          "covered intake' creator p \<noteq> covered ?mid creator p \<longrightarrow>
            (\<exists>n. (p, n) \<in> set readers \<and> covered intake' creator p = Some n) \<and> all_accepted kit p more2" by blast
      have "read_each (kit_link kit) creator budget since (r # readers) queued intake s = (events, queued', intake', s')"
        using go start Some read(1) plain by (simp add: r events Let_def)
      moreover have "queued' \<le> queued + 4 * reads_begun events"
        using more2(3) read(4) by (simp add: events reads_begun_def)
      moreover note covered_by_read [OF start [unfolded Some] refl full more2(4)]
      ultimately show ?thesis
        using read(2,3) more2(1,2) r by (intro conjI exI [of _ "more1 @ more2"]) simp_all
    qed
  qed
qed

text \<open>C40: Recording the calls a pass makes does not change it, and the record shows what it did.  The stream items of
  a reader count as covered by a pass only if, in that pass, the server listed the reader's allowances and then accepted
  every proposal that awaited its acceptance, one after the other, each under the lock of the creator; the
  number a pass reports as queued is the number of its acceptances, at most four per read it starts.\<close>

theorem covered_reader_accepted:
  assumes "read_readers (kit_link (recorded kit)) creator readers budget intake (s, []) = (events, queued, intake', s', calls)"
  shows "read_readers (kit_link kit) creator readers budget intake s = (events, queued, intake', s') \<and>
    queued = acceptances calls \<and> queued \<le> 4 * reads_begun events \<and>
    (covered intake' creator p \<noteq> covered intake creator p \<longrightarrow>
      (\<exists>n records before after. (p, n) \<in> set readers \<and> covered intake' creator p = Some n \<and>
        calls = before @ Listed p records # concat (map (\<lambda>(i, item). [Locked, Accepted p i item])
          (List.map_filter (awaiting_allowee_acceptance (ak_allowance_id_ok kit)) records)) @ after))"
  using recorded_read_each [OF assms [unfolded read_readers_def], of p] unfolding read_readers_def all_accepted_def by auto

section \<open>A concrete intake\<close>

text \<open>A link whose state is the clock: a scan takes two seconds, every item is new, one proposal waits.\<close>

definition waiting_allowance :: allowance_record where
  "waiting_allowance = \<lparr>al_allowance_id = ''allowance'', al_local_role = Some Allowee, al_state = AllowanceProposed,
     al_history_status = HistoryConsistent, al_proposal_stream_item_id = Some 7, al_proposal_outbound_message_id = None\<rparr>"

definition clock_kit :: "(string, nat) allowance_kit" where
  "clock_kit = \<lparr>ak_peer_str = id, ak_linked_peers = (\<lambda>s. (Inr [(''reader'', PeerLinked)], s)),
     ak_stream_items = (\<lambda>s. (Inr (\<lambda>_. [of_nat s]), s)),
     ak_list_allowances = (\<lambda>_ s. (Inr [waiting_allowance], s + secs 2)), ak_accept_allowance = (\<lambda>_ _ _ s. (Inr (), s)),
     ak_allowance_id_ok = (\<lambda>_. True), ak_now = id, ak_lock = (\<lambda>s. (True, s)), ak_keep_reading = (\<lambda>_. True)\<rparr>"

definition reader_db :: db where
  "reader_db = example_db\<lparr>db_assignments := [\<lparr>as_id = 1, as_creator = 1, as_reader_hash = hash_of example_env ''pubkyreader'',
     as_bundle_hash = ''b'', as_envelope = ''e''\<rparr>]\<rparr>"

lemma clock_awaiting:
  "List.map_filter (awaiting_allowee_acceptance (ak_allowance_id_ok clock_kit)) [waiting_allowance] = [(''allowance'', 7)]"
  by (simp add: map_filter_def awaiting_allowee_acceptance_def waiting_allowance_def clock_kit_def)

lemma clock_read:
  "accept_proposals (kit_link clock_kit) p s =
     (\<lparr>ir_accepted = 1, ir_scan = secs 2, ir_result = Inr True\<rparr>, s + secs 2)"
  using clock_awaiting
  by (simp add: accept_proposals_def kit_link_def pending_proposals_def clock_kit_def max_allowance_acceptances_per_read_def)

lemma clock_read_readers:
  assumes "is_due intake 1 ''reader'' (Some n) s"
  shows "read_readers (kit_link clock_kit) 1 [(''reader'', n)] budget intake s =
    ([ReadBegan ''reader'' s, ReadFinished ''reader'' True (secs 2)], 1,
      finish_read \<lparr>tk_creator = 1, tk_reader = ''reader'', tk_newest = n\<rparr> True (secs 2)
        (snd (begin_read 1 ''reader'' (Some n) s intake)), s + secs 2)"
proof -
  have "ln_keep_reading (kit_link clock_kit) s" "ln_now (kit_link clock_kit) s = s"
    by (simp_all add: kit_link_def clock_kit_def)
  moreover obtain intake1 where "begin_read 1 ''reader'' (Some n) s intake =
      (Some \<lparr>tk_creator = 1, tk_reader = ''reader'', tk_newest = n\<rparr>, intake1)"
    using assms by (simp add: begin_read_def)
  ultimately show ?thesis by (simp add: read_readers_def clock_read)
qed

lemma clock_due:
  assumes "is_due intake 1 ''reader'' (Some (of_nat s)) s"
  shows "due_readers clock_kit example_env (Inr reader_db) 1 intake s = (Inr [(''reader'', of_nat s)], s)"
proof -
  have reader: "reader_of example_sdk clock_kit ''reader'' = Some ''pubkyreader''"
    by (simp add: reader_of_def clock_kit_def parse_reader_def parse_canonical_def example_sdk_def)
  have kit: "ak_now clock_kit s = s" "ak_linked_peers clock_kit s = (Inr [(''reader'', PeerLinked)], s)"
    "newest_stream_items clock_kit s = (Inr (\<lambda>_. Some (of_nat s)), s)"
    by (simp_all add: clock_kit_def newest_stream_items_def)
  have invoiced: "invoiced_readers example_env reader_db 1 [''pubkyreader''] = [''pubkyreader'']"
    by (simp add: invoiced_readers_def reader_db_def)
  show ?thesis using assms by (simp add: due_readers_def kit reader invoiced map_filter_def)
qed

lemma clock_pass:
  assumes "is_due intake 1 ''reader'' (Some (of_nat s)) s"
  shows "take_in_allowances clock_kit example_env (Inr reader_db) 1 intake s =
    (Inr 1, [ReadBegan ''reader'' s, ReadFinished ''reader'' True (secs 2)],
      finish_read \<lparr>tk_creator = 1, tk_reader = ''reader'', tk_newest = of_nat s\<rparr> True (secs 2)
        (snd (begin_read 1 ''reader'' (Some (of_nat s)) s intake)), s + secs 2)"
  using clock_read_readers [OF assms, of allowance_intake_read_budget]
  by (simp add: take_in_allowances_def clock_due [OF assms])

text \<open>A pass that is dropped while it reads, and the read that the spacing then allows.\<close>

lemma clock_cut:
  assumes "is_due intake 1 ''reader'' (Some (of_nat s)) s"
  shows "dropped_pass clock_kit example_env (Inr reader_db) 1 0 intake s =
    ([ReadBegan ''reader'' s], snd (begin_read 1 ''reader'' (Some (of_nat s)) s intake))"
proof -
  have "ln_keep_reading (kit_link clock_kit) s" "ln_now (kit_link clock_kit) s = s"
    by (simp_all add: kit_link_def clock_kit_def)
  then show ?thesis using assms by (simp add: dropped_pass_def clock_due [OF assms] begin_read_def)
qed

abbreviation first_intake :: "string allowance_intake" where
  "first_intake \<equiv> snd (begin_read 1 ''reader'' (Some (of_nat 0)) 0 (allowance_intake_new allowance_intake_cooldown))"

lemma first_due: "is_due (allowance_intake_new allowance_intake_cooldown) 1 ''reader'' (Some (of_nat 0)) 0"
  by (simp add: is_due_def allowance_intake_new_def reader_intake_default_def Let_def)

lemma second_due: "is_due first_intake 1 ''reader'' (Some (of_nat (secs 6000))) (secs 6000)"
  using first_due
  by (simp add: is_due_def begin_read_def Let_def reader_spacing_def allowance_intake_new_def
      allowance_intake_cooldown_def allowance_intake_spacing_factor_def allowance_intake_pass_deadline_def reader_intake_default_def)

theorem allowance_reads_spaced_witness:
  "\<exists>intake. intake_passes clock_kit example_env 1 allowance_intake_cooldown
      ([ReadBegan ''reader'' 0] @ ReadBegan ''reader'' (secs 6000) # [ReadFinished ''reader'' True (secs 2)]) intake \<and>
     allowance_intake_cooldown \<le> secs 6000 \<and> 10 * allowance_intake_pass_deadline \<le> secs 6000"
proof -
  have "intake_passes clock_kit example_env 1 allowance_intake_cooldown ([] @ [ReadBegan ''reader'' 0]) first_intake"
    by (rule intake_passes.cut_pass [OF intake_passes.no_pass clock_cut [OF first_due]])
  from intake_passes.next_pass [OF this clock_pass [OF second_due]] obtain intake where
    run: "intake_passes clock_kit example_env 1 allowance_intake_cooldown
      ([ReadBegan ''reader'' 0] @ ReadBegan ''reader'' (secs 6000) # [ReadFinished ''reader'' True (secs 2)]) intake" by auto
  have "last_began ''reader'' [ReadBegan ''reader'' 0] = Some 0"
    "scan_after ''reader'' [ReadBegan ''reader'' 0] = allowance_intake_pass_deadline" by (simp_all add: scan_after_def)
  with allowance_reads_spaced [OF run] run show ?thesis by auto
qed

theorem covered_reader_accepted_witness:
  "\<exists>events queued intake' s' calls. read_readers (kit_link (recorded clock_kit)) 1 [(''reader'', 0)] 5
      (allowance_intake_new allowance_intake_cooldown) (0, []) = (events, queued, intake', s', calls) \<and>
     covered intake' 1 ''reader'' = Some 0 \<and>
     (\<exists>records before after. calls = before @ Listed ''reader'' records # concat (map (\<lambda>(i, item). [Locked, Accepted ''reader'' i item])
       (List.map_filter (awaiting_allowee_acceptance (ak_allowance_id_ok clock_kit)) records)) @ after)"
proof -
  let ?new = "allowance_intake_new allowance_intake_cooldown :: string allowance_intake"
  obtain events queued intake' s' calls where run: "read_readers (kit_link (recorded clock_kit)) 1 [(''reader'', 0)] 5 ?new (0, []) =
      (events, queued, intake', s', calls)" by (metis prod.exhaust)
  have due: "is_due ?new 1 ''reader'' (Some 0) 0" using first_due by simp
  note shown = covered_reader_accepted [OF run, of "''reader''"]
  have "covered intake' 1 ''reader'' = Some 0"
    using shown clock_read_readers [OF due, of 5] by (auto simp: finish_read_covered)
  moreover have "covered ?new 1 ''reader'' = None" by (simp add: allowance_intake_new_def reader_intake_default_def)
  ultimately show ?thesis using shown run by auto
qed

end
