(* ===== verification/Spec2Isabelle.thy ===== *)
theory Spec2Isabelle
  imports Handoff_Safety Worker_Scheduling Allowance_Intake
begin

text \<open>
  Paykit Server: a verification development.

  The program (src/paykit-server/src) admits invoices of creators for locked content, asks readers to pay
  through a payment kit, observes Bitcoin and USDT payments, and keeps everything in PostgreSQL.  An HTTP request
  becomes one transaction of a store; background workers lease rows of an outbox, hand the payment requests to the
  kit, follow the answers of the readers, and apply what the chain observers see.  A drain freezes the invoices of
  one lock until they are settled, so that the lock can be cleaned up.

  \<^bold>\<open>Theories and sources.\<close>
    \<^item> Paykit_Prelude, Decimal_Text: results with errors as values, machine integers, checked arithmetic, and the
      text functions of the Rust library that the program calls.
    \<^item> Domain_Values, Payment_Domain, Request_Lifecycle: domain/invoice.rs, locks.rs, receiving.rs, payment.rs,
      provider_v2.rs, payment_request_lifecycle.rs and the binding of bitcoin.rs.
    \<^item> Invoice_Pricing, Delivery_Intent, Payment_Record: application/invoice_pricing.rs, semantic_intent.rs,
      marketplace_terms.rs and the payment record of persistence/invoices.rs.
    \<^item> Crypto_Envelopes: crypto.rs, with the cipher and the keyed hash as parameters.
    \<^item> Store_Tables: one record per row of the migrations and the record db of all tables.
    \<^item> Invoice_Admission: create_atomic of persistence/invoices.rs with its replay lookups.
    \<^item> Outbox_Store, Outbox_Delivery: persistence/outbox.rs, and the correctness of its claims and transitions.
    \<^item> Lifecycle_Store: persistence/payment_request_lifecycles.rs.
    \<^item> Payment_Evidence, Evidence_Safety: the observations of persistence/invoices.rs, invoices/settlement.rs,
      invoices/usdt.rs and invoices/provider_v2.rs, and their correctness.
    \<^item> Payment_Drains, Drain_Safety: persistence/payment_drains.rs with the triggers of its tables.
    \<^item> Store_Runs: transactions of all these stores in any order, with replays of drains between them.
    \<^item> Paykit_Adapter, Handoff_Worker, Handoff_Safety: paykit.rs, workers/outbox.rs and the worker turn of server.rs.
    \<^item> Worker_Scheduling: runtime.rs, workers/creator_tasks.rs and the loops of server.rs.
    \<^item> Allowance_Intake: paykit/allowances.rs and the pass deadline of server.rs.

  \<^bold>\<open>How the code is modelled.\<close>  A struct is a record, an enum a datatype, a fixed-width integer of a computation
  a word of that width; amounts, rates and counters that the program checks keep their width and their overflow
  branches.  A transaction is a function from the database to an error or to a result and a new database, so an early
  return leaves the database as it was; unique indexes, checks and triggers that a statement relies on are branches
  of that statement.  Generated identifiers, nonces, the clock, the rows that other sessions hold locked and the order
  in which tasks end are arguments.  The payment kit is a record of functions on its own state.  Between any two
  accesses of a worker to the store, other sessions may commit any of their transactions.  The requests of the HTTP
  server are interleaved one atomic operation at a time, with the operations in the order of a single history.

  \<^bold>\<open>What is shown.\<close>
    \<^item> Pricing and text: the amount charged is the least that covers the invoice, and every amount, rate, identifier,
      intent and envelope reads back as what was written; an envelope opens only in its own row.
    \<^item> Admission: keys, references, deadlines and Bitcoin addresses stay sound, a repeated admission is a replay, and
      the three replay checks agree.
    \<^item> Outbox: rows only move along the delivery states, a handed-off row is never sent again, older claims are
      fenced, due work is served in order, and an admitted proposal reaches the worker.
    \<^item> Lifecycle: a recorded request never regresses or changes its owner, and is attributed by its sealed terms.
    \<^item> Evidence: the invoice columns are what the active output gives, a settled payment stays settled, on-time marks
      and first evidence have an origin, and the status query agrees with the domain aggregate.
    \<^item> Drains: a drain covers its generation, its lock stays frozen and replayable in every run, and a cleanup
      removes it once.
    \<^item> Hand-off: in every interleaving, proposals of the kit and rows of the outbox correspond, and a drain spares
      requests that were answered.
    \<^item> Scheduling: every ready creator gets its turn, a transport pass ends and maintains all, recovery of a rail is
      published only after a full check, and the capacity of the server is respected.
    \<^item> Intake: reads of one reader are spaced, also after a pass that was cut off, and a reader counts as covered only
      after everything that waited was accepted.

  \<^bold>\<open>Interfaces.\<close>  Laws that several operations share are locales, each interpreted on the model's definitions:
  unique_table (an insertion that keeps a key unique), outbox_operation and quiet_operation (what a worker operation
  may do to the outbox), evidence_operation (what an observer may do), binding_contract and text_codec.

  \<^bold>\<open>What is assumed of code outside the repository.\<close>  aead_correct: opening undoes sealing and rejects other
  associated data.  codecs_ok: a stored value reads back as itself.  clock_adds: a checked addition of instants is the
  sum.  Nonces have the length of the cipher.  Injectivity of the text of an identifier.  kit_bound: the kit keeps a
  proposal under its identifier and changes it by no other call; others_only: other sessions commit only modelled
  transactions.  collates_frozen: the database orders the request identifiers that one drain cancels for one invoice
  as their bytes, which holds for every collation when there is only one such request; without it a replay is
  rejected (collation_mismatch_rejected).  Every property with such an assumption has a witness that meets it.

  \<^bold>\<open>Bounds.\<close>  No fuel is used: every recursion is structural or has a termination proof; the rounds of a transport
  pass end because each one retires a task.  Durations are nanoseconds without a bound, the counter of starts of the
  intake turns is unbounded where the source has 64 bits, and the number of invoices of a drained store is assumed to
  fit a signed 64-bit integer.

  \<^bold>\<open>What is not modelled.\<close>  The HTTP layer with its authentication, the configuration, the setup flows with wallets
  and identity services, the Electrum and token-chain clients, metrics, logging and process start: input and output
  around the stores.  The service layer that orchestrates creation, and the stores of creators and of marketplace
  preparations, are left out; the rows the modelled stores read from them are in the tables.
\<close>

section \<open>Properties that span components\<close>




end
